(* ===== verification/Ubo_Prelude.thy ===== *)
theory Ubo_Prelude
  imports Main
begin

text \<open>
  The vocabulary every component of the development shares: results of fallible Go
  functions, the order in which a Go function runs its checks, and the collections
  of facts the component theories add to.

  A Go function that returns \<open>(T, error)\<close> is a HOL function into \<open>'e + 'a\<close>: \<open>Inl\<close> holds the
  error, \<open>Inr\<close> the value. The statement \<open>if err != nil { return ..., err }\<close> is
  \<open>bindE\<close>; wrapping the error with \<open>fmt.Errorf\<close> is \<open>wrapE\<close>.
\<close>

named_theorems res_simps \<open>equations that run a fallible function\<close>
named_theorems str_simps \<open>equations about Go's string functions\<close>
named_theorems wf_intros \<open>rules that keep a well-formedness predicate\<close>

section \<open>Results\<close>

primrec bindE :: "'e + 'a \<Rightarrow> ('a \<Rightarrow> 'e + 'b) \<Rightarrow> 'e + 'b" where
  "bindE (Inl e) f = Inl e"
| "bindE (Inr a) f = f a"

definition wrapE :: "('e \<Rightarrow> 'f) \<Rightarrow> 'e + 'a \<Rightarrow> 'f + 'a" where
  "wrapE g r = map_sum g id r"

text \<open>\<open>requireE p e\<close> is the guard \<open>if !p { return e }\<close>.\<close>

definition requireE :: "bool \<Rightarrow> 'e \<Rightarrow> 'e + unit" where
  "requireE p e = (if p then Inr () else Inl e)"

primrec isOk :: "'e + 'a \<Rightarrow> bool" where
  "isOk (Inl e) = False"
| "isOk (Inr a) = True"

lemma bindE_Inr [simp]: "bindE r Inr = r"
  by (cases r) simp_all

lemma bindE_assoc: "bindE (bindE r f) g = bindE r (\<lambda>x. bindE (f x) g)"
  by (cases r) simp_all

lemma bindE_eq_Inr [res_simps]: "bindE r f = Inr y \<longleftrightarrow> (\<exists>x. r = Inr x \<and> f x = Inr y)"
  by (cases r) auto

lemma bindE_eq_Inl [res_simps]:
  "bindE r f = Inl e \<longleftrightarrow> r = Inl e \<or> (\<exists>x. r = Inr x \<and> f x = Inl e)"
  by (cases r) auto

lemma wrapE_simps [simp]: "wrapE g (Inl e) = Inl (g e)" "wrapE g (Inr a) = Inr a"
  by (simp_all add: wrapE_def)

lemma wrapE_eq_Inr [simp]: "wrapE g r = Inr a \<longleftrightarrow> r = Inr a"
  by (cases r) simp_all

lemma wrapE_eq_Inl [res_simps]: "wrapE g r = Inl f \<longleftrightarrow> (\<exists>e. r = Inl e \<and> f = g e)"
  by (cases r) auto

lemma requireE_simps [simp]:
  "requireE True e = Inr ()" "requireE False e = Inl e"
  "requireE p e = Inr u \<longleftrightarrow> p" "requireE p e = Inl f \<longleftrightarrow> \<not> p \<and> f = e"
  by (auto simp: requireE_def)

lemma isOk_iff: "isOk r \<longleftrightarrow> (\<exists>a. r = Inr a)"
  by (cases r) simp_all

lemma isOk_bindE [simp]: "isOk (bindE r f) \<longleftrightarrow> (\<exists>x. r = Inr x \<and> isOk (f x))"
  by (cases r) simp_all

section \<open>Steps that change a state\<close>

text \<open>
  A Go function that reads and changes the outside world is a step from a state to a result and
  the next state. \<open>thenS\<close> is the sequence with an early return on error, \<open>wrapS\<close> wraps the error,
  \<open>undoS\<close> runs a clean-up when the step fails, and \<open>finallyS\<close> is a deferred call.
\<close>

type_synonym ('s, 'e, 'a) step = "'s \<Rightarrow> ('e + 'a) \<times> 's"

definition returnS :: "'a \<Rightarrow> ('s, 'e, 'a) step" where
  "returnS a s = (Inr a, s)"

definition liftS :: "'e + 'a \<Rightarrow> ('s, 'e, 'a) step" where
  "liftS r s = (r, s)"

definition thenS :: "('s, 'e, 'a) step \<Rightarrow> ('a \<Rightarrow> ('s, 'e, 'b) step) \<Rightarrow> ('s, 'e, 'b) step" where
  "thenS m f s = (case m s of (Inl e, s') \<Rightarrow> (Inl e, s') | (Inr a, s') \<Rightarrow> f a s')"

definition wrapS :: "('e \<Rightarrow> 'f) \<Rightarrow> ('s, 'e, 'a) step \<Rightarrow> ('s, 'f, 'a) step" where
  "wrapS g m s = (let (r, s') = m s in (wrapE g r, s'))"

definition undoS :: "('s, 'e, 'a) step \<Rightarrow> ('s \<Rightarrow> 's) \<Rightarrow> ('s, 'e, 'a) step" where
  "undoS m u s = (case m s of (Inl e, s') \<Rightarrow> (Inl e, u s') | (Inr a, s') \<Rightarrow> (Inr a, s'))"

definition finallyS :: "('s, 'e, 'a) step \<Rightarrow> ('s \<Rightarrow> 's) \<Rightarrow> ('s, 'e, 'a) step" where
  "finallyS m u s = (let (r, s') = m s in (r, u s'))"

lemma step_simps [simp]: "returnS a s = (Inr a, s)" "liftS r s = (r, s)"
  by (simp_all add: returnS_def liftS_def)

lemma thenS_eq_Inr [res_simps]:
  "thenS m f s = (Inr b, s'') \<longleftrightarrow> (\<exists>a s'. m s = (Inr a, s') \<and> f a s' = (Inr b, s''))"
  by (auto simp: thenS_def split: prod.splits sum.splits)

lemma thenS_eq_Inl [res_simps]:
  "thenS m f s = (Inl e, s'') \<longleftrightarrow>
     m s = (Inl e, s'') \<or> (\<exists>a s'. m s = (Inr a, s') \<and> f a s' = (Inl e, s''))"
  by (auto simp: thenS_def split: prod.splits sum.splits)

lemma wrapS_eq_Inr [res_simps]: "wrapS g m s = (Inr a, s') \<longleftrightarrow> m s = (Inr a, s')"
  by (auto simp: wrapS_def split: prod.splits)

lemma wrapS_eq_Inl [res_simps]: "wrapS g m s = (Inl f, s') \<longleftrightarrow> (\<exists>e. m s = (Inl e, s') \<and> f = g e)"
  by (auto simp: wrapS_def wrapE_eq_Inl split: prod.splits)

lemma undoS_eq_Inr [res_simps]: "undoS m u s = (Inr a, s') \<longleftrightarrow> m s = (Inr a, s')"
  by (auto simp: undoS_def split: prod.splits sum.splits)

lemma undoS_eq_Inl [res_simps]:
  "undoS m u s = (Inl e, s'') \<longleftrightarrow> (\<exists>s'. m s = (Inl e, s') \<and> s'' = u s')"
  by (auto simp: undoS_def split: prod.splits sum.splits)

text \<open>What every part of a step keeps, the step keeps.\<close>

definition keepsS :: "('s \<Rightarrow> 'v) \<Rightarrow> ('s, 'e, 'a) step \<Rightarrow> bool" where
  "keepsS view m \<longleftrightarrow> (\<forall>s. view (snd (m s)) = view s)"

lemma keepsS_intros [intro]:
  "keepsS view (returnS a)" "keepsS view (liftS r)"
  "keepsS view m \<Longrightarrow> (\<And>a. keepsS view (f a)) \<Longrightarrow> keepsS view (thenS m f)"
  "keepsS view m \<Longrightarrow> keepsS view (wrapS g m)"
  "keepsS view m \<Longrightarrow> (\<And>s. view (u s) = view s) \<Longrightarrow> keepsS view (undoS m u)"
  "keepsS view m \<Longrightarrow> (\<And>s. view (u s) = view s) \<Longrightarrow> keepsS view (finallyS m u)"
  by (auto simp: keepsS_def thenS_def wrapS_def undoS_def finallyS_def split: prod.splits sum.splits)
     (metis snd_conv)+

lemma keepsS_D: "keepsS view m \<Longrightarrow> m s = (r, s') \<Longrightarrow> view s' = view s"
  unfolding keepsS_def by (metis snd_conv)

section \<open>The first error of a list of checks\<close>

text \<open>
  \<open>for _, check := range checks { if err := check(c); err != nil { return err } }\<close>
\<close>

fun first_error :: "('c \<Rightarrow> 'e + unit) list \<Rightarrow> 'c \<Rightarrow> 'e + unit" where
  "first_error [] c = Inr ()"
| "first_error (f # fs) c = bindE (f c) (\<lambda>_. first_error fs c)"

lemma first_error_ok: "first_error fs c = Inr u \<longleftrightarrow> (\<forall>f\<in>set fs. f c = Inr ())"
  by (induction fs) (auto simp: res_simps)

text \<open>
  \<open>for _, r := range fields { if r.val == "" { return fmt.Errorf("... r.name ...") } }\<close>
\<close>

definition require_all :: "(string \<Rightarrow> 'e) \<Rightarrow> (string \<times> string) list \<Rightarrow> 'e + unit" where
  "require_all err rs =
     (case find (\<lambda>(name, val). val = []) rs of None \<Rightarrow> Inr () | Some (name, _) \<Rightarrow> Inl (err name))"

lemma require_all_simps [res_simps]:
  "require_all err [] = Inr ()"
  "require_all err ((n, v) # rs) = (if v = [] then Inl (err n) else require_all err rs)"
  by (simp_all add: require_all_def)

lemma require_all_ok: "require_all err rs = Inr u \<longleftrightarrow> (\<forall>(n, v)\<in>set rs. v \<noteq> [])"
  by (induction rs) (auto simp: require_all_simps split: if_splits)

section \<open>Lists\<close>

lemma takeWhile_append_stop:
  "\<forall>x\<in>set xs. P x \<Longrightarrow> \<not> P y \<Longrightarrow> takeWhile P (xs @ y # ys) = xs"
  by (induction xs) simp_all

lemma dropWhile_append_stop:
  "\<forall>x\<in>set xs. P x \<Longrightarrow> \<not> P y \<Longrightarrow> dropWhile P (xs @ y # ys) = y # ys"
  by (induction xs) simp_all

end
