(* ===== verification/Go_Strings.thy ===== *)
theory Go_Strings
  imports Ubo_Prelude
begin

text \<open>
  The functions of Go's package \<open>strings\<close> that ubo calls. A Go string is a sequence of
  bytes, so it is a \<open>char list\<close> whose characters are bytes; text beyond ASCII is its UTF-8
  encoding. White space is Unicode's: the functions that trim or split at it recognise the
  UTF-8 encodings of the runes for which \<open>unicode.IsSpace\<close> holds. No such encoding can
  start inside another rune, so matching the encoding at a byte position is what Go's
  decoder finds there.
\<close>

text \<open>The characters the program's literals write with an escape.\<close>

abbreviation nl :: char where "nl \<equiv> CHR 0x0A"
abbreviation tab :: char where "tab \<equiv> CHR 0x09"
abbreviation dq :: char where "dq \<equiv> CHR 0x22"
abbreviation sq :: char where "sq \<equiv> CHR 0x27"
abbreviation bslash :: char where "bslash \<equiv> CHR 0x5C"

text \<open>The runes beyond ASCII in the program's literals, in UTF-8, and a run of one of them.\<close>

definition mdash :: string where "mdash = [CHR 0xE2, CHR 0x80, CHR 0x94]"
definition bar :: string where "bar = [CHR 0xE2, CHR 0x94, CHR 0x80]"
definition repeat :: "nat \<Rightarrow> string \<Rightarrow> string" where "repeat n s = concat (replicate n s)"

section \<open>Prefixes and suffixes\<close>

definition has_prefix :: "string \<Rightarrow> string \<Rightarrow> bool" where
  "has_prefix s p \<longleftrightarrow> take (length p) s = p"

definition has_suffix :: "string \<Rightarrow> string \<Rightarrow> bool" where
  "has_suffix s p \<longleftrightarrow> length p \<le> length s \<and> drop (length s - length p) s = p"

definition trim_prefix :: "string \<Rightarrow> string \<Rightarrow> string" where
  "trim_prefix s p = (if has_prefix s p then drop (length p) s else s)"

definition trim_suffix :: "string \<Rightarrow> string \<Rightarrow> string" where
  "trim_suffix s p = (if has_suffix s p then take (length s - length p) s else s)"

lemma has_prefix_iff: "has_prefix s p \<longleftrightarrow> (\<exists>r. s = p @ r)"
  unfolding has_prefix_def by (metis append_eq_conv_conj append_take_drop_id)

lemma has_suffix_iff: "has_suffix s p \<longleftrightarrow> (\<exists>r. s = r @ p)"
proof
  assume "has_suffix s p"
  then have d: "drop (length s - length p) s = p" by (simp add: has_suffix_def)
  have "take (length s - length p) s @ p = s"
    using append_take_drop_id [of "length s - length p" s] unfolding d .
  then show "\<exists>r. s = r @ p" by (intro exI) (rule sym)
qed (auto simp: has_suffix_def)

lemma has_prefix_code [str_simps]:
  "has_prefix s [] = True"
  "has_prefix [] (c # p) = False"
  "has_prefix (d # s) (c # p) \<longleftrightarrow> c = d \<and> has_prefix s p"
  by (auto simp: has_prefix_def)

lemma has_prefix_append [simp]: "has_prefix (p @ s) p"
  by (simp add: has_prefix_iff)

lemma has_suffix_append [simp]: "has_suffix (s @ p) p"
  by (simp add: has_suffix_iff)

lemma has_prefix_take:
  assumes "has_prefix (take n s) p"
  shows "has_prefix s p"
proof -
  from assms obtain r where "take n s = p @ r" by (auto simp: has_prefix_iff)
  then have "p @ (r @ drop n s) = s" using append_take_drop_id [of n s] by simp
  then show ?thesis by (metis has_prefix_append)
qed

section \<open>White space\<close>

definition ascii_spaces :: string where
  "ascii_spaces = [CHR 0x09, CHR 0x0A, CHR 0x0B, CHR 0x0C, CHR 0x0D, CHR '' '']"

text \<open>
  The encodings of U+0085, U+00A0, U+1680, U+2000 to U+200A, U+2028, U+2029, U+202F,
  U+205F and U+3000, after the six ASCII characters.
\<close>

definition space_runes :: "string list" where
  "space_runes =
     [[CHR 0x09], [CHR 0x0A], [CHR 0x0B], [CHR 0x0C], [CHR 0x0D], [CHR '' ''],
      [CHR 0xC2, CHR 0x85], [CHR 0xC2, CHR 0xA0], [CHR 0xE1, CHR 0x9A, CHR 0x80],
      [CHR 0xE2, CHR 0x80, CHR 0x80], [CHR 0xE2, CHR 0x80, CHR 0x81],
      [CHR 0xE2, CHR 0x80, CHR 0x82], [CHR 0xE2, CHR 0x80, CHR 0x83],
      [CHR 0xE2, CHR 0x80, CHR 0x84], [CHR 0xE2, CHR 0x80, CHR 0x85],
      [CHR 0xE2, CHR 0x80, CHR 0x86], [CHR 0xE2, CHR 0x80, CHR 0x87],
      [CHR 0xE2, CHR 0x80, CHR 0x88], [CHR 0xE2, CHR 0x80, CHR 0x89],
      [CHR 0xE2, CHR 0x80, CHR 0x8A], [CHR 0xE2, CHR 0x80, CHR 0xA8],
      [CHR 0xE2, CHR 0x80, CHR 0xA9], [CHR 0xE2, CHR 0x80, CHR 0xAF],
      [CHR 0xE2, CHR 0x81, CHR 0x9F], [CHR 0xE3, CHR 0x80, CHR 0x80]]"

text \<open>The white-space rune a string starts (ends) with.\<close>

definition space_at :: "string \<Rightarrow> string option" where
  "space_at s = find (has_prefix s) space_runes"

definition space_end :: "string \<Rightarrow> string option" where
  "space_end s = find (has_suffix s) space_runes"

text \<open>A byte that neither is ASCII white space nor belongs to a longer encoding.\<close>

definition plain :: "char \<Rightarrow> bool" where
  "plain c \<longleftrightarrow> c \<notin> set ascii_spaces \<and> of_char c < (128 :: nat)"

lemma space_runes_shape: "list_all (\<lambda>w. w \<noteq> [] \<and> list_all (\<lambda>c. \<not> plain c) w) space_runes"
  by code_simp

lemma space_runes_nonempty: "w \<in> set space_runes \<Longrightarrow> w \<noteq> []"
  using space_runes_shape by (auto simp: list_all_iff)

lemma space_runes_not_plain: "w \<in> set space_runes \<Longrightarrow> c \<in> set w \<Longrightarrow> \<not> plain c"
  using space_runes_shape by (auto simp: list_all_iff)

lemma space_at_Some: "space_at s = Some w \<Longrightarrow> w \<in> set space_runes \<and> has_prefix s w"
  by (auto simp: space_at_def find_Some_iff)

lemma space_end_Some: "space_end s = Some w \<Longrightarrow> w \<in> set space_runes \<and> has_suffix s w"
  by (auto simp: space_end_def find_Some_iff)

lemma space_at_None: "space_at s = None \<longleftrightarrow> (\<forall>w\<in>set space_runes. \<not> has_prefix s w)"
  by (auto simp: space_at_def find_None_iff)

lemma space_end_None: "space_end s = None \<longleftrightarrow> (\<forall>w\<in>set space_runes. \<not> has_suffix s w)"
  by (auto simp: space_end_def find_None_iff)

lemma space_at_shorter: "space_at s = Some w \<Longrightarrow> length (drop (length w) s) < length s"
proof -
  assume "space_at s = Some w"
  then have "w \<noteq> []" and "has_prefix s w"
    using space_at_Some space_runes_nonempty by blast+
  then show ?thesis by (auto simp: has_prefix_iff)
qed

lemma space_end_shorter: "space_end s = Some w \<Longrightarrow> length s - length w < length s"
proof -
  assume "space_end s = Some w"
  then have "w \<noteq> []" and "has_suffix s w"
    using space_end_Some space_runes_nonempty by blast+
  then show ?thesis by (auto simp: has_suffix_iff)
qed

lemma space_at_Nil [simp]: "space_at [] = None"
  by (auto simp: space_at_None has_prefix_iff dest: space_runes_nonempty)

lemma space_end_Nil [simp]: "space_end [] = None"
  by (auto simp: space_end_None has_suffix_iff dest: space_runes_nonempty)

lemma space_at_plain [simp]: "plain c \<Longrightarrow> space_at (c # s) = None"
  unfolding space_at_None
proof
  fix w assume "plain c" "w \<in> set space_runes"
  then show "\<not> has_prefix (c # s) w"
    using space_runes_nonempty space_runes_not_plain
    by (cases w) (auto simp: str_simps)
qed

lemma space_end_plain [simp]: "plain c \<Longrightarrow> space_end (s @ [c]) = None"
  unfolding space_end_None
proof
  fix w assume "plain c" "w \<in> set space_runes"
  then show "\<not> has_suffix (s @ [c]) w"
    using space_runes_nonempty space_runes_not_plain
    by (cases w rule: rev_cases) (auto simp: has_suffix_iff)
qed

text \<open>The six ASCII characters come first in \<open>space_runes\<close>, each as a rune of one byte.\<close>

lemma ascii_space_cases:
  assumes "c \<in> set ascii_spaces"
  obtains "c = CHR 0x09" | "c = CHR 0x0A" | "c = CHR 0x0B" | "c = CHR 0x0C" | "c = CHR 0x0D"
    | "c = CHR '' ''"
  using assms unfolding ascii_spaces_def by auto

lemma space_at_ascii: "c \<in> set ascii_spaces \<Longrightarrow> space_at (c # s) = Some [c]"
  by (erule ascii_space_cases) (simp_all add: space_at_def space_runes_def str_simps)

lemma space_end_ascii: "c \<in> set ascii_spaces \<Longrightarrow> space_end (s @ [c]) = Some [c]"
  by (erule ascii_space_cases) (simp_all add: space_end_def space_runes_def has_suffix_def)

section \<open>Trimming\<close>

function trim_left :: "string \<Rightarrow> string" where
  "trim_left s =
     (case space_at s of None \<Rightarrow> s | Some w \<Rightarrow> trim_left (drop (length w) s))"
  by pat_completeness auto
termination
  by (relation "measure length") (auto dest: space_at_shorter)

function trim_right :: "string \<Rightarrow> string" where
  "trim_right s =
     (case space_end s of None \<Rightarrow> s | Some w \<Rightarrow> trim_right (take (length s - length w) s))"
  by pat_completeness auto
termination
  by (relation "measure length") (auto dest: space_end_shorter)

declare trim_left.simps [simp del] trim_right.simps [simp del]

text \<open>\<open>strings.TrimSpace\<close>.\<close>

definition trim_space :: "string \<Rightarrow> string" where
  "trim_space s = trim_right (trim_left s)"

lemma trim_left_id: "space_at s = None \<Longrightarrow> trim_left s = s"
  by (simp add: trim_left.simps)

lemma trim_right_id: "space_end s = None \<Longrightarrow> trim_right s = s"
  by (simp add: trim_right.simps)

lemma trim_left_no_space: "space_at (trim_left s) = None"
proof (induction s rule: trim_left.induct)
  case (1 s)
  then show ?case by (subst trim_left.simps) (auto split: option.split)
qed

lemma trim_right_no_space: "space_end (trim_right s) = None"
proof (induction s rule: trim_right.induct)
  case (1 s)
  then show ?case by (subst trim_right.simps) (auto split: option.split)
qed

lemma trim_left_suffix: "\<exists>r. s = r @ trim_left s"
proof (induction s rule: trim_left.induct)
  case (1 s)
  show ?case
  proof (cases "space_at s")
    case None
    then show ?thesis by (simp add: trim_left_id)
  next
    case (Some w)
    then obtain r where "drop (length w) s = r @ trim_left (drop (length w) s)"
      using 1 by blast
    then have "s = (take (length w) s @ r) @ trim_left (drop (length w) s)"
      by (metis append.assoc append_take_drop_id)
    moreover have "trim_left s = trim_left (drop (length w) s)"
      using Some by (subst trim_left.simps) simp
    ultimately show ?thesis by metis
  qed
qed

lemma trim_right_prefix: "\<exists>k. trim_right s = take k s"
proof (induction s rule: trim_right.induct)
  case (1 s)
  show ?case
  proof (cases "space_end s")
    case None
    then show ?thesis by (metis trim_right_id order_refl take_all)
  next
    case (Some w)
    then obtain k where "trim_right (take (length s - length w) s)
        = take k (take (length s - length w) s)"
      using 1 by blast
    with Some show ?thesis by (subst trim_right.simps) (auto simp: take_take)
  qed
qed

lemma set_trim_left: "set (trim_left s) \<subseteq> set s"
  by (metis Un_upper2 set_append trim_left_suffix)

lemma set_trim_right: "set (trim_right s) \<subseteq> set s"
  by (metis set_take_subset trim_right_prefix)

lemma set_trim_space: "set (trim_space s) \<subseteq> set s"
  unfolding trim_space_def using set_trim_left set_trim_right by fast

lemma length_trim_space: "length (trim_space s) \<le> length s"
proof -
  have "length (trim_left s) \<le> length s"
    by (metis le_add2 length_append trim_left_suffix)
  moreover have "length (trim_right t) \<le> length t" for t
    by (metis length_take min.cobounded1 trim_right_prefix)
  ultimately show ?thesis
    unfolding trim_space_def using order_trans by blast
qed

text \<open>A string is trimmed when \<open>TrimSpace\<close> has nothing to remove.\<close>

definition trimmed :: "string \<Rightarrow> bool" where
  "trimmed s \<longleftrightarrow> space_at s = None \<and> space_end s = None"

lemma trimmed_trim_space [simp, wf_intros]: "trimmed (trim_space s)"
proof -
  obtain k where k: "trim_space s = take k (trim_left s)"
    unfolding trim_space_def using trim_right_prefix by blast
  have "space_at (trim_left s) = None" by (rule trim_left_no_space)
  then have "space_at (trim_space s) = None"
    unfolding k space_at_None using has_prefix_take by blast
  then show ?thesis
    by (simp add: trimmed_def trim_space_def trim_right_no_space)
qed

lemma trim_space_id [simp, str_simps]: "trimmed s \<Longrightarrow> trim_space s = s"
  by (simp add: trimmed_def trim_space_def trim_left_id trim_right_id)

lemma trim_space_idem [simp]: "trim_space (trim_space s) = trim_space s"
  by simp

lemma trimmed_plain [wf_intros]:
  "s \<noteq> [] \<Longrightarrow> plain (hd s) \<Longrightarrow> plain (last s) \<Longrightarrow> trimmed s"
  unfolding trimmed_def
  by (metis append_butlast_last_id list.collapse space_at_plain space_end_plain)

lemma trimmed_all_plain [wf_intros]: "\<forall>c\<in>set s. plain c \<Longrightarrow> trimmed s"
proof (cases "s = []")
  case True
  then show ?thesis by (simp add: trimmed_def)
next
  case False
  assume "\<forall>c\<in>set s. plain c"
  with False show ?thesis by (intro trimmed_plain) simp_all
qed

lemma trim_left_ascii:
  assumes "c \<in> set ascii_spaces"
  shows "trim_left (c # s) = trim_left s"
proof -
  from assms have "space_at (c # s) = Some [c]" by (rule space_at_ascii)
  then show ?thesis by (subst trim_left.simps) simp
qed

lemma trim_right_ascii:
  assumes "c \<in> set ascii_spaces"
  shows "trim_right (s @ [c]) = trim_right s"
proof -
  from assms have "space_end (s @ [c]) = Some [c]" by (rule space_end_ascii)
  then show ?thesis by (subst trim_right.simps) simp
qed

lemma trim_space_Nil [simp]: "trim_space [] = []"
  by (simp add: trimmed_def)

section \<open>Splitting\<close>

text \<open>\<open>strings.Split(s, sep)\<close> for a one-byte separator; never the empty list.\<close>

fun split_char :: "char \<Rightarrow> string \<Rightarrow> string list" where
  "split_char c [] = [[]]"
| "split_char c (x # xs) =
     (if x = c then [] # split_char c xs
      else (case split_char c xs of [] \<Rightarrow> [[x]] | y # ys \<Rightarrow> (x # y) # ys))"

lemma split_char_not_Nil [simp]: "split_char c s \<noteq> []"
  by (cases s) (auto split: list.split)

lemma split_char_no_sep: "c \<notin> set s \<Longrightarrow> split_char c s = [s]"
  by (induction s) auto

lemma split_char_append [str_simps]:
  "c \<notin> set s \<Longrightarrow> split_char c (s @ c # t) = s # split_char c t"
  by (induction s) auto

lemma split_char_elems: "l \<in> set (split_char c s) \<Longrightarrow> c \<notin> set l"
  by (induction s arbitrary: l) (fastforce split: if_splits list.splits)+

lemma split_char_set: "l \<in> set (split_char c s) \<Longrightarrow> set l \<subseteq> set s"
  by (induction s arbitrary: l) (fastforce split: if_splits list.splits)+

text \<open>Lines, each ended by a newline.\<close>

definition unlines :: "string list \<Rightarrow> string" where
  "unlines ls = concat (map (\<lambda>l. l @ [nl]) ls)"

lemma unlines_simps [str_simps]:
  "unlines [] = []" "unlines (l # ls) = l @ nl # unlines ls"
  by (simp_all add: unlines_def)

lemma split_unlines: "\<forall>l\<in>set ls. nl \<notin> set l \<Longrightarrow> split_char nl (unlines ls) = ls @ [[]]"
  by (induction ls) (simp_all add: str_simps)

text \<open>\<open>strings.IndexByte\<close>, with \<open>None\<close> for -1, and \<open>strings.Cut\<close> at one byte.\<close>

definition index_byte :: "string \<Rightarrow> char \<Rightarrow> nat option" where
  "index_byte s c = (if c \<in> set s then Some (length (takeWhile (\<lambda>x. x \<noteq> c) s)) else None)"

definition cut_byte :: "string \<Rightarrow> char \<Rightarrow> (string \<times> string) option" where
  "cut_byte s c =
     (case index_byte s c of None \<Rightarrow> None | Some i \<Rightarrow> Some (take i s, drop (Suc i) s))"

lemma index_byte_append [str_simps]: "c \<notin> set s \<Longrightarrow> index_byte (s @ c # t) c = Some (length s)"
  by (subst index_byte_def) (subst takeWhile_append_stop; auto)

lemma index_byte_None [str_simps]: "index_byte s c = None \<longleftrightarrow> c \<notin> set s"
  by (simp add: index_byte_def)

lemma index_byte_SomeD:
  "index_byte s c = Some i \<Longrightarrow> i < length s \<and> s ! i = c \<and> c \<notin> set (take i s)"
proof -
  assume a: "index_byte s c = Some i"
  then have mem: "c \<in> set s" and i: "i = length (takeWhile (\<lambda>x. x \<noteq> c) s)"
    by (auto simp: index_byte_def split: if_splits)
  from mem have "i < length s" unfolding i
    by (metis (mono_tags, lifting) length_takeWhile_le nat_less_le take_all_iff
        takeWhile_eq_all_conv takeWhile_eq_take)
  moreover have "s ! i = c"
    using calculation nth_length_takeWhile[of "\<lambda>x. x \<noteq> c" s] unfolding i by simp
  moreover have "c \<notin> set (take i s)"
    unfolding i by (metis (mono_tags, lifting) set_takeWhileD takeWhile_eq_take)
  ultimately show ?thesis by blast
qed

lemma cut_byte_append [str_simps]: "c \<notin> set s \<Longrightarrow> cut_byte (s @ c # t) c = Some (s, t)"
  by (simp add: cut_byte_def index_byte_append)

lemma cut_byte_None [str_simps]: "cut_byte s c = None \<longleftrightarrow> c \<notin> set s"
  by (simp add: cut_byte_def index_byte_def)

text \<open>\<open>strings.Fields\<close>: the maximal runs of bytes that are not white space.\<close>

definition flush :: "string \<Rightarrow> string list" where
  "flush cur = (if cur = [] then [] else [cur])"

function fields_from :: "string \<Rightarrow> string \<Rightarrow> string list" where
  "fields_from cur [] = flush cur"
| "fields_from cur (c # s) =
     (case space_at (c # s) of
        None \<Rightarrow> fields_from (cur @ [c]) s
      | Some w \<Rightarrow> flush cur @ fields_from [] (drop (length w) (c # s)))"
  by pat_completeness auto
termination
  by (relation "measure (\<lambda>(cur, s). length s)") (auto dest: space_at_shorter)

definition Fields :: "string \<Rightarrow> string list" where
  "Fields s = fields_from [] s"

lemma fields_from_nonempty: "f \<in> set (fields_from cur s) \<Longrightarrow> f \<noteq> []"
  by (induction cur s rule: fields_from.induct) (auto simp: flush_def split: option.splits if_splits)

lemma Fields_nonempty: "f \<in> set (Fields s) \<Longrightarrow> f \<noteq> []"
  by (simp add: Fields_def fields_from_nonempty)

lemma fields_from_no_ascii_space:
  "set cur \<inter> set ascii_spaces = {} \<Longrightarrow> f \<in> set (fields_from cur s) \<Longrightarrow>
     set f \<inter> set ascii_spaces = {}"
proof (induction cur s arbitrary: f rule: fields_from.induct)
  case (1 cur)
  then show ?case by (auto simp: flush_def split: if_splits)
next
  case (2 cur c s)
  show ?case
  proof (cases "space_at (c # s)")
    case None
    then have "c \<notin> set ascii_spaces" using space_at_ascii by force
    with 2 None show ?thesis by auto
  next
    case (Some w)
    with 2 show ?thesis by (fastforce simp: flush_def split: if_splits)
  qed
qed

lemma Fields_no_ascii_space: "f \<in> set (Fields s) \<Longrightarrow> set f \<inter> set ascii_spaces = {}"
  unfolding Fields_def by (rule fields_from_no_ascii_space [rotated]) auto

lemma fields_from_plain:
  "\<forall>c\<in>set s. plain c \<Longrightarrow> fields_from cur (s @ t) = fields_from (cur @ s) t"
  by (induction s arbitrary: cur) simp_all

text \<open>
  The lines a \<open>bufio.Scanner\<close> delivers: separated by newlines, with no last empty line and with
  one carriage return at the end of a line dropped. \<open>None\<close> is \<open>ErrTooLong\<close>: a line that fills
  the scanner's buffer of 64 kB.
\<close>

definition max_token :: nat where "max_token = 65536"

definition drop_CR :: "string \<Rightarrow> string" where
  "drop_CR l = trim_suffix l [CHR 0x0D]"

definition scan_lines :: "string \<Rightarrow> string list option" where
  "scan_lines s =
     (let ls = split_char nl s
      in if list_ex (\<lambda>l. max_token \<le> length l) ls then None
         else Some (map drop_CR (if last ls = [] then butlast ls else ls)))"

text \<open>What a scan delivers before it ends, at the first line that is too long or at the end.\<close>

definition scan_until_long :: "string \<Rightarrow> string list" where
  "scan_until_long s =
     (let ls = split_char nl s
      in map drop_CR (takeWhile (\<lambda>l. length l < max_token) (if last ls = [] then butlast ls else ls)))"

lemma scan_unlines:
  "\<forall>l\<in>set ls. nl \<notin> set l \<and> length l < max_token \<Longrightarrow> scan_lines (unlines ls) = Some (map drop_CR ls)"
  by (auto simp: scan_lines_def split_unlines list_ex_iff Let_def max_token_def)

lemma drop_CR_id: "plain (last l) \<Longrightarrow> drop_CR l = l"
proof -
  assume "plain (last l)"
  then have "\<not> has_suffix l [CHR 0x0D]"
    by (auto simp: has_suffix_iff plain_def ascii_spaces_def)
  then show ?thesis by (simp add: drop_CR_def trim_suffix_def)
qed

section \<open>Replacing, joining, case\<close>

text \<open>
  \<open>strings.ReplaceAll\<close> of a one-byte string, and \<open>strings.NewReplacer\<close> whose old strings are
  single bytes: a map over the bytes.
\<close>

definition replace_bytes :: "(char \<Rightarrow> string) \<Rightarrow> string \<Rightarrow> string" where
  "replace_bytes f s = concat (map f s)"

lemma replace_bytes_simps [simp, str_simps]:
  "replace_bytes f [] = []"
  "replace_bytes f (c # s) = f c @ replace_bytes f s"
  "replace_bytes f (s @ t) = replace_bytes f s @ replace_bytes f t"
  by (simp_all add: replace_bytes_def)

definition contains_any :: "string \<Rightarrow> string \<Rightarrow> bool" where
  "contains_any s chars \<longleftrightarrow> list_ex (\<lambda>c. c \<in> set chars) s"

lemma contains_any_iff: "contains_any s chars \<longleftrightarrow> set s \<inter> set chars \<noteq> {}"
  by (auto simp: contains_any_def list_ex_iff)

fun join :: "string list \<Rightarrow> string \<Rightarrow> string" where
  "join [] sep = []"
| "join [s] sep = s"
| "join (s # t # ts) sep = s @ sep @ join (t # ts) sep"

text \<open>
  \<open>strings.ToLower\<close>, up to what a comparison with an ASCII string can see: ASCII letters are
  lowered, the two runes beyond ASCII whose lower case is ASCII (U+0130 and U+212A) become
  \<open>i\<close> and \<open>k\<close>, and every other byte beyond ASCII is kept, where Go may change it to another
  byte beyond ASCII.
\<close>

definition lower_char :: "char \<Rightarrow> char" where
  "lower_char c =
     (if 65 \<le> (of_char c :: nat) \<and> (of_char c :: nat) \<le> 90 then char_of (of_char c + 32 :: nat) else c)"

fun to_lower :: "string \<Rightarrow> string" where
  "to_lower [] = []"
| "to_lower (c # s) =
     (if c = CHR 0xC4 \<and> has_prefix s [CHR 0xB0] then CHR ''i'' # to_lower (drop 1 s)
      else if c = CHR 0xE2 \<and> has_prefix s [CHR 0x84, CHR 0xAA] then CHR ''k'' # to_lower (drop 2 s)
      else lower_char c # to_lower s)"

lemma to_lower_append:
  "\<forall>c\<in>set s. of_char c < (128 :: nat) \<Longrightarrow> to_lower (s @ t) = to_lower s @ to_lower t"
  by (induction s) auto

end
