(* ===== verification/Go_Path.thy ===== *)
theory Go_Path
  imports Go_Strings
begin

text \<open>
  Go's package \<open>path/filepath\<close> on Unix: \<open>Clean\<close>, \<open>Join\<close> and \<open>Dir\<close>, which are lexical: they
  look at the path's text only.
\<close>

abbreviation slash :: char where "slash \<equiv> CHR ''/''"

section \<open>Clean, Join, Dir\<close>

text \<open>
  The elements of a cleaned path, given the elements kept so far (last first): empty elements
  and dots go, a double dot takes back the element before it, stays in front of a relative
  path and is dropped at the root.
\<close>

fun cleanElems :: "bool \<Rightarrow> string list \<Rightarrow> string list \<Rightarrow> string list" where
  "cleanElems rooted st [] = rev st"
| "cleanElems rooted st (e # es) =
     (if e = [] \<or> e = ''.'' then cleanElems rooted st es
      else if e = ''..'' then
        (if st \<noteq> [] \<and> hd st \<noteq> ''..'' then cleanElems rooted (tl st) es
         else if \<not> rooted then cleanElems rooted (''..'' # st) es
         else cleanElems rooted st es)
      else cleanElems rooted (e # st) es)"

definition Clean :: "string \<Rightarrow> string" where
  "Clean p =
     (if p = [] then ''.''
      else let rooted = (hd p = slash);
               body = join (cleanElems rooted [] (split_char slash p)) ''/''
           in if rooted then slash # body else if body = [] then ''.'' else body)"

definition Join :: "string list \<Rightarrow> string" where
  "Join es = (case dropWhile (\<lambda>e. e = []) es of [] \<Rightarrow> [] | fs \<Rightarrow> Clean (join fs ''/''))"

definition Dir :: "string \<Rightarrow> string" where
  "Dir p = Clean (rev (dropWhile (\<lambda>c. c \<noteq> slash) (rev p)))"

section \<open>Cleaning twice is cleaning once\<close>

text \<open>A single path element that is a name.\<close>

definition file_name :: "string \<Rightarrow> bool" where
  "file_name n \<longleftrightarrow> n \<noteq> [] \<and> n \<noteq> ''.'' \<and> n \<noteq> ''..'' \<and> slash \<notin> set n"

text \<open>Elements no further cleaning changes: double dots, at a relative path only, then names.\<close>

definition cleanList :: "bool \<Rightarrow> string list \<Rightarrow> bool" where
  "cleanList rooted es \<longleftrightarrow>
     (\<exists>k ns. es = replicate k ''..'' @ ns \<and> (rooted \<longrightarrow> k = 0) \<and> (\<forall>n\<in>set ns. file_name n))"

lemma cleanListI:
  "(rooted \<Longrightarrow> k = 0) \<Longrightarrow> (\<And>n. n \<in> set ns \<Longrightarrow> file_name n) \<Longrightarrow> cleanList rooted (replicate k ''..'' @ ns)"
  by (auto simp: cleanList_def)

lemma cleanList_names: "(\<And>n. n \<in> set ns \<Longrightarrow> file_name n) \<Longrightarrow> cleanList rooted ns"
  using cleanListI [of rooted 0 ns] by simp

lemma cleanList_Nil: "cleanList rooted []"
  by (rule cleanList_names) simp

lemma cleanList_elem:
  assumes "cleanList rooted es" "e \<in> set es"
  shows "e \<noteq> [] \<and> e \<noteq> ''.'' \<and> slash \<notin> set e"
proof -
  obtain k ns where "es = replicate k ''..'' @ ns" "\<forall>n\<in>set ns. file_name n"
    using assms(1) unfolding cleanList_def by blast
  with assms(2) have "e = ''..'' \<or> file_name e" by auto
  then show ?thesis unfolding file_name_def by (elim disjE) simp_all
qed

lemma butlast_replicate: "butlast (replicate k x) = replicate (k - 1) x"
proof (induction k)
  case (Suc k)
  then show ?case by (cases k) simp_all
qed simp

lemma cleanList_snoc_name: "cleanList rooted es \<Longrightarrow> file_name e \<Longrightarrow> cleanList rooted (es @ [e])"
proof -
  assume "cleanList rooted es" "file_name e"
  then obtain k ns where "es = replicate k ''..'' @ ns" "rooted \<longrightarrow> k = 0" "\<forall>n\<in>set ns. file_name n"
    by (auto simp: cleanList_def)
  with \<open>file_name e\<close> show ?thesis using cleanListI [of rooted k "ns @ [e]"] by auto
qed

lemma cleanList_dotdots:
  assumes "cleanList False es" "es = [] \<or> last es = ''..''"
  shows "cleanList False (es @ [''..''])"
proof -
  obtain k ns where es: "es = replicate k ''..'' @ ns" "\<forall>n\<in>set ns. file_name n"
    using assms(1) by (auto simp: cleanList_def)
  have "ns = []"
  proof (rule ccontr)
    assume "ns \<noteq> []"
    then have "file_name (last es)" using es by simp
    with assms(2) \<open>ns \<noteq> []\<close> es(1) show False by (auto simp: file_name_def)
  qed
  then have "es @ [''..''] = replicate (Suc k) ''..'' @ []" using es(1) by (simp add: replicate_append_same)
  then show ?thesis by (metis cleanListI empty_iff empty_set)
qed

lemma cleanList_butlast:
  assumes "cleanList rooted (es @ [e])"
  shows "cleanList rooted es"
proof -
  obtain k ns where es: "es @ [e] = replicate k ''..'' @ ns" "rooted \<longrightarrow> k = 0" "\<forall>n\<in>set ns. file_name n"
    using assms by (auto simp: cleanList_def)
  then have "es = butlast (replicate k ''..'' @ ns)" by (metis butlast_snoc)
  then have "es = (if ns = [] then replicate (k - 1) ''..'' @ [] else replicate k ''..'' @ butlast ns)"
    by (simp add: butlast_append butlast_replicate)
  with es(2,3) show ?thesis
    by (metis cleanListI diff_0_eq_0 empty_iff empty_set in_set_butlastD)
qed

lemma cleanElems_clean:
  "cleanList rooted (rev st) \<Longrightarrow> \<forall>e\<in>set es. slash \<notin> set e \<Longrightarrow>
     cleanList rooted (cleanElems rooted st es)"
proof (induction rooted st es rule: cleanElems.induct)
  case (2 rooted st e es)
  consider "e = [] \<or> e = ''.''" | "e = ''..''" | "file_name e"
    using "2.prems"(2) by (auto simp: file_name_def)
  then show ?case
  proof cases
    case 1
    with 2 show ?thesis by simp
  next
    case e: 2
    have top: "cleanList rooted (rev (tl st))" if "st \<noteq> []"
    proof -
      from that have "rev st = rev (tl st) @ [hd st]" by (cases st) auto
      then show ?thesis using "2.prems"(1) cleanList_butlast by metis
    qed
    have "cleanList rooted (rev (''..'' # st))" if "\<not> rooted" "st = [] \<or> hd st = ''..''"
      using cleanList_dotdots [of "rev st"] "2.prems"(1) that by (auto simp: last_rev)
    with 2 e top show ?thesis by auto
  next
    case 3
    then have "e \<noteq> []" "e \<noteq> ''.''" "e \<noteq> ''..''" by (auto simp: file_name_def)
    moreover have "cleanList rooted (rev (e # st))"
      using 3 "2.prems"(1) by (simp add: cleanList_snoc_name)
    ultimately show ?thesis using 2 by simp
  qed
qed simp

lemma cleanElems_dotdots:
  "\<forall>e\<in>set es. e = ''..'' \<Longrightarrow> st = [] \<or> hd st = ''..'' \<Longrightarrow>
     cleanElems False st (es @ fs) = cleanElems False (rev es @ st) fs"
  by (induction es arbitrary: st) auto

lemma cleanElems_names:
  "\<forall>e\<in>set es. e \<noteq> [] \<and> e \<noteq> ''.'' \<and> e \<noteq> ''..'' \<Longrightarrow>
     cleanElems rooted st es = rev st @ es"
  by (induction es arbitrary: st) auto

lemma cleanElems_id:
  assumes "cleanList rooted es"
  shows "cleanElems rooted [] es = es"
proof -
  obtain k ns where es: "es = replicate k ''..'' @ ns" "rooted \<longrightarrow> k = 0" "\<forall>n\<in>set ns. file_name n"
    using assms by (auto simp: cleanList_def)
  have ns: "\<forall>e\<in>set ns. e \<noteq> [] \<and> e \<noteq> ''.'' \<and> e \<noteq> ''..''" using es(3) by (auto simp: file_name_def)
  show ?thesis
  proof (cases rooted)
    case True
    with es ns show ?thesis using cleanElems_names [of ns rooted "[]"] by simp
  next
    case False
    have "cleanElems False [] (replicate k ''..'' @ ns) = cleanElems False (rev (replicate k ''..'')) ns"
      using cleanElems_dotdots [of "replicate k ''..''" "[]" ns] by simp
    with False ns es(1) show ?thesis
      using cleanElems_names [of ns False "replicate k ''..''"] by simp
  qed
qed

lemma split_join:
  "es \<noteq> [] \<Longrightarrow> \<forall>e\<in>set es. c \<notin> set e \<Longrightarrow> split_char c (join es [c]) = es"
  by (induction es "[c]" rule: join.induct) (simp_all add: split_char_no_sep str_simps)

lemma join_eq_Nil: "\<forall>e\<in>set es. e \<noteq> [] \<Longrightarrow> join es sep = [] \<longleftrightarrow> es = []"
  by (induction es sep rule: join.induct) auto

lemma hd_join: "es \<noteq> [] \<Longrightarrow> hd es \<noteq> [] \<Longrightarrow> hd (join es sep) = hd (hd es)"
  by (induction es sep rule: join.induct) auto

lemma Clean_elems:
  assumes "cleanList rooted es"
  shows "Clean (if rooted then slash # join es ''/'' else if es = [] then ''.'' else join es ''/'')
    = (if rooted then slash # join es ''/'' else if es = [] then ''.'' else join es ''/'')"
proof -
  have elems: "\<forall>e\<in>set es. e \<noteq> [] \<and> slash \<notin> set e" using assms cleanList_elem by blast
  show ?thesis
  proof (cases "es = []")
    case True
    then show ?thesis by (simp add: Clean_def)
  next
    case False
    then have split: "split_char slash (join es ''/'') = es" using elems by (intro split_join) auto
    have "hd (join es ''/'') \<in> set (hd es)" "join es ''/'' \<noteq> []"
      using False elems hd_join [of es "''/''"] join_eq_Nil [of es "''/''"] by auto
    then have "hd (join es ''/'') \<noteq> slash" using elems False by (metis hd_in_set)
    with False split \<open>join es ''/'' \<noteq> []\<close> show ?thesis
      using cleanElems_id [OF assms] by (auto simp: Clean_def Let_def)
  qed
qed

text \<open>The text of a list of elements, as \<open>Clean\<close> writes it.\<close>

lemma Clean_shape:
  "\<exists>rooted es. cleanList rooted es \<and>
    Clean p = (if rooted then slash # join es ''/'' else if es = [] then ''.'' else join es ''/'')"
proof (cases "p = []")
  case True
  then show ?thesis
    by (intro exI [of _ False] exI [of _ "[]"]) (simp add: Clean_def cleanList_Nil)
next
  case False
  define es where "es = cleanElems (hd p = slash) [] (split_char slash p)"
  have clean: "cleanList (hd p = slash) es"
    unfolding es_def by (rule cleanElems_clean) (auto simp: cleanList_Nil dest: split_char_elems)
  then have "join es ''/'' = [] \<longleftrightarrow> es = []" by (intro join_eq_Nil) (auto dest: cleanList_elem)
  moreover have "Clean p = (if hd p = slash then slash # join es ''/''
      else if join es ''/'' = [] then ''.'' else join es ''/'')"
    using False by (simp add: Clean_def es_def Let_def)
  ultimately show ?thesis using clean by (intro exI [of _ "hd p = slash"] exI [of _ es]) simp
qed

lemma Clean_idem [simp]: "Clean (Clean p) = Clean p"
proof -
  obtain rooted es where es: "cleanList rooted es"
    and eq: "Clean p = (if rooted then slash # join es ''/'' else if es = [] then ''.'' else join es ''/'')"
    using Clean_shape [of p] by blast
  show ?thesis unfolding eq by (rule Clean_elems) (rule es)
qed

section \<open>Names in a directory\<close>

lemma Clean_name: "file_name n \<Longrightarrow> Clean n = n"
  using Clean_elems [OF cleanList_names, of "[n]" False] by simp

lemma Join_names: "file_name d \<Longrightarrow> file_name n \<Longrightarrow> Join [d, n] = d @ slash # n"
  using Clean_elems [OF cleanList_names, of "[d, n]" False] by (auto simp: Join_def file_name_def)

lemma Dir_names:
  assumes "file_name d" "file_name n"
  shows "Dir (d @ slash # n) = d"
proof -
  have "dropWhile (\<lambda>c. c \<noteq> slash) (rev n @ slash # rev d) = slash # rev d"
    by (rule dropWhile_append_stop) (use assms(2) in \<open>auto simp: file_name_def\<close>)
  then have "Dir (d @ slash # n) = Clean (d @ ''/'')" by (simp add: Dir_def)
  moreover have "split_char slash (d @ slash # []) = [d, []]"
    using assms(1) by (simp add: file_name_def str_simps)
  moreover have "hd (d @ ''/'') \<noteq> slash" using assms(1) by (cases d) (auto simp: file_name_def)
  ultimately show ?thesis using assms(1) by (simp add: Clean_def file_name_def Let_def)
qed

lemma Dir_name: "file_name n \<Longrightarrow> Dir n = ''.''"
proof -
  assume "file_name n"
  then have "dropWhile (\<lambda>c. c \<noteq> slash) (rev n) = []" by (auto simp: file_name_def)
  then show ?thesis by (simp add: Dir_def Clean_def)
qed

text \<open>A path made of a directory and a name still ends in the name when it is cleaned.\<close>

lemma split_char_at: "split_char c (s @ c # t) = split_char c s @ split_char c t"
proof (induction s)
  case (Cons x s)
  have "split_char c s \<noteq> []" by simp
  with Cons show ?case by (cases "split_char c s") (simp_all split: list.split)
qed simp

lemma cleanElems_snoc_name: "file_name n \<Longrightarrow> cleanElems rooted st (es @ [n]) = cleanElems rooted st es @ [n]"
proof (induction rooted st es rule: cleanElems.induct)
  case (1 rooted st)
  then show ?case by (simp add: file_name_def)
next
  case (2 rooted st e es)
  consider "e = [] \<or> e = ''.''" | "e = ''..''" | "e \<noteq> []" "e \<noteq> ''.''" "e \<noteq> ''..''" by blast
  then show ?case by cases (use 2 in auto)
qed

lemma join_snoc: "\<exists>r. join (es @ [e]) sep = r @ e"
proof (induction es)
  case (Cons s es)
  then obtain r where "join (es @ [e]) sep = r @ e" by blast
  then have "join ((s # es) @ [e]) sep = (s @ sep @ r) @ e"
    by (cases "es @ [e]") simp_all
  then show ?case by blast
qed simp

lemma Clean_in_dir: "file_name n \<Longrightarrow> \<exists>r. Clean (d @ slash # n) = r @ n"
proof -
  assume n: "file_name n"
  let ?p = "d @ slash # n" and ?rooted = "hd (d @ slash # n) = slash"
  have "split_char slash ?p = split_char slash d @ [n]"
    using n by (simp add: split_char_at split_char_no_sep file_name_def)
  then obtain r where r: "join (cleanElems ?rooted [] (split_char slash ?p)) ''/'' = r @ n"
    using n join_snoc by (metis cleanElems_snoc_name)
  moreover have "n \<noteq> []" using n by (simp add: file_name_def)
  ultimately have "Clean ?p = (if ?rooted then slash # r @ n else r @ n)"
    by (cases ?rooted) (simp_all add: Clean_def Let_def)
  then show ?thesis by (metis append_Cons)
qed

text \<open>Appending to the name appends to the cleaned path.\<close>

lemma join_snoc_append: "join (es @ [e @ t]) sep = join (es @ [e]) sep @ t"
proof (induction es)
  case (Cons s es)
  then show ?case by (cases es) simp_all
qed simp

lemma Clean_name_append:
  assumes "file_name n" "file_name (n @ t)"
  shows "Clean (d @ slash # n @ t) = Clean (d @ slash # n) @ t"
proof -
  have es: "split_char slash (d @ slash # m) = split_char slash d @ [m]" if "file_name m" for m
    using that by (simp add: split_char_at split_char_no_sep file_name_def)
  let ?r = "hd (d @ slash # n) = slash"
  have hd: "hd (d @ slash # n @ t) = hd (d @ slash # n)" by (cases d) simp_all
  have j: "join (cleanElems b [] (split_char slash (d @ slash # n @ t))) ''/''
      = join (cleanElems b [] (split_char slash (d @ slash # n))) ''/'' @ t"
    "join (cleanElems b [] (split_char slash (d @ slash # n))) ''/'' \<noteq> []" for b
    unfolding es [OF assms(1)] es [OF assms(2)] cleanElems_snoc_name [OF assms(1)]
      cleanElems_snoc_name [OF assms(2)] join_snoc_append
    using assms(1) join_snoc [of _ n] by (auto simp: file_name_def) (metis Nil_is_append_conv)
  show ?thesis unfolding Clean_def hd Let_def j(1) using j(2) by simp
qed

lemma Join_dir_name: "file_name n \<Longrightarrow> Join [d, n] = (if d = [] then n else Clean (d @ slash # n))"
  by (simp add: Join_def Clean_name file_name_def)

lemma Join_name_append:
  assumes "file_name n" "file_name (n @ t)"
  shows "Join [d, n @ t] = Join [d, n] @ t"
  using Clean_name_append [OF assms] by (simp add: Join_dir_name assms)

lemma Clean_Join: "file_name n \<Longrightarrow> \<exists>r. Clean (Join [d, n]) = r @ n"
  using Clean_in_dir [of n d] by (simp add: Join_dir_name Clean_name)

end
