(* ===== verification/Go_Numbers.thy ===== *)
theory Go_Numbers
  imports Go_Strings
begin

text \<open>
  Decimal text and Go's \<open>int\<close>: \<open>strconv.Itoa\<close>, \<open>strconv.Atoi\<close>, the verb \<open>%d\<close> of
  \<open>fmt.Sscanf\<close> and the verbs \<open>%d\<close>, \<open>%o\<close>, \<open>%x\<close> of \<open>fmt.Sprintf\<close>. An \<open>int\<close> has 64 bits; the
  program does no arithmetic that could leave that range, so a Go \<open>int\<close> is a HOL \<open>int\<close>, and
  the range is checked where text becomes a number, as the library does.
\<close>

definition int64 :: "int \<Rightarrow> bool" where
  "int64 n \<longleftrightarrow> - (2 ^ 63) \<le> n \<and> n < 2 ^ 63"

section \<open>Digits\<close>

definition is_digit :: "char \<Rightarrow> bool" where
  "is_digit c \<longleftrightarrow> 48 \<le> (of_char c :: nat) \<and> (of_char c :: nat) \<le> 57"

definition digit_val :: "char \<Rightarrow> nat" where
  "digit_val c = of_char c - 48"

definition digit_char :: "nat \<Rightarrow> char" where
  "digit_char d = char_of (if d < 10 then 48 + d else 87 + d)"

definition digits_val :: "string \<Rightarrow> nat" where
  "digits_val s = foldl (\<lambda>a c. 10 * a + digit_val c) 0 s"

lemma of_digit_char:
  "d < 16 \<Longrightarrow> of_char (digit_char d) = (if d < 10 then 48 + d else 87 + d :: nat)"
  by (simp add: digit_char_def of_char_of)

lemma is_digit_digit_char [simp]: "d < 10 \<Longrightarrow> is_digit (digit_char d)"
  by (simp add: is_digit_def of_digit_char)

lemma digit_val_digit_char [simp]: "d < 10 \<Longrightarrow> digit_val (digit_char d) = d"
  by (simp add: digit_val_def of_digit_char)

lemma digit_val_bound: "is_digit c \<Longrightarrow> digit_val c < 10"
  unfolding is_digit_def digit_val_def by arith

lemma digit_char_digit_val: "is_digit c \<Longrightarrow> digit_char (digit_val c) = c"
  using digit_val_bound [of c] by (simp add: is_digit_def digit_val_def digit_char_def)

lemma digit_char_eq_0: "d < 10 \<Longrightarrow> digit_char d = CHR ''0'' \<longleftrightarrow> d = 0"
proof
  assume d: "d < 10" and "digit_char d = CHR ''0''"
  then have "d = digit_val CHR ''0''" by (metis digit_val_digit_char)
  then show "d = 0" by (simp add: digit_val_def)
next
  have "digit_char 0 = CHR ''0''" by code_simp
  then show "d = 0 \<Longrightarrow> digit_char d = CHR ''0''" by simp
qed

lemma is_digit_plain: "is_digit c \<Longrightarrow> plain c"
  by (auto simp: is_digit_def plain_def ascii_spaces_def)

lemma is_digit_ne [simp]:
  "\<not> is_digit CHR ''-''" "\<not> is_digit CHR ''+''" "\<not> is_digit CHR ''.''" "\<not> is_digit CHR '':''"
  "\<not> is_digit CHR ''/''" "\<not> is_digit CHR ''#''" "\<not> is_digit CHR 0x0A" "\<not> is_digit CHR 0x22"
  "\<not> is_digit CHR ''t''" "\<not> is_digit CHR ''f''" "\<not> is_digit CHR '' ''"
  by (simp_all add: is_digit_def)

section \<open>Printing\<close>

text \<open>The digits of a number to a base between 2 and 16.\<close>

function show_base :: "nat \<Rightarrow> nat \<Rightarrow> string" where
  "show_base b n =
     (if n < b \<or> b < 2 then [digit_char n]
      else show_base b (n div b) @ [digit_char (n mod b)])"
  by pat_completeness auto
termination
  by (relation "measure snd") auto

declare show_base.simps [simp del]

abbreviation show_nat :: "nat \<Rightarrow> string" where
  "show_nat \<equiv> show_base 10"

definition itoa :: "int \<Rightarrow> string" where
  "itoa n = (if n < 0 then CHR ''-'' # show_nat (nat (- n)) else show_nat (nat n))"

lemma show_base_not_Nil [simp]: "show_base b n \<noteq> []"
  by (subst show_base.simps) simp

lemma show_nat_digits: "\<forall>c\<in>set (show_nat n). is_digit c"
proof (induction "10 :: nat" n rule: show_base.induct)
  case (1 n)
  then show ?case by (subst show_base.simps) auto
qed

lemma digits_val_append: "digits_val (s @ [c]) = 10 * digits_val s + digit_val c"
  by (simp add: digits_val_def)

lemma digits_val_show_nat [simp]: "digits_val (show_nat n) = n"
proof (induction "10 :: nat" n rule: show_base.induct)
  case (1 n)
  show ?case
  proof (cases "n < 10")
    case True
    then show ?thesis by (subst show_base.simps) (simp add: digits_val_def)
  next
    case False
    with 1 have "digits_val (show_nat (n div 10)) = n div 10" by simp
    with False show ?thesis by (subst show_base.simps) (simp add: digits_val_append)
  qed
qed

text \<open>No leading zero: the first digit is 0 only for the number 0.\<close>

lemma show_nat_first: "hd (show_nat n) = CHR ''0'' \<longleftrightarrow> n = 0"
proof (induction "10 :: nat" n rule: show_base.induct)
  case (1 n)
  show ?case
  proof (cases "n < 10")
    case True
    then show ?thesis
      by (subst show_base.simps) (simp add: digit_char_eq_0)
  next
    case False
    with 1 have "hd (show_nat (n div 10)) \<noteq> CHR ''0''" by simp
    with False show ?thesis by (subst show_base.simps) simp
  qed
qed

lemma length_show_nat_bound: "n < 10 ^ Suc k \<Longrightarrow> length (show_nat n) \<le> Suc k"
proof (induction k arbitrary: n)
  case 0
  then show ?case by (subst show_base.simps) simp
next
  case (Suc k)
  then have "n div 10 < 10 ^ Suc k" by (simp add: div_less_iff_less_mult)
  then have "length (show_nat (n div 10)) \<le> Suc k" by (rule Suc.IH)
  then show ?case by (subst show_base.simps) simp
qed

section \<open>Reading\<close>

text \<open>The optional sign of \<open>strconv.ParseInt\<close>: whether it is a minus, and the rest.\<close>

definition split_sign :: "string \<Rightarrow> bool \<times> string" where
  "split_sign s =
     (case s of
        [] \<Rightarrow> (False, [])
      | c # r \<Rightarrow> if c = CHR ''-'' then (True, r) else if c = CHR ''+'' then (False, r) else (False, s))"

text \<open>\<open>strconv.ParseInt(s, 10, 64)\<close>, which is \<open>strconv.Atoi\<close> on a 64-bit platform; \<open>None\<close> for an error.\<close>

definition atoi :: "string \<Rightarrow> int option" where
  "atoi s =
     (let (neg, ds) = split_sign s;
          v = (if neg then - int (digits_val ds) else int (digits_val ds))
      in if ds = [] \<or> \<not> list_all is_digit ds then None
         else if int64 v then Some v else None)"

lemma atoi_int64: "atoi s = Some n \<Longrightarrow> int64 n"
  by (auto simp: atoi_def Let_def split: prod.splits if_splits)

lemma split_sign_show_nat: "split_sign (show_nat n) = (False, show_nat n)"
  using show_nat_digits [of n]
  by (cases "show_nat n") (auto simp: split_sign_def)

lemma list_all_show_nat: "list_all is_digit (show_nat n)"
  using show_nat_digits by (simp add: list_all_iff)

theorem atoi_itoa [simp]: "int64 n \<Longrightarrow> atoi (itoa n) = Some n"
proof (cases "n < 0")
  case True
  assume "int64 n"
  moreover have "split_sign (itoa n) = (True, show_nat (nat (- n)))"
    using True by (simp add: itoa_def split_sign_def)
  ultimately show ?thesis
    using True list_all_show_nat by (simp add: atoi_def Let_def)
next
  case False
  assume "int64 n"
  with False list_all_show_nat show ?thesis
    by (simp add: atoi_def itoa_def split_sign_show_nat Let_def)
qed

lemma itoa_chars: "c \<in> set (itoa n) \<Longrightarrow> is_digit c \<or> c = CHR ''-''"
  using show_nat_digits by (auto simp: itoa_def split: if_splits)

lemma itoa_not_Nil [simp]: "itoa n \<noteq> []"
  by (simp add: itoa_def)

lemma itoa_plain: "\<forall>c\<in>set (itoa n). plain c"
proof
  fix c assume "c \<in> set (itoa n)"
  then consider "is_digit c" | "c = CHR ''-''" using itoa_chars by blast
  then show "plain c"
    by cases (rule is_digit_plain, assumption, simp add: plain_def ascii_spaces_def)
qed

lemma trimmed_itoa [wf_intros]: "trimmed (itoa n)"
  by (rule trimmed_all_plain) (rule itoa_plain)

text \<open>
  The verb \<open>%d\<close> of \<open>fmt.Sscanf\<close> on text that does not start with white space (its callers trim
  their input): a sign, then the longest run of digits; what follows is left unread, and
  \<open>Sscanf\<close> does not mind that it is there.
\<close>

definition sscanf_d :: "string \<Rightarrow> int option" where
  "sscanf_d s =
     (let (neg, r) = split_sign s; ds = takeWhile is_digit r
      in atoi ((if neg then [CHR ''-''] else []) @ ds))"

lemma takeWhile_all: "list_all P xs \<Longrightarrow> takeWhile P xs = xs"
  by (simp add: list_all_iff takeWhile_eq_all_conv)

lemma sscanf_d_itoa: "int64 n \<Longrightarrow> sscanf_d (itoa n) = Some n"
proof (cases "n < 0")
  case True
  assume "int64 n"
  moreover have "split_sign (itoa n) = (True, show_nat (nat (- n)))"
    using True by (simp add: itoa_def split_sign_def)
  moreover have "itoa n = CHR ''-'' # show_nat (nat (- n))"
    using True by (simp add: itoa_def)
  ultimately show ?thesis
    using atoi_itoa [of n] list_all_show_nat by (simp add: sscanf_d_def takeWhile_all)
next
  case False
  assume "int64 n"
  moreover have "itoa n = show_nat (nat n)" using False by (simp add: itoa_def)
  ultimately show ?thesis
    using atoi_itoa [of n] list_all_show_nat
    by (simp add: sscanf_d_def takeWhile_all split_sign_show_nat)
qed

lemma sscanf_d_int64: "sscanf_d s = Some n \<Longrightarrow> int64 n"
  by (auto simp: sscanf_d_def Let_def split: prod.splits dest: atoi_int64)

end
