(* ===== verification/Go_FS.thy ===== *)
theory Go_FS
  imports Go_Path Go_Numbers
begin

text \<open>
  The file system as the program sees it through package \<open>os\<close>: a map from cleaned paths to
  files and directories, and an environment that decides, call by call, whether the operating
  system refuses a call or cuts it short. A property proved for every \<open>faults\<close> holds for
  every failure of the disk, of permissions or of quotas at any moment. Symbolic links, the
  umask and other processes are left out.
\<close>

section \<open>State\<close>

datatype node = File string nat | Directory nat

text \<open>
  What the environment does to a call: nothing, refuse it before any effect, or break off a
  write after some bytes (a call that cannot be cut short is refused).
\<close>

datatype fault = NoFault | Refuse | CutShort nat

text \<open>\<open>errors.Is(err, os.ErrNotExist)\<close> holds for the first constructor only.\<close>

datatype os_error = NotExist string | Refused string

record world =
  files :: "string \<Rightarrow> node option"
  tick :: nat
  faults :: "nat \<Rightarrow> fault"
  seed :: nat
  rand :: "nat \<Rightarrow> nat"

definition next_fault :: "world \<Rightarrow> fault" where
  "next_fault w = faults w (tick w)"

definition passed :: "world \<Rightarrow> world" where
  "passed w = w\<lparr>tick := Suc (tick w)\<rparr>"

definition node_at :: "world \<Rightarrow> string \<Rightarrow> node option" where
  "node_at w p = files w (Clean p)"

definition set_node :: "string \<Rightarrow> node option \<Rightarrow> world \<Rightarrow> world" where
  "set_node p n w = w\<lparr>files := (files w)(Clean p := n)\<rparr>"

text \<open>The working directory, the root and the directories above exist.\<close>

definition always_there :: "string \<Rightarrow> bool" where
  "always_there d \<longleftrightarrow> d = ''.'' \<or> d = ''/'' \<or> list_all (\<lambda>e. e = ''..'') (split_char slash d)"

definition is_dir :: "world \<Rightarrow> string \<Rightarrow> bool" where
  "is_dir w d \<longleftrightarrow>
     always_there (Clean d) \<or> (case node_at w d of Some (Directory m) \<Rightarrow> True | _ \<Rightarrow> False)"

section \<open>Calls\<close>

type_synonym 'a os = "world \<Rightarrow> (os_error + 'a) \<times> world"

definition os_Stat :: "string \<Rightarrow> unit os" where
  "os_Stat p w =
     (if next_fault w \<noteq> NoFault then (Inl (Refused p), passed w)
      else if node_at w p = None \<and> \<not> is_dir w p then (Inl (NotExist p), passed w)
      else (Inr (), passed w))"

text \<open>\<open>os.Open\<close> for reading: a directory can be opened, its content cannot be read.\<close>

definition os_Open :: "string \<Rightarrow> unit os" where
  "os_Open = os_Stat"

definition os_ReadFile :: "string \<Rightarrow> string os" where
  "os_ReadFile p w =
     (if next_fault w \<noteq> NoFault then (Inl (Refused p), passed w)
      else case node_at w p of
             Some (File data m) \<Rightarrow> (Inr data, passed w)
           | Some (Directory m) \<Rightarrow> (Inl (Refused p), passed w)
           | None \<Rightarrow> (if is_dir w p then (Inl (Refused p), passed w) else (Inl (NotExist p), passed w)))"

text \<open>The bytes that reach the disk, and whether the write succeeded.\<close>

definition written_part :: "fault \<Rightarrow> string \<Rightarrow> string" where
  "written_part f data = (case f of NoFault \<Rightarrow> data | Refuse \<Rightarrow> [] | CutShort n \<Rightarrow> take n data)"

text \<open>
  \<open>os.WriteFile\<close> truncates an existing file and keeps its permissions; a new file gets \<open>perm\<close>.
\<close>

definition os_WriteFile :: "string \<Rightarrow> string \<Rightarrow> nat \<Rightarrow> unit os" where
  "os_WriteFile p data perm w =
     (let f = next_fault w; w' = passed w; err = Inl (Refused p);
          put = (\<lambda>m. (if f = NoFault then Inr () else err,
                       set_node p (Some (File (written_part f data) m)) w'))
      in if f = Refuse then (err, w')
         else case node_at w p of
                Some (Directory m) \<Rightarrow> (err, w')
              | Some (File old m) \<Rightarrow> put m
              | None \<Rightarrow>
                  if is_dir w p then (err, w')
                  else if is_dir w (Dir p) then put perm
                  else (Inl (NotExist p), w'))"

definition os_Remove :: "string \<Rightarrow> unit os" where
  "os_Remove p w =
     (if next_fault w \<noteq> NoFault then (Inl (Refused p), passed w)
      else case node_at w p of
             None \<Rightarrow> (Inl (NotExist p), passed w)
           | Some n \<Rightarrow> (Inr (), set_node p None (passed w)))"

text \<open>\<open>os.Rename\<close> of a file: the new path is replaced in one step, or nothing happens.\<close>

definition os_Rename :: "string \<Rightarrow> string \<Rightarrow> unit os" where
  "os_Rename old new w =
     (if next_fault w \<noteq> NoFault then (Inl (Refused new), passed w)
      else if is_dir w new \<or> \<not> is_dir w (Dir new) then (Inl (Refused new), passed w)
      else case node_at w old of
             Some (File data m) \<Rightarrow>
               (Inr (), set_node new (Some (File data m)) (set_node old None (passed w)))
           | Some (Directory m) \<Rightarrow> (Inl (Refused old), passed w)
           | None \<Rightarrow> (Inl (NotExist old), passed w))"

text \<open>
  \<open>os.CreateTemp(dir, prefix + "*" + suffix)\<close>: up to 10000 names with a random number are
  tried until one does not exist; the file is created for the caller alone.
\<close>

fun createTempTry :: "nat \<Rightarrow> string \<Rightarrow> string \<Rightarrow> string \<Rightarrow> string os" where
  "createTempTry 0 dir pre suf w = (Inl (Refused dir), w)"
| "createTempTry (Suc k) dir pre suf w =
     (let name = dir @ slash # pre @ show_nat (rand w (seed w)) @ suf;
          w' = passed (w\<lparr>seed := Suc (seed w)\<rparr>)
      in if next_fault w \<noteq> NoFault then (Inl (Refused name), w')
         else if \<not> is_dir w dir then (Inl (NotExist name), w')
         else if node_at w name \<noteq> None then createTempTry k dir pre suf w'
         else (Inr name, set_node name (Some (File [] 0x180)) w'))"

definition os_CreateTemp :: "string \<Rightarrow> string \<Rightarrow> string \<Rightarrow> string os" where
  "os_CreateTemp dir pre suf w = createTempTry 10000 dir pre suf w"

text \<open>Methods of the open temporary file, which is named by its path.\<close>

definition file_Write :: "string \<Rightarrow> string \<Rightarrow> unit os" where
  "file_Write p data w =
     (let f = next_fault w
      in case node_at w p of
           Some (File old m) \<Rightarrow>
             (if f = NoFault then Inr () else Inl (Refused p),
              set_node p (Some (File (old @ written_part f data) m)) (passed w))
         | _ \<Rightarrow> (Inl (Refused p), passed w))"

definition file_Chmod :: "string \<Rightarrow> nat \<Rightarrow> unit os" where
  "file_Chmod p perm w =
     (case node_at w p of
        Some (File data m) \<Rightarrow>
          (if next_fault w \<noteq> NoFault then (Inl (Refused p), passed w)
           else (Inr (), set_node p (Some (File data perm)) (passed w)))
      | _ \<Rightarrow> (Inl (Refused p), passed w))"

definition file_Close :: "string \<Rightarrow> unit os" where
  "file_Close p w =
     (if next_fault w \<noteq> NoFault then (Inl (Refused p), passed w) else (Inr (), passed w))"

text \<open>\<open>os.MkdirAll\<close>: every directory on the way, from the outermost.\<close>

definition path_prefixes :: "string \<Rightarrow> string list" where
  "path_prefixes p =
     (let es = split_char slash (Clean p)
      in filter (\<lambda>d. d \<noteq> []) (map (\<lambda>i. join (take (Suc i) es) ''/'') [0..<length es]))"

fun mkdirEach :: "string list \<Rightarrow> nat \<Rightarrow> unit os" where
  "mkdirEach [] perm w = (Inr (), w)"
| "mkdirEach (d # ds) perm w =
     (if is_dir w d then mkdirEach ds perm w
      else if next_fault w \<noteq> NoFault \<or> node_at w d \<noteq> None then (Inl (Refused d), passed w)
      else mkdirEach ds perm (set_node d (Some (Directory perm)) (passed w)))"

definition os_MkdirAll :: "string \<Rightarrow> nat \<Rightarrow> unit os" where
  "os_MkdirAll p perm w = mkdirEach (path_prefixes p) perm w"

section \<open>Reading and writing the map of files\<close>

lemma world_simps [simp]:
  "node_at (passed w) p = node_at w p"
  "faults (passed w) = faults w" "faults (set_node q n w) = faults w"
  "tick (passed w) = Suc (tick w)" "tick (set_node q n w) = tick w"
  "is_dir (passed w) d = is_dir w d"
  "node_at (w\<lparr>seed := s\<rparr>) p = node_at w p" "is_dir (w\<lparr>seed := s\<rparr>) d = is_dir w d"
  by (simp_all add: node_at_def passed_def set_node_def is_dir_def)

lemma node_at_set_node:
  "node_at (set_node p n w) q = (if Clean q = Clean p then n else node_at w q)"
  by (simp add: node_at_def set_node_def)

lemma node_at_set_same [simp]: "node_at (set_node p n w) p = n"
  by (simp add: node_at_set_node)

lemma node_at_set_other [simp]: "Clean q \<noteq> Clean p \<Longrightarrow> node_at (set_node p n w) q = node_at w q"
  by (simp add: node_at_set_node)

lemma ReadFile_world [simp]: "snd (os_ReadFile p w) = passed w" "snd (os_Stat p w) = passed w"
  by (simp_all add: os_ReadFile_def os_Stat_def split: option.split node.split)

lemma ReadFile_File:
  "next_fault w = NoFault \<Longrightarrow> node_at w p = Some (File data m) \<Longrightarrow> fst (os_ReadFile p w) = Inr data"
  by (simp add: os_ReadFile_def)

text \<open>What a call may change: the files at its own paths.\<close>

lemma WriteFile_frame: "Clean q \<noteq> Clean p \<Longrightarrow> node_at (snd (os_WriteFile p data perm w)) q = node_at w q"
  by (simp add: os_WriteFile_def Let_def split: option.split node.split)

lemma Remove_frame: "Clean q \<noteq> Clean p \<Longrightarrow> node_at (snd (os_Remove p w)) q = node_at w q"
  by (simp add: os_Remove_def split: option.split)

lemma Rename_frame:
  "Clean q \<noteq> Clean old \<Longrightarrow> Clean q \<noteq> Clean new \<Longrightarrow> node_at (snd (os_Rename old new w)) q = node_at w q"
  by (simp add: os_Rename_def split: option.split node.split)

lemma file_Write_frame: "Clean q \<noteq> Clean p \<Longrightarrow> node_at (snd (file_Write p data w)) q = node_at w q"
  by (simp add: file_Write_def Let_def split: option.split node.split)

lemma file_Chmod_frame: "Clean q \<noteq> Clean p \<Longrightarrow> node_at (snd (file_Chmod p perm w)) q = node_at w q"
  by (simp add: file_Chmod_def split: option.split node.split)

lemma file_Close_node [simp]: "node_at (snd (file_Close p w)) q = node_at w q"
  by (simp add: file_Close_def)

lemmas frames = WriteFile_frame Remove_frame Rename_frame file_Write_frame file_Chmod_frame

text \<open>The node a successful write leaves: an existing file keeps its mode.\<close>

definition mode_after :: "world \<Rightarrow> string \<Rightarrow> nat \<Rightarrow> nat" where
  "mode_after w p perm = (case node_at w p of Some (File old m) \<Rightarrow> m | _ \<Rightarrow> perm)"

lemma mode_after_new: "node_at w p = None \<Longrightarrow> mode_after w p perm = perm"
  by (simp add: mode_after_def)

lemma mode_after_passed [simp]: "mode_after (passed w) = mode_after w"
  by (simp add: mode_after_def fun_eq_iff)

lemma WriteFile_Inr:
  assumes "os_WriteFile p data perm w = (Inr u, w')"
  shows "w' = set_node p (Some (File data (mode_after w p perm))) (passed w)"
  using assms
  by (auto simp: os_WriteFile_def mode_after_def Let_def written_part_def
      split: if_splits option.splits node.splits)

text \<open>From now on no call fails.\<close>

definition healthy :: "world \<Rightarrow> bool" where
  "healthy w \<longleftrightarrow> (\<forall>t\<ge>tick w. faults w t = NoFault)"

lemma healthy_next: "healthy w \<Longrightarrow> next_fault w = NoFault"
  by (simp add: healthy_def next_fault_def)

lemma healthy_passed [simp]: "healthy w \<Longrightarrow> healthy (passed w)"
  by (simp add: healthy_def)

lemma healthy_set_node [simp]: "healthy (set_node p n w) = healthy w"
  by (simp add: healthy_def)

text \<open>The name \<open>CreateTemp\<close> returns did not exist, and nothing else changes.\<close>

lemma createTempTry_frame:
  "(\<And>n. Clean q \<noteq> Clean (dir @ slash # pre @ show_nat n @ suf)) \<Longrightarrow>
     node_at (snd (createTempTry k dir pre suf w)) q = node_at w q"
  by (induction k arbitrary: w) (simp_all add: Let_def)

lemma createTempTry_ok:
  "createTempTry k dir pre suf w = (Inr name, w') \<Longrightarrow>
     (\<exists>n. name = dir @ slash # pre @ show_nat n @ suf) \<and> node_at w' name = Some (File [] 0x180) \<and>
     node_at w name = None"
  by (induction k arbitrary: w) (fastforce simp: Let_def split: if_splits)+

lemma mkdirEach_keeps:
  "node_at w q = Some n \<Longrightarrow> node_at (snd (mkdirEach ds perm w)) q = Some n"
proof (induction ds arbitrary: w)
  case (Cons d ds)
  have "node_at (set_node d (Some (Directory perm)) (passed w)) q = Some n" if "node_at w d = None"
    using Cons.prems that by (auto simp: node_at_set_node) (simp add: node_at_def)
  with Cons show ?case by simp
qed simp

lemma MkdirAll_keeps: "node_at w q = Some n \<Longrightarrow> node_at (snd (os_MkdirAll p perm w)) q = Some n"
  by (simp add: os_MkdirAll_def mkdirEach_keeps)

text \<open>An empty disk on which nothing fails.\<close>

definition clean_world :: world where
  "clean_world = \<lparr>files = (\<lambda>_. None), tick = 0, faults = (\<lambda>_. NoFault), seed = 0, rand = (\<lambda>n. n)\<rparr>"

lemma healthy_clean [simp]: "healthy clean_world" "node_at clean_world p = None"
  "next_fault clean_world = NoFault" "faults clean_world = (\<lambda>_. NoFault)" "tick clean_world = 0"
  by (simp_all add: healthy_def clean_world_def node_at_def next_fault_def)

end
