(* ===== verification/System.thy ===== *)
theory System
  imports Go_FS
begin

text \<open>
  Everything a command of ubo acts on: the disk, the \<open>ssh\<close> processes it starts, the terminal it
  reads, the programs on the path. The answers of the \<open>ssh\<close> processes are a function of the
  number of earlier ones, of the arguments and of the standard input, so a property proved for
  every \<open>ssh_reply\<close> holds whatever the other side does. What is printed is left out.
\<close>

text \<open>A finished process: its output, and the error of \<open>exec.Cmd.Run\<close>, if there was one.\<close>

record proc =
  p_stdout :: string
  p_stderr :: string
  p_err :: "string option"

text \<open>
  The terminal delivers lines. When they are used up it delivers what was typed after the last
  newline, together with the end of the input or with a read error.
\<close>

record terminal =
  t_lines :: "string list"
  t_rest :: string
  t_broken :: bool

text \<open>A call of \<open>ssh\<close>: the arguments and the standard input, \<open>None\<close> for the terminal.\<close>

type_synonym ssh_call = "string list \<times> string option"

record system =
  disk :: world
  calls :: "ssh_call list"
  ssh_reply :: "nat \<Rightarrow> ssh_call \<Rightarrow> proc"
  tty :: terminal
  on_path :: "string \<Rightarrow> bool"

section \<open>Running ssh\<close>

definition exec_ssh :: "string list \<Rightarrow> string option \<Rightarrow> system \<Rightarrow> proc \<times> system" where
  "exec_ssh args input s =
     (ssh_reply s (length (calls s)) (args, input), s\<lparr>calls := calls s @ [(args, input)]\<rparr>)"

section \<open>Steps of the disk as steps of the system\<close>

definition onDisk :: "(world, 'e, 'a) step \<Rightarrow> (system, 'e, 'a) step" where
  "onDisk m s = (let (r, w) = m (disk s) in (r, s\<lparr>disk := w\<rparr>))"

lemma onDisk_calls [simp]: "calls (snd (onDisk m s)) = calls s" "ssh_reply (snd (onDisk m s)) = ssh_reply s"
  by (simp_all add: onDisk_def case_prod_beta)

lemma onDisk_eq_Inr [res_simps]:
  "onDisk m s = (Inr a, s') \<longleftrightarrow> (\<exists>w. m (disk s) = (Inr a, w) \<and> s' = s\<lparr>disk := w\<rparr>)"
  by (auto simp: onDisk_def split: prod.splits)

lemma onDisk_eq_Inl [res_simps]:
  "onDisk m s = (Inl e, s') \<longleftrightarrow> (\<exists>w. m (disk s) = (Inl e, w) \<and> s' = s\<lparr>disk := w\<rparr>)"
  by (auto simp: onDisk_def split: prod.splits)

section \<open>Reading a line from the terminal\<close>

datatype read_end = GotLine | GotEOF | GotError

text \<open>\<open>bufio.Reader.ReadString\<close> up to a newline, without the newline, and how it ended.\<close>

definition readLine :: "terminal \<Rightarrow> (string \<times> read_end) \<times> terminal" where
  "readLine t =
     (case t_lines t of
        l # ls \<Rightarrow> ((l, GotLine), t\<lparr>t_lines := ls\<rparr>)
      | [] \<Rightarrow> ((t_rest t, if t_broken t then GotError else GotEOF), t\<lparr>t_rest := []\<rparr>))"

definition ttyLine :: "system \<Rightarrow> (string \<times> read_end) \<times> system" where
  "ttyLine s = (let (r, t) = readLine (tty s) in (r, s\<lparr>tty := t\<rparr>))"

lemma ttyLine_keeps [simp]:
  "disk (snd (ttyLine s)) = disk s" "calls (snd (ttyLine s)) = calls s"
  by (simp_all add: ttyLine_def case_prod_beta)

end
