(* ===== verification/Config_Data.thy ===== *)
theory Config_Data
  imports Go_Numbers
begin

text \<open>
  The configuration of \<open>internal/config/config.go\<close>: one record per Go struct, with the struct's
  name in front of its fields, and \<open>Default\<close>.
\<close>

record ssh_config =
  ssh_User :: string
  ssh_Port :: int
  ssh_Key :: string
  ssh_Sudo :: bool
  ssh_ProxyJump :: string

record wg_config =
  wg_Port :: int
  wg_ServerIP :: string
  wg_ClientIP :: string

record db_config =
  db_Port :: int

record out_config =
  out_Dir :: string

record net_config =
  net_Interface :: string
  net_IP :: string

record luks_config =
  luks_Device :: string

record config =
  Host :: string
  SSH :: ssh_config
  WireGuard :: wg_config
  Dropbear :: db_config
  Output :: out_config
  Network :: net_config
  LUKS :: luks_config

text \<open>Fields the Go literal leaves out have Go's zero value.\<close>

definition Default :: config where
  "Default =
     \<lparr>Host = [],
      SSH = \<lparr>ssh_User = ''root'', ssh_Port = 22, ssh_Key = [], ssh_Sudo = False, ssh_ProxyJump = []\<rparr>,
      WireGuard = \<lparr>wg_Port = 51820, wg_ServerIP = ''10.42.0.1/24'', wg_ClientIP = ''10.42.0.2/32''\<rparr>,
      Dropbear = \<lparr>db_Port = 22\<rparr>,
      Output = \<lparr>out_Dir = []\<rparr>,
      Network = \<lparr>net_Interface = [], net_IP = []\<rparr>,
      LUKS = \<lparr>luks_Device = []\<rparr>\<rparr>"

text \<open>The string fields and the integer fields of a configuration.\<close>

definition config_strings :: "config \<Rightarrow> string list" where
  "config_strings c =
     [Host c, ssh_User (SSH c), ssh_Key (SSH c), ssh_ProxyJump (SSH c), wg_ServerIP (WireGuard c),
      wg_ClientIP (WireGuard c), out_Dir (Output c), net_Interface (Network c),
      net_IP (Network c), luks_Device (LUKS c)]"

definition config_ints :: "config \<Rightarrow> int list" where
  "config_ints c = [ssh_Port (SSH c), wg_Port (WireGuard c), db_Port (Dropbear c)]"

text \<open>
  What a configuration file can hold: string values are written on one line, so they have no
  newline, and the integers are Go's. Every configuration the program loads or edits is
  storable.
\<close>

definition storable :: "config \<Rightarrow> bool" where
  "storable c \<longleftrightarrow> list_all (\<lambda>s. nl \<notin> set s) (config_strings c) \<and> list_all int64 (config_ints c)"

lemmas config_defs = config_strings_def config_ints_def

lemma storable_Default [simp, wf_intros]: "storable Default"
  by (simp add: storable_def config_defs Default_def int64_def)

section \<open>Fields as pairs of a reader and a writer\<close>

text \<open>
  The parser's setters and the editor's prompts reach a field of the configuration through a
  pointer or a pair of functions. The contract is that of a struct field: reading gives what
  was written, writing back what was read changes nothing, and a second write wins.
\<close>

locale config_field =
  fixes get :: "config \<Rightarrow> 'v"
    and put :: "'v \<Rightarrow> config \<Rightarrow> config"
  assumes get_put [simp]: "get (put v c) = v"
    and put_get [simp]: "put (get c) c = c"
    and put_put [simp]: "put v (put w c) = put v c"
begin

lemma put_inject: "put v c = put w c \<longleftrightarrow> v = w"
  by (metis get_put)

lemma put_id_iff: "put v c = c \<longleftrightarrow> get c = v"
  by (metis get_put put_get)

end

text \<open>The writers of the fields of nested structs.\<close>

definition put_ssh_User :: "string \<Rightarrow> config \<Rightarrow> config" where
  "put_ssh_User v c = c\<lparr>SSH := (SSH c)\<lparr>ssh_User := v\<rparr>\<rparr>"
definition put_ssh_Port :: "int \<Rightarrow> config \<Rightarrow> config" where
  "put_ssh_Port v c = c\<lparr>SSH := (SSH c)\<lparr>ssh_Port := v\<rparr>\<rparr>"
definition put_ssh_Key :: "string \<Rightarrow> config \<Rightarrow> config" where
  "put_ssh_Key v c = c\<lparr>SSH := (SSH c)\<lparr>ssh_Key := v\<rparr>\<rparr>"
definition put_ssh_Sudo :: "bool \<Rightarrow> config \<Rightarrow> config" where
  "put_ssh_Sudo v c = c\<lparr>SSH := (SSH c)\<lparr>ssh_Sudo := v\<rparr>\<rparr>"
definition put_ssh_ProxyJump :: "string \<Rightarrow> config \<Rightarrow> config" where
  "put_ssh_ProxyJump v c = c\<lparr>SSH := (SSH c)\<lparr>ssh_ProxyJump := v\<rparr>\<rparr>"
definition put_wg_Port :: "int \<Rightarrow> config \<Rightarrow> config" where
  "put_wg_Port v c = c\<lparr>WireGuard := (WireGuard c)\<lparr>wg_Port := v\<rparr>\<rparr>"
definition put_wg_ServerIP :: "string \<Rightarrow> config \<Rightarrow> config" where
  "put_wg_ServerIP v c = c\<lparr>WireGuard := (WireGuard c)\<lparr>wg_ServerIP := v\<rparr>\<rparr>"
definition put_wg_ClientIP :: "string \<Rightarrow> config \<Rightarrow> config" where
  "put_wg_ClientIP v c = c\<lparr>WireGuard := (WireGuard c)\<lparr>wg_ClientIP := v\<rparr>\<rparr>"
definition put_db_Port :: "int \<Rightarrow> config \<Rightarrow> config" where
  "put_db_Port v c = c\<lparr>Dropbear := (Dropbear c)\<lparr>db_Port := v\<rparr>\<rparr>"
definition put_out_Dir :: "string \<Rightarrow> config \<Rightarrow> config" where
  "put_out_Dir v c = c\<lparr>Output := (Output c)\<lparr>out_Dir := v\<rparr>\<rparr>"
definition put_net_Interface :: "string \<Rightarrow> config \<Rightarrow> config" where
  "put_net_Interface v c = c\<lparr>Network := (Network c)\<lparr>net_Interface := v\<rparr>\<rparr>"
definition put_net_IP :: "string \<Rightarrow> config \<Rightarrow> config" where
  "put_net_IP v c = c\<lparr>Network := (Network c)\<lparr>net_IP := v\<rparr>\<rparr>"
definition put_luks_Device :: "string \<Rightarrow> config \<Rightarrow> config" where
  "put_luks_Device v c = c\<lparr>LUKS := (LUKS c)\<lparr>luks_Device := v\<rparr>\<rparr>"
definition put_Host :: "string \<Rightarrow> config \<Rightarrow> config" where
  "put_Host v c = c\<lparr>Host := v\<rparr>"

lemmas put_defs = put_Host_def put_ssh_User_def put_ssh_Port_def put_ssh_Key_def put_ssh_Sudo_def
  put_ssh_ProxyJump_def put_wg_Port_def put_wg_ServerIP_def put_wg_ClientIP_def put_db_Port_def
  put_out_Dir_def put_net_Interface_def put_net_IP_def put_luks_Device_def

interpretation fld_host: config_field Host put_Host
  by unfold_locales (simp_all add: put_defs)
interpretation fld_user: config_field "\<lambda>c. ssh_User (SSH c)" put_ssh_User
  by unfold_locales (simp_all add: put_defs)
interpretation fld_sshport: config_field "\<lambda>c. ssh_Port (SSH c)" put_ssh_Port
  by unfold_locales (simp_all add: put_defs)
interpretation fld_key: config_field "\<lambda>c. ssh_Key (SSH c)" put_ssh_Key
  by unfold_locales (simp_all add: put_defs)
interpretation fld_sudo: config_field "\<lambda>c. ssh_Sudo (SSH c)" put_ssh_Sudo
  by unfold_locales (simp_all add: put_defs)
interpretation fld_jump: config_field "\<lambda>c. ssh_ProxyJump (SSH c)" put_ssh_ProxyJump
  by unfold_locales (simp_all add: put_defs)
interpretation fld_wgport: config_field "\<lambda>c. wg_Port (WireGuard c)" put_wg_Port
  by unfold_locales (simp_all add: put_defs)
interpretation fld_serverip: config_field "\<lambda>c. wg_ServerIP (WireGuard c)" put_wg_ServerIP
  by unfold_locales (simp_all add: put_defs)
interpretation fld_clientip: config_field "\<lambda>c. wg_ClientIP (WireGuard c)" put_wg_ClientIP
  by unfold_locales (simp_all add: put_defs)
interpretation fld_dbport: config_field "\<lambda>c. db_Port (Dropbear c)" put_db_Port
  by unfold_locales (simp_all add: put_defs)
interpretation fld_dir: config_field "\<lambda>c. out_Dir (Output c)" put_out_Dir
  by unfold_locales (simp_all add: put_defs)
interpretation fld_iface: config_field "\<lambda>c. net_Interface (Network c)" put_net_Interface
  by unfold_locales (simp_all add: put_defs)
interpretation fld_netip: config_field "\<lambda>c. net_IP (Network c)" put_net_IP
  by unfold_locales (simp_all add: put_defs)
interpretation fld_luks: config_field "\<lambda>c. luks_Device (LUKS c)" put_luks_Device
  by unfold_locales (simp_all add: put_defs)

lemma storable_put [wf_intros]:
  "storable c \<Longrightarrow> nl \<notin> set s \<Longrightarrow> storable (put_Host s c)"
  "storable c \<Longrightarrow> nl \<notin> set s \<Longrightarrow> storable (put_ssh_User s c)"
  "storable c \<Longrightarrow> int64 n \<Longrightarrow> storable (put_ssh_Port n c)"
  "storable c \<Longrightarrow> nl \<notin> set s \<Longrightarrow> storable (put_ssh_Key s c)"
  "storable c \<Longrightarrow> storable (put_ssh_Sudo b c)"
  "storable c \<Longrightarrow> nl \<notin> set s \<Longrightarrow> storable (put_ssh_ProxyJump s c)"
  "storable c \<Longrightarrow> int64 n \<Longrightarrow> storable (put_wg_Port n c)"
  "storable c \<Longrightarrow> nl \<notin> set s \<Longrightarrow> storable (put_wg_ServerIP s c)"
  "storable c \<Longrightarrow> nl \<notin> set s \<Longrightarrow> storable (put_wg_ClientIP s c)"
  "storable c \<Longrightarrow> int64 n \<Longrightarrow> storable (put_db_Port n c)"
  "storable c \<Longrightarrow> nl \<notin> set s \<Longrightarrow> storable (put_out_Dir s c)"
  "storable c \<Longrightarrow> nl \<notin> set s \<Longrightarrow> storable (put_net_Interface s c)"
  "storable c \<Longrightarrow> nl \<notin> set s \<Longrightarrow> storable (put_net_IP s c)"
  "storable c \<Longrightarrow> nl \<notin> set s \<Longrightarrow> storable (put_luks_Device s c)"
  by (simp_all add: storable_def config_defs put_defs)

end
