(* ===== verification/Toml.thy ===== *)
theory Toml
  imports Config_Data
begin

text \<open>
  The reader and writer of \<open>internal/config/toml.go\<close>: \<open>parseTOML\<close> reads a file line by line into
  a configuration, \<open>Marshal\<close> writes one. The mutable \<open>*Config\<close> and \<open>*section\<close> of the Go code are
  passed and returned; an error carries what its message names.
\<close>

section \<open>Errors and values\<close>

datatype toml_error =
    MalformedSectionHeader string
  | ExpectedKeyValue string
  | InvalidKey string
  | MissingValue
  | InvalidBoolean string
  | InvalidInteger string
  | UnterminatedString
  | InvalidEscape char
  | UnexpectedTrailing string
  | ExpectsString string string
  | ExpectsInteger string string
  | ExpectsBoolean string string
  | UnknownSection string
  | UnknownKey string string
  | OnLine nat toml_error

text \<open>A decoded scalar: a string, an int, or a bool; the tags say which.\<close>

record tomlValue =
  isInt :: bool
  isBool :: bool
  tv_str :: string
  tv_i :: int
  tv_b :: bool

definition zeroValue :: tomlValue where
  "zeroValue = \<lparr>isInt = False, isBool = False, tv_str = [], tv_i = 0, tv_b = False\<rparr>"

definition strValue :: "string \<Rightarrow> tomlValue" where
  "strValue s = zeroValue\<lparr>tv_str := s\<rparr>"

definition intValue :: "int \<Rightarrow> tomlValue" where
  "intValue n = zeroValue\<lparr>isInt := True, tv_i := n\<rparr>"

definition boolValue :: "bool \<Rightarrow> tomlValue" where
  "boolValue b = zeroValue\<lparr>isBool := True, tv_b := b\<rparr>"

lemmas value_defs = zeroValue_def strValue_def intValue_def boolValue_def

section \<open>Reading values\<close>

text \<open>\<open>unescape\<close>, given the text after the backslash.\<close>

definition unescape :: "string \<Rightarrow> toml_error + char" where
  "unescape s =
     (case s of
        [] \<Rightarrow> Inl UnterminatedString
      | c # _ \<Rightarrow> if c = dq then Inr dq else if c = bslash then Inr bslash else Inl (InvalidEscape c))"

text \<open>
  \<open>parseQuoted\<close>: the loop over the text after the opening quote, with what the builder holds
  so far; the result is the decoded string and the rest after the closing quote.
\<close>

fun parseQuoted :: "string \<Rightarrow> string \<Rightarrow> toml_error + string \<times> string" where
  "parseQuoted b [] = Inl UnterminatedString"
| "parseQuoted b (c # s) =
     (if c = bslash then
        (case unescape s of Inl e \<Rightarrow> Inl e | Inr d \<Rightarrow> parseQuoted (b @ [d]) (drop 1 s))
      else if c = dq then Inr (b, s)
      else parseQuoted (b @ [c]) s)"

definition ensureCommentOnly :: "string \<Rightarrow> toml_error + unit" where
  "ensureCommentOnly rest =
     (let trimmed = trim_space rest
      in if trimmed = [] then Inr ()
         else if has_prefix trimmed ''#'' then Inr ()
         else Inl (UnexpectedTrailing trimmed))"

definition parseStringValue :: "string \<Rightarrow> toml_error + tomlValue" where
  "parseStringValue s =
     bindE (parseQuoted [] (tl s)) (\<lambda>(str, rest).
     bindE (ensureCommentOnly rest) (\<lambda>_. Inr (strValue str)))"

text \<open>The token of a bare value ends at the first \<open>#\<close>.\<close>

definition bareToken :: "string \<Rightarrow> string" where
  "bareToken s = trim_space (case index_byte s CHR ''#'' of None \<Rightarrow> s | Some h \<Rightarrow> take h s)"

definition parseBoolValue :: "string \<Rightarrow> toml_error + tomlValue" where
  "parseBoolValue s =
     (let tok = bareToken s
      in if tok = ''true'' then Inr (boolValue True)
         else if tok = ''false'' then Inr (boolValue False)
         else Inl (InvalidBoolean tok))"

definition parseIntValue :: "string \<Rightarrow> toml_error + tomlValue" where
  "parseIntValue s =
     (let tok = bareToken s
      in if tok = [] then Inl MissingValue
         else (case atoi tok of None \<Rightarrow> Inl (InvalidInteger tok) | Some n \<Rightarrow> Inr (intValue n)))"

definition parseValue :: "string \<Rightarrow> toml_error + tomlValue" where
  "parseValue s =
     (if s = [] then Inl MissingValue
      else if hd s = dq then parseStringValue s
      else if hd s = CHR ''t'' \<or> hd s = CHR ''f'' then parseBoolValue s
      else parseIntValue s)"

section \<open>The schema\<close>

type_synonym field_setter = "config \<Rightarrow> string \<Rightarrow> string \<Rightarrow> tomlValue \<Rightarrow> toml_error + config"

definition strField :: "(string \<Rightarrow> config \<Rightarrow> config) \<Rightarrow> field_setter" where
  "strField put cfg section key v =
     (if isInt v \<or> isBool v then Inl (ExpectsString section key) else Inr (put (tv_str v) cfg))"

definition intField :: "(int \<Rightarrow> config \<Rightarrow> config) \<Rightarrow> field_setter" where
  "intField put cfg section key v =
     (if \<not> isInt v then Inl (ExpectsInteger section key) else Inr (put (tv_i v) cfg))"

definition boolField :: "(bool \<Rightarrow> config \<Rightarrow> config) \<Rightarrow> field_setter" where
  "boolField put cfg section key v =
     (if \<not> isBool v then Inl (ExpectsBoolean section key) else Inr (put (tv_b v) cfg))"

definition schema :: "(string \<times> (string \<times> field_setter) list) list" where
  "schema =
     [([], [(''host'', strField put_Host)]),
      (''ssh'',
        [(''user'', strField put_ssh_User), (''port'', intField put_ssh_Port),
         (''key'', strField put_ssh_Key), (''sudo'', boolField put_ssh_Sudo),
         (''proxy_jump'', strField put_ssh_ProxyJump)]),
      (''wireguard'',
        [(''port'', intField put_wg_Port), (''server_ip'', strField put_wg_ServerIP),
         (''client_ip'', strField put_wg_ClientIP)]),
      (''dropbear'', [(''port'', intField put_db_Port)]),
      (''output'', [(''dir'', strField put_out_Dir)]),
      (''network'',
        [(''interface'', strField put_net_Interface), (''ip'', strField put_net_IP)]),
      (''luks'', [(''device'', strField put_luks_Device)])]"

definition assign :: "config \<Rightarrow> string \<Rightarrow> string \<Rightarrow> tomlValue \<Rightarrow> toml_error + config" where
  "assign cfg section key v =
     (case map_of schema section of
        None \<Rightarrow> Inl (UnknownSection section)
      | Some keys \<Rightarrow>
          (case map_of keys key of
             None \<Rightarrow> Inl (UnknownKey section key)
           | Some setter \<Rightarrow> setter cfg section key v))"

section \<open>Reading lines\<close>

text \<open>\<open>line[1 : len(line)-1]\<close> is what is between the first and the last byte.\<close>

definition parseSectionHeader :: "string \<Rightarrow> toml_error + string" where
  "parseSectionHeader line =
     (if \<not> has_suffix line '']'' then Inl (MalformedSectionHeader line)
      else let name = trim_space (butlast (tl line))
           in if name = [] \<or> contains_any name ''[]'' then Inl (MalformedSectionHeader line)
              else Inr name)"

definition parseKeyValue :: "string \<Rightarrow> toml_error + string \<times> tomlValue" where
  "parseKeyValue line =
     (case index_byte line CHR ''='' of
        None \<Rightarrow> Inl (ExpectedKeyValue line)
      | Some eq \<Rightarrow>
          let key = trim_space (take eq line)
          in if key = [] \<or> contains_any key ([CHR '' '', tab, dq] @ ''[]#'')
             then Inl (InvalidKey (take eq line))
             else bindE (parseValue (trim_space (drop (Suc eq) line))) (\<lambda>val. Inr (key, val)))"

definition parseLine :: "string \<Rightarrow> config \<times> string \<Rightarrow> toml_error + config \<times> string" where
  "parseLine line st =
     (let (cfg, section) = st
      in if line = [] \<or> has_prefix line ''#'' then Inr st
         else if has_prefix line ''['' then
           bindE (parseSectionHeader line) (\<lambda>name. Inr (cfg, name))
         else
           bindE (parseKeyValue line) (\<lambda>(key, val).
           bindE (assign cfg section key val) (\<lambda>cfg'. Inr (cfg', section))))"

text \<open>The loop of \<open>parseTOML\<close> from line \<open>i\<close> (counted from 0) on; errors name line \<open>i + 1\<close>.\<close>

fun parseLines :: "nat \<Rightarrow> string list \<Rightarrow> config \<times> string \<Rightarrow> toml_error + config \<times> string" where
  "parseLines i [] st = Inr st"
| "parseLines i (raw # ls) st =
     bindE (wrapE (OnLine (i + 1)) (parseLine (trim_space raw) st)) (parseLines (i + 1) ls)"

definition parseTOML :: "string \<Rightarrow> config \<Rightarrow> toml_error + config" where
  "parseTOML src cfg =
     bindE (parseLines 0 (split_char nl src) (cfg, [])) (\<lambda>(cfg', _). Inr cfg')"

section \<open>Writing\<close>

definition quote_byte :: "char \<Rightarrow> string" where
  "quote_byte c = (if c = bslash then [bslash, bslash] else if c = dq then [bslash, dq] else [c])"

definition quote :: "string \<Rightarrow> string" where
  "quote s = dq # replace_bytes quote_byte s @ [dq]"

definition show_bool :: "bool \<Rightarrow> string" where
  "show_bool b = (if b then ''true'' else ''false'')"

text \<open>The format \<open>key = value\<close> and the section headers.\<close>

definition kv :: "string \<Rightarrow> string \<Rightarrow> string" where
  "kv k v = k @ '' = '' @ v"

definition header :: "string \<Rightarrow> string" where
  "header k = ''['' @ k @ '']''"

definition Marshal_lines :: "config \<Rightarrow> string list" where
  "Marshal_lines c =
     [kv ''host'' (quote (Host c)),
      [],
      header ''ssh'',
      kv ''user'' (quote (ssh_User (SSH c))),
      kv ''port'' (itoa (ssh_Port (SSH c))),
      kv ''key'' (quote (ssh_Key (SSH c))),
      kv ''sudo'' (show_bool (ssh_Sudo (SSH c))),
      kv ''proxy_jump'' (quote (ssh_ProxyJump (SSH c))),
      [],
      header ''wireguard'',
      kv ''port'' (itoa (wg_Port (WireGuard c))),
      kv ''server_ip'' (quote (wg_ServerIP (WireGuard c))),
      kv ''client_ip'' (quote (wg_ClientIP (WireGuard c))),
      [],
      header ''dropbear'',
      kv ''port'' (itoa (db_Port (Dropbear c))),
      [],
      header ''output'',
      kv ''dir'' (quote (out_Dir (Output c))),
      [],
      header ''network'',
      kv ''interface'' (quote (net_Interface (Network c))),
      kv ''ip'' (quote (net_IP (Network c))),
      [],
      header ''luks'',
      kv ''device'' (quote (luks_Device (LUKS c)))]"

definition Marshal :: "config \<Rightarrow> string" where
  "Marshal c = unlines (Marshal_lines c)"

section \<open>Values: what is written is read back\<close>

lemma parseQuoted_quote:
  "parseQuoted b (replace_bytes quote_byte s @ dq # rest) = Inr (b @ s, rest)"
  by (induction s arbitrary: b) (simp_all add: quote_byte_def unescape_def)

lemma ensureCommentOnly_Nil [simp]: "ensureCommentOnly [] = Inr ()"
  by (simp add: ensureCommentOnly_def)

lemma parseValue_quote [simp]: "parseValue (quote s) = Inr (strValue s)"
  by (simp add: parseValue_def quote_def parseStringValue_def parseQuoted_quote)

lemma bareToken_id: "trimmed s \<Longrightarrow> CHR ''#'' \<notin> set s \<Longrightarrow> bareToken s = s"
  by (simp add: bareToken_def index_byte_def)

lemma itoa_no_hash: "CHR ''#'' \<notin> set (itoa n)"
  using itoa_chars [of "CHR ''#''" n] by auto

lemma hd_itoa: "is_digit (hd (itoa n)) \<or> hd (itoa n) = CHR ''-''"
  using itoa_chars [of "hd (itoa n)" n] by simp

lemma parseValue_itoa [simp]: "int64 n \<Longrightarrow> parseValue (itoa n) = Inr (intValue n)"
  using hd_itoa [of n]
  by (auto simp: parseValue_def parseIntValue_def bareToken_id trimmed_itoa itoa_no_hash Let_def)

lemma parseValue_bool [simp]: "parseValue (show_bool b) = Inr (boolValue b)"
proof -
  have "trimmed ''true''" "trimmed ''false''" by code_simp+
  then show ?thesis
    by (auto simp: show_bool_def parseValue_def parseBoolValue_def bareToken_id)
qed

section \<open>Lines: what is written is read back\<close>

text \<open>A key as the writer writes them: lower-case letters and underscores.\<close>

definition key_char :: "char \<Rightarrow> bool" where
  "key_char c \<longleftrightarrow> c = CHR ''_'' \<or> 97 \<le> (of_char c :: nat) \<and> (of_char c :: nat) \<le> 122"

lemma key_char_plain: "key_char c \<Longrightarrow> plain c"
  by (auto simp: key_char_def plain_def ascii_spaces_def)

lemma key_char_ne:
  "key_char c \<Longrightarrow> c \<noteq> CHR ''='' \<and> c \<noteq> CHR '' '' \<and> c \<noteq> tab \<and> c \<noteq> dq \<and> c \<noteq> CHR ''[''
     \<and> c \<noteq> CHR '']'' \<and> c \<noteq> CHR ''#'' \<and> c \<noteq> nl"
  by (auto simp: key_char_def)

lemma trim_right_blank: "trim_right (s @ '' '') = trim_right s"
  by (rule trim_right_ascii) (simp add: ascii_spaces_def)

lemma trim_left_blank: "trim_left (CHR '' '' # s) = trim_left s"
  by (rule trim_left_ascii) (simp add: ascii_spaces_def)

lemma trim_space_key: "k \<noteq> [] \<Longrightarrow> \<forall>c\<in>set k. key_char c \<Longrightarrow> trim_space (k @ '' '') = k"
proof -
  assume k: "k \<noteq> []" "\<forall>c\<in>set k. key_char c"
  then obtain c r where "k = c # r" "plain c" by (cases k) (auto dest: key_char_plain)
  then have "trim_left (k @ '' '') = k @ '' ''" by (simp add: trim_left_id)
  moreover have "trimmed k" using k key_char_plain by (auto intro: trimmed_all_plain)
  ultimately show ?thesis
    by (simp add: trim_space_def trim_right_blank trimmed_def trim_right_id)
qed

lemma trim_space_blank: "trimmed s \<Longrightarrow> trim_space (CHR '' '' # s) = s"
  by (simp add: trim_space_def trim_left_blank trimmed_def trim_left_id trim_right_id)

lemma parseKeyValue_line:
  assumes "k \<noteq> []" "\<forall>c\<in>set k. key_char c" "trimmed v" "parseValue v = Inr val"
  shows "parseKeyValue (kv k v) = Inr (k, val)"
proof -
  have "CHR ''='' \<notin> set (k @ '' '')" using assms(2) key_char_ne by fastforce
  then have "index_byte ((k @ '' '') @ CHR ''='' # CHR '' '' # v) CHR ''='' = Some (Suc (length k))"
    by (subst index_byte_append) simp_all
  moreover have "\<not> contains_any k ([CHR '' '', tab, dq] @ ''[]#'')"
    using assms(2) key_char_ne by (fastforce simp: contains_any_iff)
  ultimately show ?thesis
    using assms by (simp add: parseKeyValue_def kv_def trim_space_key trim_space_blank)
qed

lemma plain_dq: "plain dq"
  by (simp add: plain_def ascii_spaces_def)

lemma trimmed_quote: "trimmed (quote s)"
  by (rule trimmed_plain) (simp_all add: quote_def plain_dq)

lemma trimmed_show_bool: "trimmed (show_bool b)"
  by (cases b) (simp_all add: show_bool_def, code_simp+)

lemmas written = trimmed_quote trimmed_show_bool trimmed_itoa

lemma parseLine_written:
  assumes "k \<noteq> []" "\<forall>c\<in>set k. key_char c" "trimmed v" "v \<noteq> []" "plain (last v)"
    "parseValue v = Inr val"
  shows "parseLine (trim_space (kv k v)) (cfg, sec)
    = bindE (assign cfg sec k val) (\<lambda>cfg'. Inr (cfg', sec))"
proof -
  obtain c r where k: "k = c # r" "key_char c" using assms(1,2) by (cases k) auto
  have "trimmed (k @ '' = '' @ v)"
    by (rule trimmed_plain) (use assms k in \<open>auto simp: key_char_plain\<close>)
  then have "trim_space (k @ '' = '' @ v) = k @ '' = '' @ v" by simp
  moreover have "\<not> has_prefix (k @ '' = '' @ v) ''#''" "\<not> has_prefix (k @ '' = '' @ v) ''[''"
    using k key_char_ne [of c] by (auto simp: str_simps)
  ultimately show ?thesis
    using parseKeyValue_line [OF assms(1,2,3,6)] k by (simp add: parseLine_def kv_def)
qed

lemma last_quote: "plain (last (quote s))"
  by (simp add: quote_def plain_dq)

lemma quote_not_Nil [simp]: "quote s \<noteq> []"
  by (simp add: quote_def)

lemma last_itoa: "plain (last (itoa n))"
  using itoa_plain [of n] by simp

lemma last_show_bool: "plain (last (show_bool b))"
  by (simp add: show_bool_def plain_def ascii_spaces_def)

lemma show_bool_not_Nil [simp]: "show_bool b \<noteq> []"
  by (simp add: show_bool_def)

text \<open>The three kinds of line the writer produces, and its headers and blank lines.\<close>

lemma parseLine_str:
  "k \<noteq> [] \<Longrightarrow> \<forall>c\<in>set k. key_char c \<Longrightarrow>
   parseLine (trim_space (kv k (quote s))) (cfg, sec)
     = bindE (assign cfg sec k (strValue s)) (\<lambda>cfg'. Inr (cfg', sec))"
  by (rule parseLine_written) (simp_all add: written last_quote)

lemma parseLine_int:
  "k \<noteq> [] \<Longrightarrow> \<forall>c\<in>set k. key_char c \<Longrightarrow> int64 n \<Longrightarrow>
   parseLine (trim_space (kv k (itoa n))) (cfg, sec)
     = bindE (assign cfg sec k (intValue n)) (\<lambda>cfg'. Inr (cfg', sec))"
  by (rule parseLine_written) (simp_all add: written last_itoa)

lemma parseLine_bool:
  "k \<noteq> [] \<Longrightarrow> \<forall>c\<in>set k. key_char c \<Longrightarrow>
   parseLine (trim_space (kv k (show_bool b))) (cfg, sec)
     = bindE (assign cfg sec k (boolValue b)) (\<lambda>cfg'. Inr (cfg', sec))"
  by (rule parseLine_written) (simp_all add: written last_show_bool)

lemma parseLine_header:
  assumes "k \<noteq> []" "\<forall>c\<in>set k. key_char c"
  shows "parseLine (trim_space (header k)) (cfg, sec) = Inr (cfg, k)"
proof -
  have "trimmed (''['' @ k @ '']'')"
    by (rule trimmed_plain) (simp_all add: plain_def ascii_spaces_def)
  moreover have "trimmed k" using assms(2) key_char_plain by (auto intro: trimmed_all_plain)
  moreover have "\<not> contains_any k ''[]''"
    using assms(2) key_char_ne by (fastforce simp: contains_any_iff)
  moreover have "has_suffix (CHR ''['' # k @ '']'') '']''"
    using has_suffix_append [of "CHR ''['' # k" "'']''"] by simp
  ultimately show ?thesis
    using assms(1) by (simp add: parseLine_def parseSectionHeader_def header_def str_simps)
qed

lemma parseLine_blank [simp]: "parseLine [] st = Inr st"
  by (cases st) (simp add: parseLine_def)

section \<open>Files: what is written is read back\<close>

lemma keys_ok:
  "list_all (\<lambda>k. k \<noteq> [] \<and> list_all key_char k)
     [''host'', ''ssh'', ''user'', ''port'', ''key'', ''sudo'', ''proxy_jump'', ''wireguard'',
      ''server_ip'', ''client_ip'', ''dropbear'', ''output'', ''dir'', ''network'', ''interface'',
      ''ip'', ''luks'', ''device'']"
  by code_simp

lemma set_quote_byte: "set (replace_bytes quote_byte s) \<subseteq> insert dq (insert bslash (set s))"
  by (induction s) (auto simp: quote_byte_def)

lemma nl_quote: "nl \<notin> set s \<Longrightarrow> nl \<notin> set (quote s)"
  using set_quote_byte [of s] by (auto simp: quote_def)

lemma nl_itoa: "nl \<notin> set (itoa n)"
  using itoa_chars [of nl n] by auto

lemma nl_show_bool: "nl \<notin> set (show_bool b)"
  by (simp add: show_bool_def)

lemmas no_newline = nl_quote nl_itoa nl_show_bool

lemma nl_Marshal_lines: "storable c \<Longrightarrow> \<forall>l\<in>set (Marshal_lines c). nl \<notin> set l"
  by (simp add: Marshal_lines_def storable_def config_defs kv_def header_def no_newline)

lemmas parseLine_lines =
  parseLine_str parseLine_int parseLine_bool parseLine_header

lemma parseLines_Marshal:
  assumes "storable c"
  shows "parseLines i (Marshal_lines c @ [[]]) (d, []) = Inr (c, ''luks'')"
proof -
  have "int64 (ssh_Port (SSH c))" "int64 (wg_Port (WireGuard c))" "int64 (db_Port (Dropbear c))"
    using assms by (simp_all add: storable_def config_defs)
  then show ?thesis
    using keys_ok
    by (simp add: Marshal_lines_def parseLine_lines list_all_iff assign_def schema_def strField_def
        intField_def boolField_def value_defs put_defs)
qed

text \<open>The round trip, whatever the configuration the text is read onto.\<close>

lemma parseTOML_Marshal: "storable c \<Longrightarrow> parseTOML (Marshal c) d = Inr c"
  by (simp add: parseTOML_def Marshal_def split_unlines nl_Marshal_lines parseLines_Marshal)

section \<open>What a file can put into a configuration\<close>

lemma unescape_in: "unescape s = Inr d \<Longrightarrow> d \<in> set s"
  by (cases s) (auto simp: unescape_def split: if_splits)

lemma parseQuoted_set: "parseQuoted b s = Inr (str, rest) \<Longrightarrow> set str \<subseteq> set b \<union> set s"
proof (induction b s rule: parseQuoted.induct)
  case (2 b c s)
  show ?case
  proof (cases "c = bslash")
    case True
    with 2 show ?thesis
      by (fastforce split: sum.splits dest: unescape_in in_set_dropD)
  next
    case False
    with 2 show ?thesis by (fastforce split: if_splits)
  qed
qed simp

lemma zero_ok: "tv_str zeroValue = []" "int64 (tv_i zeroValue)"
  by (simp_all add: zeroValue_def int64_def)

lemma parseStringValue_ok:
  "parseStringValue s = Inr v \<Longrightarrow> set (tv_str v) \<subseteq> set (tl s) \<and> int64 (tv_i v)"
  using parseQuoted_set [of "[]" "tl s"] zero_ok
  by (auto simp: parseStringValue_def strValue_def res_simps)

lemma parseValue_ok:
  "parseValue s = Inr v \<Longrightarrow> set (tv_str v) \<subseteq> set s \<and> int64 (tv_i v)"
  using zero_ok parseStringValue_ok [of s v]
  by (cases s)
     (auto simp: parseValue_def parseBoolValue_def parseIntValue_def Let_def intValue_def
        boolValue_def split: if_splits option.splits dest: atoi_int64)

lemma parseKeyValue_ok:
  assumes "parseKeyValue line = Inr (key, v)"
  shows "set (tv_str v) \<subseteq> set line \<and> int64 (tv_i v)"
proof -
  from assms obtain eq where "parseValue (trim_space (drop (Suc eq) line)) = Inr v"
    by (auto simp: parseKeyValue_def Let_def res_simps split: option.splits if_splits)
  then show ?thesis
    using parseValue_ok set_trim_space set_drop_subset by fast
qed

lemma assign_storable:
  assumes "storable cfg" "nl \<notin> set (tv_str v)" "int64 (tv_i v)" "assign cfg sec key v = Inr cfg'"
  shows "storable cfg'"
  using assms
  by (auto simp: assign_def schema_def strField_def intField_def boolField_def storable_put
      split: option.splits if_splits)

lemma parseLine_storable:
  assumes "storable cfg" "nl \<notin> set line" "parseLine line (cfg, sec) = Inr (cfg', sec')"
  shows "storable cfg'"
  using assms parseKeyValue_ok
  by (fastforce simp: parseLine_def res_simps split: if_splits dest: assign_storable)

lemma parseLines_storable:
  "parseLines i ls (cfg, sec) = Inr (cfg', sec') \<Longrightarrow> storable cfg \<Longrightarrow>
     \<forall>l\<in>set ls. nl \<notin> set l \<Longrightarrow> storable cfg'"
proof (induction ls arbitrary: i cfg sec)
  case (Cons raw ls)
  then obtain cfg1 sec1 where one: "parseLine (trim_space raw) (cfg, sec) = Inr (cfg1, sec1)"
    and rest: "parseLines (i + 1) ls (cfg1, sec1) = Inr (cfg', sec')"
    by (auto simp: res_simps)
  have "nl \<notin> set (trim_space raw)" using Cons.prems(3) set_trim_space by fastforce
  with one Cons.prems(2) have "storable cfg1" using parseLine_storable by blast
  with rest Cons show ?case by simp
qed simp

lemma parseTOML_storable: "storable d \<Longrightarrow> parseTOML src d = Inr c \<Longrightarrow> storable c"
  using split_char_elems
  by (fastforce simp: parseTOML_def res_simps elim: parseLines_storable)

section \<open>The interface a configuration store relies on\<close>

text \<open>
  \<open>Load\<close>, \<open>Save\<close> and the editor need of the format that every storable value survives a write
  and a read, and that reading onto a storable value gives a storable one.
\<close>

locale config_codec =
  fixes enc :: "'c \<Rightarrow> string"
    and dec :: "string \<Rightarrow> 'c \<Rightarrow> 'e + 'c"
    and ok :: "'c \<Rightarrow> bool"
  assumes dec_enc: "ok c \<Longrightarrow> dec (enc c) d = Inr c"
    and dec_ok: "ok d \<Longrightarrow> dec s d = Inr c \<Longrightarrow> ok c"
begin

lemma reload: "ok d \<Longrightarrow> dec s d = Inr c \<Longrightarrow> dec (enc c) d' = Inr c"
  by (blast intro: dec_enc dec_ok)

lemma enc_inject: "ok c \<Longrightarrow> ok c' \<Longrightarrow> enc c = enc c' \<longleftrightarrow> c = c'"
  by (metis dec_enc sum.inject(2))

lemma survives_iff: "ok d \<Longrightarrow> dec (enc c) d = Inr c \<longleftrightarrow> ok c"
  by (blast intro: dec_enc dec_ok)

end

interpretation toml: config_codec Marshal parseTOML storable
  by unfold_locales (rule parseTOML_Marshal, assumption, rule parseTOML_storable)

section \<open>Where an error is reported\<close>

lemma parseLines_append:
  "parseLines i (ls @ ms) st = bindE (parseLines i ls st) (parseLines (i + length ls) ms)"
proof (induction ls arbitrary: i st)
  case (Cons l ls)
  then show ?case by (cases "parseLine (trim_space l) st") simp_all
qed simp

lemma parseLines_error:
  "parseLines i ls st = Inl err \<Longrightarrow>
     \<exists>k st' e. k < length ls \<and> parseLines i (take k ls) st = Inr st' \<and>
       parseLine (trim_space (ls ! k)) st' = Inl e \<and> err = OnLine (i + k + 1) e"
proof (induction ls arbitrary: i st)
  case (Cons raw ls)
  show ?case
  proof (cases "parseLine (trim_space raw) st")
    case (Inl e)
    with Cons.prems show ?thesis by (intro exI [of _ 0]) auto
  next
    case (Inr st1)
    with Cons.prems have "parseLines (i + 1) ls st1 = Inl err" by simp
    then obtain k st' e where k: "k < length ls" "parseLines (i + 1) (take k ls) st1 = Inr st'"
      "parseLine (trim_space (ls ! k)) st' = Inl e" "err = OnLine (i + 1 + k + 1) e"
      using Cons.IH by blast
    with Inr show ?thesis by (intro exI [of _ "Suc k"] exI [of _ st'] exI [of _ e]) auto
  qed
qed simp

lemma parseLines_error_at:
  assumes "k < length ls" "parseLines i (take k ls) st = Inr st'" "parseLine (trim_space (ls ! k)) st' = Inl e"
  shows "parseLines i ls st = Inl (OnLine (i + k + 1) e)"
proof -
  have "parseLines i (take k ls @ ls ! k # drop (Suc k) ls) st = Inl (OnLine (i + k + 1) e)"
    unfolding parseLines_append using assms by (simp add: min_def)
  then show ?thesis using id_take_nth_drop [OF assms(1)] by simp
qed

lemma parseTOML_Inl: "parseTOML src cfg = Inl e \<longleftrightarrow> parseLines 0 (split_char nl src) (cfg, []) = Inl e"
  by (auto simp: parseTOML_def res_simps)

section \<open>Properties\<close>

text \<open>C6: A configuration survives \<open>Marshal\<close> followed by \<open>parseTOML\<close> exactly when it is
  storable: no string field holds a newline and the integers are Go integers. The values that
  every field is given on the way are those of the configuration, quoting and escapes included.\<close>

theorem Marshal_round_trip: "parseTOML (Marshal c) Default = Inr c \<longleftrightarrow> storable c"
  by (rule toml.survives_iff) (rule storable_Default)

text \<open>C31: A parse error names the first line that is not accepted, counted from 1, and the
  reason that line alone gives after all lines before it were accepted; there is an error only
  if there is such a line.\<close>

theorem parseTOML_error_line:
  "parseTOML src cfg = Inl err \<longleftrightarrow>
     (\<exists>k st e. k < length (split_char nl src) \<and>
        parseLines 0 (take k (split_char nl src)) (cfg, []) = Inr st \<and>
        parseLine (trim_space (split_char nl src ! k)) st = Inl e \<and> err = OnLine (k + 1) e)"
  unfolding parseTOML_Inl
  using parseLines_error [of 0 "split_char nl src" "(cfg, [])" err]
    parseLines_error_at [of _ "split_char nl src" 0 "(cfg, [])"] by auto

text \<open>C32: Whatever the text, what it puts on top of a storable configuration is storable, so a
  configuration that was read can be written and read again without loss.\<close>

theorem parseTOML_reload:
  "storable d \<Longrightarrow> parseTOML src d = Inr c \<Longrightarrow> storable c \<and> parseTOML (Marshal c) d' = Inr c"
  using toml.reload toml.dec_ok by blast

lemma parseTOML_reload_witness:
  "storable (Default\<lparr>Host := ''h''\<rparr>) \<and> parseTOML (Marshal (Default\<lparr>Host := ''h''\<rparr>)) Default = Inr (Default\<lparr>Host := ''h''\<rparr>)"
proof -
  have "storable (put_Host ''h'' Default)" by (rule storable_put) simp_all
  then have "parseTOML (Marshal (put_Host ''h'' Default)) Default = Inr (put_Host ''h'' Default)"
    by (rule parseTOML_Marshal)
  from parseTOML_reload [OF storable_Default this] show ?thesis by (simp add: put_defs)
qed

end
