(* ===== verification/Go_Net.thy ===== *)
theory Go_Net
  imports Go_Numbers "HOL-Library.Word"
begin

unbundle bit_operations_syntax

text \<open>
  The part of Go's packages \<open>net\<close> and \<open>net/netip\<close> ubo relies on: parsing addresses and CIDR
  prefixes, masks, membership in a network and printing. An IP is a byte slice, as in Go: four
  bytes, or sixteen with IPv4 embedded below the prefix \<open>::ffff:0:0/96\<close>; \<open>None\<close> stands for
  Go's \<open>nil\<close> and for a parse error.
\<close>

type_synonym byte = "8 word"
type_synonym IP = "byte list"

section \<open>Addresses\<close>

text \<open>\<open>netip.Addr\<close>: four bytes, or sixteen bytes and a zone (empty for none).\<close>

datatype Addr = Addr4 IP | Addr6 IP string

definition v4InV6Prefix :: IP where
  "v4InV6Prefix = replicate 10 0 @ [0xff, 0xff]"

fun As16 :: "Addr \<Rightarrow> IP" where
  "As16 (Addr4 b) = v4InV6Prefix @ b"
| "As16 (Addr6 b z) = b"

fun Zone :: "Addr \<Rightarrow> string" where
  "Zone (Addr4 b) = []"
| "Zone (Addr6 b z) = z"

fun BitLen :: "Addr \<Rightarrow> nat" where
  "BitLen (Addr4 b) = 32"
| "BitLen (Addr6 b z) = 128"

definition To4 :: "IP \<Rightarrow> IP option" where
  "To4 ip =
     (if length ip = 4 then Some ip
      else if length ip = 16 \<and> take 12 ip = v4InV6Prefix then Some (drop 12 ip)
      else None)"

section \<open>Parsing IPv4\<close>

text \<open>
  The loop of \<open>parseIPv4Fields\<close>: whether the next byte opens a field (the first byte, or the
  byte after a dot), the value and the length of the current field, the fields so far.
\<close>

fun ipv4Loop :: "bool \<Rightarrow> nat \<Rightarrow> nat \<Rightarrow> IP \<Rightarrow> string \<Rightarrow> IP option" where
  "ipv4Loop fresh val digLen fs [] =
     (if length fs < 3 then None else Some (fs @ [of_nat val]))"
| "ipv4Loop fresh val digLen fs (c # s) =
     (if is_digit c then
        (if digLen = 1 \<and> val = 0 then None
         else let val' = val * 10 + digit_val c
              in if val' > 255 then None else ipv4Loop False val' (digLen + 1) fs s)
      else if c = CHR ''.'' then
        (if fresh \<or> s = [] then None
         else if length fs = 3 then None
         else ipv4Loop True 0 0 (fs @ [of_nat val]) s)
      else None)"

definition parseIPv4Fields :: "string \<Rightarrow> IP option" where
  "parseIPv4Fields s = ipv4Loop True 0 0 [] s"

section \<open>Parsing IPv6\<close>

definition hex_val :: "char \<Rightarrow> nat option" where
  "hex_val c =
     (let n = of_char c :: nat
      in if 48 \<le> n \<and> n \<le> 57 then Some (n - 48)
         else if 97 \<le> n \<and> n \<le> 102 then Some (n - 87)
         else if 65 \<le> n \<and> n \<le> 70 then Some (n - 55)
         else None)"

text \<open>The digits of one group: how many, their value and the rest; \<open>None\<close> for too many.\<close>

fun hexGroup :: "nat \<Rightarrow> nat \<Rightarrow> string \<Rightarrow> (nat \<times> nat \<times> string) option" where
  "hexGroup off acc [] = Some (off, acc, [])"
| "hexGroup off acc (c # s) =
     (case hex_val c of
        None \<Rightarrow> Some (off, acc, c # s)
      | Some v \<Rightarrow>
          if off > 3 then None
          else if 16 * acc + v > 65535 then None
          else hexGroup (off + 1) (16 * acc + v) s)"

text \<open>
  The loop of \<open>parseIPv6\<close>: the bytes read so far (their number is Go's \<open>i\<close>), the place of the
  ellipsis, the text left. Every round adds two bytes, so it ends.
\<close>

function ipv6Loop :: "IP \<Rightarrow> nat option \<Rightarrow> string \<Rightarrow> (IP \<times> nat option \<times> string) option" where
  "ipv6Loop ip ellipsis s =
     (if 16 \<le> length ip then Some (ip, ellipsis, s)
      else case hexGroup 0 0 s of
        None \<Rightarrow> None
      | Some (off, acc, rest) \<Rightarrow>
          if off = 0 then None
          else if rest \<noteq> [] \<and> hd rest = CHR ''.'' then
            (if ellipsis = None \<and> length ip \<noteq> 12 then None
             else if length ip + 4 > 16 then None
             else (case parseIPv4Fields s of
                     None \<Rightarrow> None
                   | Some fs \<Rightarrow> Some (ip @ fs, ellipsis, [])))
          else
            (let ip' = ip @ [of_nat (acc div 256), of_nat (acc mod 256)]
             in case rest of
                  [] \<Rightarrow> Some (ip', ellipsis, [])
                | c # r \<Rightarrow>
                    if c \<noteq> CHR '':'' then None
                    else if r = [] then None
                    else if hd r = CHR '':'' then
                      (if ellipsis \<noteq> None then None
                       else if tl r = [] then Some (ip', Some (length ip'), [])
                       else ipv6Loop ip' (Some (length ip')) (tl r))
                    else ipv6Loop ip' ellipsis r))"
  by pat_completeness auto
termination
  by (relation "measure (\<lambda>(ip, e, s). 16 - length ip)") auto

declare ipv6Loop.simps [simp del]

text \<open>Filling the ellipsis with zeros.\<close>

definition expandEllipsis :: "IP \<times> nat option \<times> string \<Rightarrow> IP option" where
  "expandEllipsis r =
     (let (ip, ellipsis, s) = r
      in if s \<noteq> [] then None
         else if length ip < 16 then
           (case ellipsis of
              None \<Rightarrow> None
            | Some e \<Rightarrow> Some (take e ip @ replicate (16 - length ip) 0 @ drop e ip))
         else if ellipsis \<noteq> None then None
         else Some ip)"

definition parseIPv6 :: "string \<Rightarrow> Addr option" where
  "parseIPv6 input =
     (case cut_byte input CHR ''%'' of
        Some (_, []) \<Rightarrow> None
      | found \<Rightarrow>
          let (s, zone) = (case found of None \<Rightarrow> (input, []) | Some p \<Rightarrow> p);
              lead = has_prefix s ''::'';
              s' = (if lead then drop 2 s else s)
          in if lead \<and> s' = [] then Some (Addr6 (replicate 16 0) zone)
             else (case ipv6Loop [] (if lead then Some 0 else None) s' of
                     None \<Rightarrow> None
                   | Some r \<Rightarrow> map_option (\<lambda>ip. Addr6 ip zone) (expandEllipsis r)))"

definition ParseAddr :: "string \<Rightarrow> Addr option" where
  "ParseAddr s =
     (case find (\<lambda>c. c = CHR ''.'' \<or> c = CHR '':'' \<or> c = CHR ''%'') s of
        None \<Rightarrow> None
      | Some c \<Rightarrow>
          if c = CHR ''.'' then map_option Addr4 (parseIPv4Fields s)
          else if c = CHR '':'' then parseIPv6 s
          else None)"

text \<open>\<open>net.ParseIP\<close>.\<close>

definition ParseIP :: "string \<Rightarrow> IP option" where
  "ParseIP s =
     (case ParseAddr s of
        None \<Rightarrow> None
      | Some a \<Rightarrow> if Zone a \<noteq> [] then None else Some (As16 a))"

section \<open>Masks, networks and CIDR notation\<close>

text \<open>\<open>dtoi\<close>: the decimal number a string starts with and the text after it.\<close>

definition dtoi :: "string \<Rightarrow> (nat \<times> string) option" where
  "dtoi s =
     (let ds = takeWhile is_digit s
      in if ds = [] \<or> digits_val ds \<ge> 0xFFFFFF then None
         else Some (digits_val ds, drop (length ds) s))"

text \<open>The bound of \<open>dtoi\<close> as an integer, which evaluates faster than a natural number.\<close>

lemma dtoi_code [code]:
  "dtoi s =
     (let ds = takeWhile is_digit s
      in if ds = [] \<or> int (digits_val ds) \<ge> 0xFFFFFF then None
         else Some (digits_val ds, drop (length ds) s))"
proof -
  have "int n \<ge> 0xFFFFFF \<longleftrightarrow> n \<ge> 0xFFFFFF" for n by linarith
  then show ?thesis by (simp add: dtoi_def)
qed

text \<open>The bytes of \<open>net.CIDRMask\<close>: the loop over the mask with \<open>n\<close> ones still to place.\<close>

fun maskBytes :: "nat \<Rightarrow> nat \<Rightarrow> IP" where
  "maskBytes 0 n = []"
| "maskBytes (Suc l) n =
     (if n \<ge> 8 then 0xff # maskBytes l (n - 8)
      else (NOT (drop_bit n 0xff)) # maskBytes l 0)"

definition CIDRMask :: "int \<Rightarrow> nat \<Rightarrow> IP option" where
  "CIDRMask ones bits =
     (if bits \<noteq> 32 \<and> bits \<noteq> 128 then None
      else if ones < 0 \<or> ones > int bits then None
      else Some (maskBytes (bits div 8) (nat ones)))"

text \<open>\<open>simpleMaskLength\<close>, with \<open>None\<close> for -1; \<open>leadingOnes\<close> counts a byte's leading ones.\<close>

definition leadingOnes :: "byte \<Rightarrow> nat" where
  "leadingOnes v = length (takeWhile (\<lambda>k. bit v k) [7, 6, 5, 4, 3, 2, 1, 0])"

fun simpleMaskLength :: "IP \<Rightarrow> nat option" where
  "simpleMaskLength [] = Some 0"
| "simpleMaskLength (v # m) =
     (if v = 0xff then map_option (\<lambda>n. n + 8) (simpleMaskLength m)
      else if push_bit (leadingOnes v) v \<noteq> 0 then None
      else if list_all (\<lambda>b. b = 0) m then Some (leadingOnes v)
      else None)"

definition Mask_Size :: "IP \<Rightarrow> nat" where
  "Mask_Size m = (case simpleMaskLength m of None \<Rightarrow> 0 | Some n \<Rightarrow> n)"

definition and_bytes :: "IP \<Rightarrow> IP \<Rightarrow> IP" where
  "and_bytes xs ys = map2 (\<lambda>x y. x AND y) xs ys"

definition IP_Mask :: "IP \<Rightarrow> IP \<Rightarrow> IP option" where
  "IP_Mask ip msk =
     (let msk' = (if length msk = 16 \<and> length ip = 4 \<and> list_all (\<lambda>b. b = 0xff) (take 12 msk)
                   then drop 12 msk else msk);
          ip' = (if length msk' = 4 \<and> length ip = 16 \<and> take 12 ip = v4InV6Prefix
                 then drop 12 ip else ip)
      in if length ip' \<noteq> length msk' then None else Some (and_bytes ip' msk'))"

record IPNet =
  net_ip :: "IP option"
  net_mask :: IP

definition networkNumberAndMask :: "IPNet \<Rightarrow> (IP \<times> IP) option" where
  "networkNumberAndMask n =
     (case net_ip n of
        None \<Rightarrow> None
      | Some nip \<Rightarrow>
          (case (case To4 nip of Some x \<Rightarrow> Some x
                 | None \<Rightarrow> if length nip = 16 then Some nip else None) of
             None \<Rightarrow> None
           | Some ip \<Rightarrow>
               if length (net_mask n) = 4 then
                 (if length ip \<noteq> 4 then None else Some (ip, net_mask n))
               else if length (net_mask n) = 16 then
                 Some (ip, if length ip = 4 then drop 12 (net_mask n) else net_mask n)
               else None))"

text \<open>
  \<open>IPNet.Contains\<close>. For a network without a number Go compares the length of the address
  with that of \<open>nil\<close>, so only an empty address would be contained.
\<close>

definition IPNet_Contains :: "IPNet \<Rightarrow> IP \<Rightarrow> bool" where
  "IPNet_Contains n ip =
     (let x = (case To4 ip of Some b \<Rightarrow> b | None \<Rightarrow> ip)
      in case networkNumberAndMask n of
           None \<Rightarrow> x = []
         | Some (nn, m) \<Rightarrow> length x = length nn \<and> and_bytes nn m = and_bytes x m)"

definition IP_Equal :: "IP \<Rightarrow> IP \<Rightarrow> bool" where
  "IP_Equal ip x =
     (if length ip = length x then ip = x
      else if length ip = 4 \<and> length x = 16 then take 12 x = v4InV6Prefix \<and> ip = drop 12 x
      else if length ip = 16 \<and> length x = 4 then take 12 ip = v4InV6Prefix \<and> drop 12 ip = x
      else False)"

definition ParseCIDR :: "string \<Rightarrow> (IP \<times> IPNet) option" where
  "ParseCIDR s =
     (case cut_byte s CHR ''/'' of
        None \<Rightarrow> None
      | Some (addr, msk) \<Rightarrow>
          (case ParseAddr addr of
             None \<Rightarrow> None
           | Some a \<Rightarrow>
               if Zone a \<noteq> [] then None
               else (case dtoi msk of
                       None \<Rightarrow> None
                     | Some (n, rest) \<Rightarrow>
                         if rest \<noteq> [] \<or> n > BitLen a then None
                         else (case CIDRMask (int n) (BitLen a) of
                                 None \<Rightarrow> None
                               | Some m \<Rightarrow>
                                   Some (As16 a, \<lparr>net_ip = IP_Mask (As16 a) m, net_mask = m\<rparr>)))))"

section \<open>Printing\<close>

definition dotted :: "IP \<Rightarrow> string" where
  "dotted b = join (map (\<lambda>x. show_nat (unat x)) b) ''.''"

fun groups :: "IP \<Rightarrow> nat list" where
  "groups (a # b # r) = (unat a * 256 + unat b) # groups r"
| "groups _ = []"

text \<open>The first longest run of at least two zero groups, as its start and end.\<close>

definition zeroRun :: "nat list \<Rightarrow> nat \<Rightarrow> nat" where
  "zeroRun gs i = length (takeWhile (\<lambda>g. g = 0) (drop i gs))"

definition bestRun :: "nat list \<Rightarrow> nat \<times> nat" where
  "bestRun gs =
     foldl (\<lambda>(s, e) i. let l = zeroRun gs i in if l \<ge> 2 \<and> l > e - s then (i, i + l) else (s, e))
       (255, 255) [0..<8]"

definition hexes :: "nat list \<Rightarrow> string" where
  "hexes gs = join (map (show_base 16) gs) '':''"

definition show6 :: "IP \<Rightarrow> string" where
  "show6 b =
     (let gs = groups b; (s, e) = bestRun gs
      in if s = 255 then hexes gs
         else hexes (take s gs) @ ''::'' @ hexes (drop e gs))"

definition IP_String :: "IP \<Rightarrow> string" where
  "IP_String ip = (case To4 ip of Some b \<Rightarrow> dotted b | None \<Rightarrow> show6 ip)"

section \<open>Lengths\<close>

lemma ipv4Loop_length: "ipv4Loop op v d fs s = Some b \<Longrightarrow> length fs \<le> 3 \<Longrightarrow> length b = 4"
  by (induction op v d fs s rule: ipv4Loop.induct) (auto simp: Let_def split: if_splits)

lemma parseIPv4Fields_length: "parseIPv4Fields s = Some b \<Longrightarrow> length b = 4"
  unfolding parseIPv4Fields_def by (erule ipv4Loop_length) simp

text \<open>The ellipsis lies within the bytes read so far.\<close>

definition ellOK :: "nat option \<Rightarrow> nat \<Rightarrow> bool" where
  "ellOK e n = (case e of None \<Rightarrow> True | Some k \<Rightarrow> k \<le> n)"

lemma ellOK_simps [simp]: "ellOK None n" "ellOK (Some k) n \<longleftrightarrow> k \<le> n"
  by (simp_all add: ellOK_def)

lemma ellOK_mono: "ellOK e n \<Longrightarrow> n \<le> m \<Longrightarrow> ellOK e m"
  by (auto simp: ellOK_def split: option.splits)

lemma ipv6Loop_length:
  "ipv6Loop ip e s = Some (ip', e', s') \<Longrightarrow> length ip \<le> 16 \<Longrightarrow> even (length ip) \<Longrightarrow>
     ellOK e (length ip) \<Longrightarrow> length ip' \<le> 16 \<and> ellOK e' (length ip')"
proof (induction ip e s rule: ipv6Loop.induct)
  case (1 ip e s)
  show ?case
  proof (cases "16 \<le> length ip")
    case True
    with "1.prems" show ?thesis by (simp add: ipv6Loop.simps)
  next
    case False
    with "1.prems"(3) have room: "length ip \<le> 14" by presburger
    have more: "ellOK e (Suc (Suc (length ip)))" "ellOK e (length ip + 4)"
      using "1.prems"(4) by (auto elim: ellOK_mono)
    from "1.prems"(1) False obtain off acc rest where h: "hexGroup 0 0 s = Some (off, acc, rest)" "off \<noteq> 0"
      by (subst (asm) ipv6Loop.simps) (auto split: option.splits if_splits)
    show ?thesis
      using "1.prems" room more False h "1.IH" [OF False h(1) refl refl h(2)]
      by (subst (asm) ipv6Loop.simps)
         (auto simp: Let_def dest: parseIPv4Fields_length split: if_splits option.splits list.splits)
  qed
qed

lemma expandEllipsis_length:
  "expandEllipsis (ip, e, s) = Some r \<Longrightarrow> length ip \<le> 16 \<Longrightarrow> ellOK e (length ip) \<Longrightarrow> length r = 16"
  by (auto simp: expandEllipsis_def split: if_splits option.splits)

lemma parseIPv6_length: "parseIPv6 s = Some a \<Longrightarrow> \<exists>ip z. a = Addr6 ip z \<and> length ip = 16"
  by (fastforce simp: parseIPv6_def Let_def split: option.splits prod.splits list.splits if_splits
      dest: ipv6Loop_length expandEllipsis_length)

lemma ParseAddr_shape:
  "ParseAddr s = Some a \<Longrightarrow>
     (\<exists>b. a = Addr4 b \<and> length b = 4) \<or> (\<exists>b z. a = Addr6 b z \<and> length b = 16)"
  by (auto simp: ParseAddr_def split: option.splits if_splits
      dest: parseIPv4Fields_length parseIPv6_length)

lemma length_v4InV6Prefix [simp]: "length v4InV6Prefix = 12"
  by (simp add: v4InV6Prefix_def)

lemma ParseIP_length: "ParseIP s = Some ip \<Longrightarrow> length ip = 16"
  by (auto simp: ParseIP_def split: option.splits if_splits dest!: ParseAddr_shape)

lemma ParseCIDR_length: "ParseCIDR s = Some (ip, n) \<Longrightarrow> length ip = 16"
  by (auto simp: ParseCIDR_def split: option.splits if_splits prod.splits dest!: ParseAddr_shape)

section \<open>Dotted notation is read back\<close>

lemma foldl_digits_ge: "v \<le> foldl (\<lambda>a c. 10 * a + digit_val c) v ds"
proof (induction ds arbitrary: v)
  case (Cons c ds)
  have "v \<le> 10 * v + digit_val c" by simp
  also have "\<dots> \<le> foldl (\<lambda>a c. 10 * a + digit_val c) (10 * v + digit_val c) ds" by (rule Cons)
  finally show ?case by simp
qed simp

text \<open>The rest of a field, once a digit other than 0 was read.\<close>

lemma ipv4Loop_digits:
  "v > 0 \<Longrightarrow> \<forall>c\<in>set ds. is_digit c \<Longrightarrow> foldl (\<lambda>a c. 10 * a + digit_val c) v ds \<le> 255 \<Longrightarrow>
   ipv4Loop False v d fs (ds @ t)
     = ipv4Loop False (foldl (\<lambda>a c. 10 * a + digit_val c) v ds) (d + length ds) fs t"
proof (induction ds arbitrary: v d)
  case (Cons c ds)
  have "10 * v + digit_val c \<le> 255"
    using Cons.prems(3) foldl_digits_ge [of "10 * v + digit_val c" ds] by simp
  with Cons show ?case by (simp add: Let_def mult.commute)
qed simp

lemma ipv4Loop_field:
  assumes "x < 256"
  shows "ipv4Loop True 0 0 fs (show_nat x @ t) = ipv4Loop False x (length (show_nat x)) fs t"
proof (cases "show_nat x")
  case (Cons c ds)
  have dig: "is_digit c" "\<forall>c\<in>set ds. is_digit c" using show_nat_digits [of x] Cons by auto
  have val: "foldl (\<lambda>a c. 10 * a + digit_val c) (digit_val c) ds = x"
    using digits_val_show_nat [of x] Cons by (simp add: digits_val_def)
  show ?thesis
  proof (cases "x = 0")
    case True
    then have "show_nat x = [CHR ''0'']" by (subst show_base.simps) (simp add: digit_char_eq_0)
    moreover have "digit_val CHR ''0'' = 0" "is_digit CHR ''0''" by (simp_all add: digit_val_def is_digit_def)
    ultimately show ?thesis using True by simp
  next
    case False
    then have "c \<noteq> CHR ''0''" using show_nat_first [of x] Cons by simp
    then have pos: "digit_val c > 0"
      using dig(1) digit_char_digit_val [of c] digit_char_eq_0 [of "digit_val c"] digit_val_bound by auto
    have "digit_val c \<le> 255" using digit_val_bound [OF dig(1)] by simp
    then have "ipv4Loop True 0 0 fs (show_nat x @ t) = ipv4Loop False (digit_val c) 1 fs (ds @ t)"
      using Cons dig by simp
    also have "\<dots> = ipv4Loop False x (1 + length ds) fs t"
      using ipv4Loop_digits [OF pos dig(2)] val assms by simp
    finally show ?thesis using Cons by simp
  qed
qed simp

lemma show_nat_no_dot: "CHR ''.'' \<notin> set (show_nat n)" "CHR '':'' \<notin> set (show_nat n)"
    "CHR ''%'' \<notin> set (show_nat n)" "CHR ''/'' \<notin> set (show_nat n)"
  using show_nat_digits [of n] by (auto simp: is_digit_def)

lemma parseIPv4Fields_dotted:
  fixes a b c d :: byte
  shows "parseIPv4Fields (dotted [a, b, c, d]) = Some [a, b, c, d]"
proof -
  have lt: "unat x < 256" for x :: byte using unsigned_less [of x] by simp
  have last: "ipv4Loop True 0 0 fs (show_nat (unat d))
      = ipv4Loop False (unat d) (length (show_nat (unat d))) fs []" for fs
    using ipv4Loop_field [OF lt, of fs d "[]"] by simp
  show ?thesis
    by (simp add: parseIPv4Fields_def dotted_def ipv4Loop_field lt last)
qed

lemma find_first: "list_all (\<lambda>x. \<not> P x) xs \<Longrightarrow> P y \<Longrightarrow> find P (xs @ y # ys) = Some y"
  by (induction xs) auto

lemma ParseAddr_dotted:
  assumes "length b = 4"
  shows "ParseAddr (dotted b) = Some (Addr4 b)"
proof -
  obtain w x y z where b: "b = [w, x, y, z]"
    using assms by (auto simp: numeral_eq_Suc length_Suc_conv)
  have "list_all (\<lambda>c. \<not> (c = CHR ''.'' \<or> c = CHR '':'' \<or> c = CHR ''%'')) (show_nat (unat w))"
    using show_nat_no_dot by (auto simp: list_all_iff)
  then have "find (\<lambda>c. c = CHR ''.'' \<or> c = CHR '':'' \<or> c = CHR ''%'') (dotted b) = Some CHR ''.''"
    unfolding b dotted_def by (simp add: find_first)
  then show ?thesis unfolding b by (simp add: ParseAddr_def parseIPv4Fields_dotted)
qed

lemma IP_String_4: "length b = 4 \<Longrightarrow> IP_String (v4InV6Prefix @ b) = dotted b"
  by (simp add: IP_String_def To4_def)

lemma ParseIP_dotted: "length b = 4 \<Longrightarrow> ParseIP (dotted b) = Some (v4InV6Prefix @ b)"
  by (simp add: ParseIP_def ParseAddr_dotted)

section \<open>Masks\<close>

lemma maskBytes_0: "maskBytes l 0 = replicate l 0"
  by (induction l) simp_all

lemma length_maskBytes [simp]: "length (maskBytes l n) = l"
  by (induction l n rule: maskBytes.induct) auto

lemma partial_byte:
  "n < 8 \<Longrightarrow> leadingOnes (NOT (drop_bit n 0xff)) = n \<and> push_bit n (NOT (drop_bit n 0xff)) = (0 :: byte)
     \<and> NOT (drop_bit n 0xff) \<noteq> (0xff :: byte)"
proof -
  assume "n < 8"
  then have "n \<in> {0, 1, 2, 3, 4, 5, 6, 7}" by auto
  then show ?thesis by (elim insertE) (simp_all add: leadingOnes_def bit_simps)
qed

lemma simpleMaskLength_maskBytes: "n \<le> 8 * l \<Longrightarrow> simpleMaskLength (maskBytes l n) = Some n"
proof (induction l n rule: maskBytes.induct)
  case (2 l n)
  then show ?case using partial_byte [of n] by (auto simp: maskBytes_0 list_all_iff)
qed simp

lemma Mask_Size_CIDRMask: "CIDRMask (int n) bits = Some m \<Longrightarrow> Mask_Size m = n"
  by (auto simp: CIDRMask_def Mask_Size_def simpleMaskLength_maskBytes split: if_splits)

section \<open>Membership in a network, in bits\<close>

text \<open>
  The specification of \<open>Contains\<close>: an address is in a network of prefix length \<open>n\<close> when their
  first \<open>n\<close> bits, most significant first, agree.
\<close>

definition byte_bits :: "byte \<Rightarrow> bool list" where
  "byte_bits b = map (bit b) [7, 6, 5, 4, 3, 2, 1, 0]"

definition ip_bits :: "IP \<Rightarrow> bool list" where
  "ip_bits ip = concat (map byte_bits ip)"

lemma length_byte_bits [simp]: "length (byte_bits b) = 8"
  by (simp add: byte_bits_def)

lemma ip_bits_Cons [simp]: "ip_bits (b # ip) = byte_bits b @ ip_bits ip" "ip_bits [] = []"
  by (simp_all add: ip_bits_def)

lemma bit_partial: "bit (NOT (drop_bit n 0xff) :: byte) k \<longleftrightarrow> k < 8 \<and> 8 \<le> n + k"
proof -
  have ones: "(0xff :: byte) = -1" by simp
  have full: "bit (0xff :: byte) m \<longleftrightarrow> m < 8" for m unfolding ones by simp
  have "bit (drop_bit n 0xff :: byte) k \<longleftrightarrow> n + k < 8"
    by (simp only: bit_drop_bit_eq o_apply full)
  then show ?thesis by (simp only: bit_not_iff possible_bit_word len_num1 word_size) auto
qed

lemma and_partial_eq:
  fixes a b :: byte
  shows "a AND NOT (drop_bit n 0xff) = b AND NOT (drop_bit n 0xff)
    \<longleftrightarrow> (\<forall>k<8. 8 \<le> n + k \<longrightarrow> bit a k = bit b k)"
  by (auto simp: bit_eq_iff bit_and_iff bit_partial)

lemma take_byte_bits:
  assumes "n < 8"
  shows "take n (byte_bits a) = take n (byte_bits b) \<longleftrightarrow> (\<forall>k<8. 8 \<le> n + k \<longrightarrow> bit a k = bit b k)"
proof -
  have S: "set (take n [7, 6, 5, 4, 3, 2, 1, 0 :: nat]) = {k. k < 8 \<and> 8 \<le> n + k}"
  proof -
    from assms have "n \<in> {0, 1, 2, 3, 4, 5, 6, 7}" by auto
    then show ?thesis by (elim insertE) (auto simp: numeral_eq_Suc less_Suc_eq)
  qed
  show ?thesis unfolding byte_bits_def take_map map_eq_conv S by blast
qed

lemma byte_bits_inject [simp]: "byte_bits a = byte_bits b \<longleftrightarrow> a = b"
proof
  assume "byte_bits a = byte_bits b"
  then have "bit a k = bit b k" if "k < 8" for k
    using that by (auto simp: byte_bits_def numeral_eq_Suc less_Suc_eq)
  then show "a = b" by (simp add: bit_eq_iff)
qed simp

lemma byte_bits_append: "byte_bits a @ xs = byte_bits b @ ys \<longleftrightarrow> a = b \<and> xs = ys"
  by (subst append_eq_append_conv) simp_all

lemma and_ff [simp]: "x AND 0xff = (x :: byte)"
proof -
  have ones: "(0xff :: byte) = -1" by simp
  show ?thesis unfolding ones by simp
qed

lemma and_maskBytes_eq:
  "length a = l \<Longrightarrow> length b = l \<Longrightarrow>
     and_bytes a (maskBytes l n) = and_bytes b (maskBytes l n)
       \<longleftrightarrow> take n (ip_bits a) = take n (ip_bits b)"
proof (induction l n arbitrary: a b rule: maskBytes.induct)
  case (1 n)
  then show ?case by (simp add: and_bytes_def)
next
  case (2 l n)
  then obtain x xs y ys where ab: "a = x # xs" "b = y # ys" "length xs = l" "length ys = l"
    by (metis length_Suc_conv)
  show ?case
  proof (cases "8 \<le> n")
    case True
    then have "and_bytes xs (maskBytes l (n - 8)) = and_bytes ys (maskBytes l (n - 8))
        \<longleftrightarrow> take (n - 8) (ip_bits xs) = take (n - 8) (ip_bits ys)"
      using ab by (intro "2.IH")
    moreover have "and_bytes (v # vs) (maskBytes (Suc l) n) = v # and_bytes vs (maskBytes l (n - 8))" for v vs
      using True by (simp only: maskBytes.simps if_True and_bytes_def zip_Cons_Cons list.map prod.case and_ff)
    moreover have "take n (ip_bits (v # vs)) = byte_bits v @ take (n - 8) (ip_bits vs)" for v vs
      using True by simp
    ultimately show ?thesis unfolding ab(1,2) by (simp only: list.inject byte_bits_append)
  next
    case False
    then have rest: "and_bytes xs (maskBytes l 0) = and_bytes ys (maskBytes l 0)"
      using "2.IH"(2) [OF False ab(3,4)] by (simp only: take_0)
    have "and_bytes (v # vs) (maskBytes (Suc l) n) = (v AND NOT (drop_bit n 0xff)) # and_bytes vs (maskBytes l 0)"
      for v vs
      using False by (simp only: maskBytes.simps if_False and_bytes_def zip_Cons_Cons list.map prod.case)
    moreover have "take n (ip_bits (v # vs)) = take n (byte_bits v)" for v vs
      using False by simp
    ultimately show ?thesis
      unfolding ab(1,2) using False rest by (simp only: list.inject and_partial_eq take_byte_bits) auto
  qed
qed

lemma and_bytes_idem: "and_bytes (and_bytes a m) m = and_bytes a m"
  by (induction a m rule: list_induct2') (simp_all add: and_bytes_def and.assoc)

lemma length_and_bytes [simp]: "length (and_bytes a m) = min (length a) (length m)"
  by (simp add: and_bytes_def)

lemma Contains_IPv4:
  assumes "length a = 4" "length b = 4"
  shows "IPNet_Contains \<lparr>net_ip = IP_Mask (v4InV6Prefix @ a) (maskBytes 4 n), net_mask = maskBytes 4 n\<rparr>
      (v4InV6Prefix @ b) \<longleftrightarrow> take n (ip_bits a) = take n (ip_bits b)"
  using assms
  by (auto simp: IPNet_Contains_def networkNumberAndMask_def IP_Mask_def To4_def and_bytes_idem
      and_maskBytes_eq Let_def)

text \<open>The parts of an IPv4 CIDR that parses.\<close>

lemma ParseCIDR_IPv4:
  assumes "ParseCIDR s = Some (ip, net)" "cut_byte s CHR ''/'' = Some (addr, m)"
    "ParseAddr addr = Some (Addr4 a)"
  shows "\<exists>n\<le>32. ip = v4InV6Prefix @ a \<and> Mask_Size (net_mask net) = n \<and>
    net = \<lparr>net_ip = IP_Mask (v4InV6Prefix @ a) (maskBytes 4 n), net_mask = maskBytes 4 n\<rparr>"
  using assms
  by (auto simp: ParseCIDR_def CIDRMask_def Mask_Size_def simpleMaskLength_maskBytes
      split: option.splits if_splits prod.splits)

section \<open>CIDR notation of an IPv4 address\<close>

definition cidr4 :: "IP \<Rightarrow> nat \<Rightarrow> string" where
  "cidr4 a n = dotted a @ CHR ''/'' # show_nat n"

lemma dtoi_show_nat: "n < 0xFFFFFF \<Longrightarrow> dtoi (show_nat n) = Some (n, [])"
  using show_nat_digits [of n] by (simp add: dtoi_def Let_def takeWhile_all list_all_iff)

lemma dotted_no_slash: "length a = 4 \<Longrightarrow> CHR ''/'' \<notin> set (dotted a)"
proof -
  assume "length a = 4"
  then obtain w x y z where "a = [w, x, y, z]" by (auto simp: numeral_eq_Suc length_Suc_conv)
  then show ?thesis using show_nat_no_dot by (simp add: dotted_def)
qed

lemma ParseCIDR_cidr4:
  assumes "length a = 4" "n \<le> 32"
  shows "ParseCIDR (cidr4 a n) = Some (v4InV6Prefix @ a,
    \<lparr>net_ip = IP_Mask (v4InV6Prefix @ a) (maskBytes 4 n), net_mask = maskBytes 4 n\<rparr>)"
proof -
  have "cut_byte (cidr4 a n) CHR ''/'' = Some (dotted a, show_nat n)"
    unfolding cidr4_def by (rule cut_byte_append) (rule dotted_no_slash [OF assms(1)])
  then show ?thesis
    using assms by (simp add: ParseCIDR_def ParseAddr_dotted dtoi_show_nat CIDRMask_def)
qed

lemma ParseCIDR_cidr4_None:
  assumes "length a = 4" "n > 32"
  shows "ParseCIDR (cidr4 a n) = None"
proof -
  have "cut_byte (cidr4 a n) CHR ''/'' = Some (dotted a, show_nat n)"
    unfolding cidr4_def by (rule cut_byte_append) (rule dotted_no_slash [OF assms(1)])
  moreover have "dtoi (show_nat n) = None \<or> dtoi (show_nat n) = Some (n, [])"
    using show_nat_digits [of n] by (auto simp: dtoi_def Let_def takeWhile_all list_all_iff)
  ultimately show ?thesis using assms by (auto simp: ParseCIDR_def ParseAddr_dotted)
qed

end
