(* ===== verification/Go_Net_Text.thy ===== *)
theory Go_Net_Text
  imports Go_Net
begin

text \<open>
  The text of addresses: every string that \<open>ParseIP\<close> or \<open>ParseCIDR\<close> accepts consists of hex
  digits, dots, colons and, before a prefix length, a slash. The scripts that embed such strings
  rest on it.
\<close>

definition addr_char :: "char \<Rightarrow> bool" where
  "addr_char c \<longleftrightarrow> hex_val c \<noteq> None \<or> c = CHR ''.'' \<or> c = CHR '':''"

lemma is_digit_addr: "is_digit c \<Longrightarrow> addr_char c"
  by (simp add: is_digit_def addr_char_def hex_val_def Let_def)

lemma addr_char_seps [simp]: "addr_char CHR ''.''" "addr_char CHR '':''"
  by (simp_all add: addr_char_def)

lemma ipv4Loop_chars: "ipv4Loop op v d fs s = Some b \<Longrightarrow> \<forall>c\<in>set s. addr_char c"
proof (induction op v d fs s rule: ipv4Loop.induct)
  case (2 fresh val digLen fs c s)
  then show ?case
    by (cases "is_digit c") (auto simp: Let_def is_digit_addr split: if_splits)
qed simp

lemma parseIPv4Fields_chars: "parseIPv4Fields s = Some b \<Longrightarrow> \<forall>c\<in>set s. addr_char c"
  unfolding parseIPv4Fields_def by (rule ipv4Loop_chars)

lemma hexGroup_chars:
  "hexGroup off acc s = Some (off', acc', rest) \<Longrightarrow>
     \<exists>h. s = h @ rest \<and> (\<forall>c\<in>set h. addr_char c)"
proof (induction off acc s rule: hexGroup.induct)
  case (2 off acc c s)
  show ?case
  proof (cases "hex_val c")
    case None
    with 2 show ?thesis by (intro exI [of _ "[]"]) simp
  next
    case (Some v)
    then obtain h where "s = h @ rest" "\<forall>c\<in>set h. addr_char c"
      using 2 by (auto split: if_splits)
    with Some show ?thesis by (intro exI [of _ "c # h"]) (simp add: addr_char_def)
  qed
qed simp

lemma ipv6Loop_chars: "ipv6Loop ip e s = Some (ip', e', []) \<Longrightarrow> \<forall>c\<in>set s. addr_char c"
proof (induction ip e s rule: ipv6Loop.induct)
  case (1 ip e s)
  show ?case
  proof (cases "16 \<le> length ip")
    case True
    with "1.prems" show ?thesis by (simp add: ipv6Loop.simps)
  next
    case False
    from "1.prems" False obtain off acc rest where h: "hexGroup 0 0 s = Some (off, acc, rest)" "off \<noteq> 0"
      by (subst (asm) ipv6Loop.simps) (auto split: option.splits if_splits)
    then obtain g where g: "s = g @ rest" "\<forall>c\<in>set g. addr_char c" using hexGroup_chars by blast
    have colon: "addr_char CHR '':''" by (simp add: addr_char_def)
    show ?thesis
    proof (cases "rest \<noteq> [] \<and> hd rest = CHR ''.''")
      case True
      with "1.prems" False h obtain fs where "parseIPv4Fields s = Some fs"
        by (subst (asm) ipv6Loop.simps) (auto split: option.splits if_splits)
      then show ?thesis by (rule parseIPv4Fields_chars)
    next
      case no_dot: False
      have "\<forall>c\<in>set rest. addr_char c"
      proof (cases rest)
        case (Cons c r)
        note IH = "1.IH" [OF False h(1) refl refl h(2) no_dot refl Cons]
        show ?thesis
        proof (cases "hd r = CHR '':''")
          case True
          with "1.prems" False h no_dot Cons IH(1) have "c = CHR '':'' \<and> r \<noteq> [] \<and> (\<forall>c\<in>set (tl r). addr_char c)"
            by (subst (asm) ipv6Loop.simps) (auto simp: Let_def split: if_splits)
          with True Cons colon show ?thesis by (cases r) auto
        next
          case False2: False
          with "1.prems" False h no_dot Cons IH(2) have "c = CHR '':'' \<and> (\<forall>c\<in>set r. addr_char c)"
            by (subst (asm) ipv6Loop.simps) (auto simp: Let_def split: if_splits)
          with Cons colon show ?thesis by auto
        qed
      qed simp
      with g show ?thesis by auto
    qed
  qed
qed

lemma parseIPv6_chars:
  assumes "parseIPv6 s = Some a" "Zone a = []"
  shows "\<forall>c\<in>set s. addr_char c"
proof -
  have whole: "cut_byte s CHR ''%'' = None"
  proof (rule ccontr)
    assume "cut_byte s CHR ''%'' \<noteq> None"
    then obtain p z where c: "cut_byte s CHR ''%'' = Some (p, z)" by auto
    with assms(1) have "z \<noteq> []" by (auto simp: parseIPv6_def)
    with assms c show False
      by (auto simp: parseIPv6_def Let_def neq_Nil_conv split: if_splits option.splits)
  qed
  have colon: "addr_char CHR '':''" by (simp add: addr_char_def)
  define s' where "s' = (if has_prefix s ''::'' then drop 2 s else s)"
  have "\<forall>c\<in>set s'. addr_char c"
  proof (cases "has_prefix s ''::'' \<and> s' = []")
    case False
    with assms(1) whole obtain ip e r where
      "ipv6Loop [] (if has_prefix s ''::'' then Some 0 else None) s' = Some (ip, e, r)"
      "expandEllipsis (ip, e, r) \<noteq> None"
      unfolding s'_def by (auto simp: parseIPv6_def Let_def split: if_splits option.splits)
    then show ?thesis using ipv6Loop_chars by (auto simp: expandEllipsis_def split: if_splits)
  qed simp
  moreover have "set s \<subseteq> set s' \<union> {CHR '':''}"
    unfolding s'_def by (auto simp: has_prefix_iff)
  ultimately show ?thesis using colon by blast
qed

lemma ParseIP_chars: "ParseIP s = Some ip \<Longrightarrow> \<forall>c\<in>set s. addr_char c"
  by (auto simp: ParseIP_def ParseAddr_def split: option.splits if_splits
      dest!: parseIPv4Fields_chars parseIPv6_chars)

lemma cut_byte_Some: "cut_byte s c = Some (a, b) \<Longrightarrow> s = a @ c # b \<and> c \<notin> set a"
proof -
  assume "cut_byte s c = Some (a, b)"
  then obtain i where i: "index_byte s c = Some i" "a = take i s" "b = drop (Suc i) s"
    by (auto simp: cut_byte_def split: option.splits)
  have d: "i < length s" "s ! i = c" "c \<notin> set (take i s)" using index_byte_SomeD [OF i(1)] by simp_all
  have "s = take i s @ s ! i # drop (Suc i) s" using d(1) by (rule id_take_nth_drop)
  with d i(2,3) show ?thesis by simp
qed

lemma dtoi_chars: "dtoi s = Some (n, []) \<Longrightarrow> \<forall>c\<in>set s. is_digit c"
proof -
  assume "dtoi s = Some (n, [])"
  then have "length s \<le> length (takeWhile is_digit s)" by (auto simp: dtoi_def Let_def split: if_splits)
  then have "takeWhile is_digit s = s" by (metis le_antisym length_takeWhile_le takeWhile_eq_take take_all)
  then show ?thesis by (metis set_takeWhileD)
qed

text \<open>No character of a network in CIDR notation means anything to a shell.\<close>

lemma ParseCIDR_chars:
  assumes "ParseCIDR s = Some x"
  shows "\<forall>c\<in>set s. addr_char c \<or> c = CHR ''/''"
proof -
  obtain a m n where s: "cut_byte s CHR ''/'' = Some (a, m)"
    and a: "ParseIP a \<noteq> None" and m: "dtoi m = Some (n, [])"
    using assms by (auto simp: ParseCIDR_def ParseIP_def split: option.splits if_splits)
  obtain ip where "ParseIP a = Some ip" using a by blast
  then have "\<forall>c\<in>set a. addr_char c" by (rule ParseIP_chars)
  moreover have "\<forall>c\<in>set m. addr_char c" using dtoi_chars [OF m] is_digit_addr by blast
  moreover have "s = a @ CHR ''/'' # m" using cut_byte_Some [OF s] by simp
  ultimately show ?thesis by auto
qed

definition shell_special :: string where
  "shell_special = [sq, dq, bslash, nl, tab, CHR 0x60] @ '' $;&|<>(){}*?[]!#~%^'' "

lemma addr_char_plain: "addr_char c \<Longrightarrow> c \<notin> set shell_special"
proof -
  have "list_all (\<lambda>c. \<not> addr_char c) shell_special" by code_simp
  then show "addr_char c \<Longrightarrow> c \<notin> set shell_special" by (auto simp: list_all_iff)
qed

lemma ParseIP_safe: "ParseIP s = Some ip \<Longrightarrow> set s \<inter> set shell_special = {}"
  using ParseIP_chars addr_char_plain by blast

lemma ParseCIDR_safe: "ParseCIDR s = Some x \<Longrightarrow> set s \<inter> set shell_special = {}"
proof -
  assume "ParseCIDR s = Some x"
  moreover have "CHR ''/'' \<notin> set shell_special" by (simp add: shell_special_def)
  ultimately show ?thesis using ParseCIDR_chars addr_char_plain by blast
qed

end
