(* ===== verification/Config.thy ===== *)
theory Config
  imports Toml Go_Net_Text Go_Path
begin

text \<open>
  The checks and derived values of \<open>internal/config/config.go\<close>: \<open>Validate\<close> and the functions it
  calls in order, \<open>OutputDir\<close>, the two tunnel addresses and the template \<open>ubo init\<close> writes.
\<close>

section \<open>Validation\<close>

datatype config_error =
    HostRequired
  | SSHUserRequired
  | PortRange string
  | ServerIPInvalid
  | ClientIPInvalid
  | SameTunnelAddress
  | ClientOutsideNetwork IP IPNet
  | LUKSDeviceInvalid string

definition validatePort :: "string \<Rightarrow> int \<Rightarrow> config_error + unit" where
  "validatePort name port =
     (if port \<le> 0 \<or> port > 65535 then Inl (PortRange name) else Inr ())"

definition validateHost :: "config \<Rightarrow> config_error + unit" where
  "validateHost c = (if Host c = [] then Inl HostRequired else Inr ())"

definition validateSSH :: "config \<Rightarrow> config_error + unit" where
  "validateSSH c =
     (if ssh_User (SSH c) = [] then Inl SSHUserRequired
      else validatePort ''ssh.port'' (ssh_Port (SSH c)))"

definition validateTunnelTopology :: "config \<Rightarrow> config_error + unit" where
  "validateTunnelTopology c =
     (case ParseCIDR (wg_ServerIP (WireGuard c)) of
        None \<Rightarrow> Inl ServerIPInvalid
      | Some (serverIP, serverNet) \<Rightarrow>
          (case ParseCIDR (wg_ClientIP (WireGuard c)) of
             None \<Rightarrow> Inl ClientIPInvalid
           | Some (clientIP, _) \<Rightarrow>
               if IP_Equal serverIP clientIP then Inl SameTunnelAddress
               else if \<not> IPNet_Contains serverNet clientIP
               then Inl (ClientOutsideNetwork clientIP serverNet)
               else Inr ()))"

definition validateWireGuard :: "config \<Rightarrow> config_error + unit" where
  "validateWireGuard c =
     bindE (validatePort ''wireguard.port'' (wg_Port (WireGuard c))) (\<lambda>_.
       if ParseCIDR (wg_ServerIP (WireGuard c)) = None then Inl ServerIPInvalid
       else if ParseCIDR (wg_ClientIP (WireGuard c)) = None then Inl ClientIPInvalid
       else validateTunnelTopology c)"

definition validateDropbear :: "config \<Rightarrow> config_error + unit" where
  "validateDropbear c = validatePort ''dropbear.port'' (db_Port (Dropbear c))"

text \<open>The class \<open>[A-Za-z0-9/_.:=-]\<close> and the pattern \<open>^/dev/[...]+$\<close>.\<close>

definition luks_char :: "char \<Rightarrow> bool" where
  "luks_char c \<longleftrightarrow>
     (let n = of_char c :: nat
      in 65 \<le> n \<and> n \<le> 90 \<or> 97 \<le> n \<and> n \<le> 122 \<or> 48 \<le> n \<and> n \<le> 57) \<or> c \<in> set ''/_.:=-''"

definition luksDevicePattern :: "string \<Rightarrow> bool" where
  "luksDevicePattern s \<longleftrightarrow>
     has_prefix s ''/dev/'' \<and> drop 5 s \<noteq> [] \<and> list_all luks_char (drop 5 s)"

definition validateLUKS :: "config \<Rightarrow> config_error + unit" where
  "validateLUKS c =
     (if luks_Device (LUKS c) = [] then Inr ()
      else if \<not> luksDevicePattern (luks_Device (LUKS c))
      then Inl (LUKSDeviceInvalid (luks_Device (LUKS c)))
      else Inr ())"

definition Validate :: "config \<Rightarrow> config_error + unit" where
  "Validate c =
     first_error [validateHost, validateSSH, validateWireGuard, validateDropbear, validateLUKS] c"

section \<open>Derived values\<close>

definition host_byte :: "char \<Rightarrow> string" where
  "host_byte c = (if c = CHR '':'' then ''-'' else if c = CHR ''['' \<or> c = CHR '']'' then [] else [c])"

definition OutputDir :: "config \<Rightarrow> string" where
  "OutputDir c =
     (if out_Dir (Output c) \<noteq> [] then out_Dir (Output c)
      else ''ubo-'' @ replace_bytes host_byte (Host c))"

definition WGServerTunnelIP :: "config \<Rightarrow> string" where
  "WGServerTunnelIP c =
     (case ParseCIDR (wg_ServerIP (WireGuard c)) of None \<Rightarrow> [] | Some (ip, _) \<Rightarrow> IP_String ip)"

definition WGClientTunnelIP :: "config \<Rightarrow> string" where
  "WGClientTunnelIP c =
     (case ParseCIDR (wg_ClientIP (WireGuard c)) of None \<Rightarrow> [] | Some (ip, _) \<Rightarrow> IP_String ip)"

section \<open>The template of ubo init\<close>

definition DefaultTemplate_lines :: "string list" where
  "DefaultTemplate_lines =
     [''# UBO Configuration '' @ mdash @ '' Unlock Before Operation'',
      ''# Edit with: ubo configure'',
      [],
      ''# Remote host to configure'',
      ''host = '' @ [dq] @ ''192.168.1.100'' @ [dq],
      [],
      ''[ssh]'',
      ''user = '' @ [dq] @ ''root'' @ [dq],
      ''port = 22'',
      ''key        = '' @ [dq, dq] @
        ''   # path to SSH private key; empty = use agent / default keys'',
      ''sudo       = false   # true = run remote setup via passwordless sudo (for non-root sudo-group users)'',
      ''proxy_jump = '' @ [dq, dq] @ ''   # SSH jump host, e.g. '' @ [dq] @ ''user@bastion:22'' @
        [dq] @ ''; empty = direct connection'',
      [],
      ''[wireguard]'',
      ''port      = 51820'',
      ''server_ip = '' @ [dq] @ ''10.42.0.1/24'' @ [dq] @
        ''   # server WireGuard tunnel IP (CIDR)'',
      ''client_ip = '' @ [dq] @ ''10.42.0.2/32'' @ [dq] @
        ''   # client WireGuard tunnel IP (CIDR)'',
      [],
      ''[dropbear]'',
      ''port = 22'',
      [],
      ''[output]'',
      ''dir = '' @ [dq, dq] @ ''   # empty = auto: ./ubo-<host>/'',
      [],
      ''[network]'',
      ''# Leave empty to auto-detect from the remote system'' @ [sq] @ ''s routing table'',
      ''interface = '' @ [dq, dq],
      ''ip        = '' @ [dq, dq] @ ''   # static IP/CIDR for initramfs (e.g. '' @ [dq] @
        ''192.168.1.100/24'' @ [dq] @ '')'',
      [],
      ''[luks]'',
      ''device = '' @ [dq, dq] @ ''   # LUKS block device (e.g. '' @ [dq] @ ''/dev/sda3'' @ [dq] @
        ''); auto-detected from /etc/crypttab if empty'']"

definition DefaultTemplate :: string where
  "DefaultTemplate = unlines DefaultTemplate_lines"

section \<open>What a valid configuration satisfies\<close>

definition port_ok :: "int \<Rightarrow> bool" where
  "port_ok p \<longleftrightarrow> 1 \<le> p \<and> p \<le> 65535"

lemma validatePort_ok [simp]: "validatePort n p = Inr u \<longleftrightarrow> port_ok p"
  by (auto simp: validatePort_def port_ok_def)

lemma validateTunnelTopology_ok:
  "validateTunnelTopology c = Inr u \<longleftrightarrow>
     (\<exists>s net cl cnet. ParseCIDR (wg_ServerIP (WireGuard c)) = Some (s, net) \<and>
        ParseCIDR (wg_ClientIP (WireGuard c)) = Some (cl, cnet) \<and> s \<noteq> cl \<and> IPNet_Contains net cl)"
  by (auto simp: validateTunnelTopology_def IP_Equal_def dest: ParseCIDR_length split: option.splits if_splits)

lemma validateWireGuard_ok:
  "validateWireGuard c = Inr u \<longleftrightarrow> port_ok (wg_Port (WireGuard c)) \<and> validateTunnelTopology c = Inr ()"
  by (auto simp: validateWireGuard_def res_simps validateTunnelTopology_ok split: if_splits)

lemma luksDevicePattern_iff:
  "luksDevicePattern s \<longleftrightarrow> (\<exists>r. s = ''/dev/'' @ r \<and> r \<noteq> [] \<and> list_all luks_char r)"
  by (auto simp: luksDevicePattern_def has_prefix_iff)

lemma Validate_iff:
  "Validate c = Inr u \<longleftrightarrow>
     Host c \<noteq> [] \<and> ssh_User (SSH c) \<noteq> [] \<and>
     port_ok (ssh_Port (SSH c)) \<and> port_ok (wg_Port (WireGuard c)) \<and> port_ok (db_Port (Dropbear c)) \<and>
     validateTunnelTopology c = Inr () \<and>
     (luks_Device (LUKS c) = [] \<or> luksDevicePattern (luks_Device (LUKS c)))"
  unfolding Validate_def first_error_ok
  by (auto simp: validateHost_def validateSSH_def validateWireGuard_ok
      validateDropbear_def validateLUKS_def split: if_splits)

text \<open>
  For IPv4 tunnels, the topology check in terms of bits: the client differs from the server and
  agrees with it on the network's bits.
\<close>

lemma validateTunnelTopology_IPv4:
  assumes "wg_ServerIP (WireGuard c) = cidr4 a n" "wg_ClientIP (WireGuard c) = cidr4 b m"
    "length a = 4" "length b = 4" "n \<le> 32" "m \<le> 32"
  shows "validateTunnelTopology c = Inr () \<longleftrightarrow>
    a \<noteq> b \<and> take n (ip_bits a) = take n (ip_bits b)"
  using assms by (auto simp: validateTunnelTopology_ok ParseCIDR_cidr4 Contains_IPv4)

lemma WGServerTunnelIP_IPv4:
  "wg_ServerIP (WireGuard c) = cidr4 a n \<Longrightarrow> length a = 4 \<Longrightarrow> n \<le> 32 \<Longrightarrow> WGServerTunnelIP c = dotted a"
  by (simp add: WGServerTunnelIP_def ParseCIDR_cidr4 IP_String_4)

lemma WGClientTunnelIP_IPv4:
  "wg_ClientIP (WireGuard c) = cidr4 a n \<Longrightarrow> length a = 4 \<Longrightarrow> n \<le> 32 \<Longrightarrow> WGClientTunnelIP c = dotted a"
  by (simp add: WGClientTunnelIP_def ParseCIDR_cidr4 IP_String_4)

text \<open>A device the pattern admits has no character a shell gives a meaning to.\<close>

lemma luks_char_safe: "luks_char c \<Longrightarrow> c \<notin> set shell_special"
  by (auto simp: luks_char_def shell_special_def Let_def)

lemma luksDevicePattern_safe: "luksDevicePattern s \<Longrightarrow> set s \<inter> set shell_special = {}"
proof -
  assume "luksDevicePattern s"
  moreover have "list_all luks_char ''/dev/''" by code_simp
  ultimately have "list_all luks_char s" by (auto simp: luksDevicePattern_iff)
  then show ?thesis using luks_char_safe by (auto simp: list_all_iff)
qed

lemma OutputDir_default:
  "out_Dir (Output c) = [] \<Longrightarrow> has_prefix (OutputDir c) ''ubo-'' \<and>
     set (OutputDir c) \<inter> set '':[]'' = {}"
proof -
  have "set (replace_bytes host_byte h) \<inter> set '':[]'' = {}" for h
    by (induction h) (auto simp: host_byte_def)
  then show "out_Dir (Output c) = [] \<Longrightarrow> ?thesis"
    using has_prefix_append [of "''ubo-''"] by (auto simp: OutputDir_def)
qed

section \<open>Properties\<close>

text \<open>C26: For tunnel addresses in IPv4 notation, \<open>Validate\<close> accepts exactly the configurations
  with a host, a user, three ports between 1 and 65535, a device that is empty or matches the
  pattern, and tunnel ends that differ and agree on the bits of the server's network.\<close>

theorem Validate_IPv4:
  assumes "wg_ServerIP (WireGuard c) = cidr4 a n" "wg_ClientIP (WireGuard c) = cidr4 b m"
    "length a = 4" "length b = 4" "n \<le> 32" "m \<le> 32"
  shows "Validate c = Inr () \<longleftrightarrow>
    Host c \<noteq> [] \<and> ssh_User (SSH c) \<noteq> [] \<and>
    (\<forall>p\<in>set (config_ints c). 1 \<le> p \<and> p \<le> 65535) \<and>
    a \<noteq> b \<and> take n (ip_bits a) = take n (ip_bits b) \<and>
    (luks_Device (LUKS c) = [] \<or> luksDevicePattern (luks_Device (LUKS c)))"
  unfolding Validate_iff validateTunnelTopology_IPv4 [OF assms] port_ok_def config_ints_def by auto

lemma default_tunnel:
  "''10.42.0.1/24'' = cidr4 [10, 42, 0, 1] 24" "''10.42.0.2/32'' = cidr4 [10, 42, 0, 2] 32"
  by code_simp+

lemma Validate_IPv4_witness: "Validate (Default\<lparr>Host := ''h''\<rparr>) = Inr ()"
proof -
  have "take 24 (ip_bits [10, 42, 0, 1]) = take 24 (ip_bits [10, 42, 0, 2])"
    by (simp add: ip_bits_def; code_simp)
  then show ?thesis
    using Validate_IPv4 [of "Default\<lparr>Host := ''h''\<rparr>" "[10, 42, 0, 1]" 24 "[10, 42, 0, 2]" 32]
    by (simp add: Default_def default_tunnel config_ints_def)
qed

text \<open>The smallest valid configuration.\<close>

lemma Validate_default_host: "Validate (put_Host ''h'' Default) = Inr ()"
  by code_simp

text \<open>The LUKS device of a valid configuration holds no character with a meaning in a shell,
  so the command that embeds it runs with the device as one plain word.\<close>

lemma valid_device_shell_safe:
  "Validate c = Inr () \<Longrightarrow> set (luks_Device (LUKS c)) \<inter> set shell_special = {}"
  using luksDevicePattern_safe by (auto simp: Validate_iff)

lemma valid_device_shell_safe_witness:
  "set (luks_Device (LUKS (Default\<lparr>Host := ''h'', LUKS := \<lparr>luks_Device = ''/dev/sda3''\<rparr>\<rparr>))) \<inter> set shell_special = {}"
proof (rule valid_device_shell_safe)
  have "take 24 (ip_bits [10, 42, 0, 1]) = take 24 (ip_bits [10, 42, 0, 2])"
    by (simp add: ip_bits_def; code_simp)
  then have "validateTunnelTopology (Default\<lparr>Host := ''h'', LUKS := \<lparr>luks_Device = ''/dev/sda3''\<rparr>\<rparr>) = Inr ()"
    by (subst validateTunnelTopology_IPv4 [of _ "[10, 42, 0, 1]" 24 "[10, 42, 0, 2]" 32])
      (simp_all add: Default_def default_tunnel)
  moreover have "luksDevicePattern ''/dev/sda3''" by code_simp
  ultimately show "Validate (Default\<lparr>Host := ''h'', LUKS := \<lparr>luks_Device = ''/dev/sda3''\<rparr>\<rparr>) = Inr ()"
    by (simp add: Validate_iff) (simp add: Default_def port_ok_def)
qed

text \<open>Without \<open>output.dir\<close> the output directory is \<open>ubo-\<close> and the host, with colons turned
  into dashes and brackets left out, so it is one name that needs no quoting for IPv6 hosts;
  with \<open>output.dir\<close> it is that.\<close>

lemma OutputDir_cases:
  "OutputDir c =
     (if out_Dir (Output c) = [] then
        ''ubo-'' @ map (\<lambda>b. if b = CHR '':'' then CHR ''-'' else b) (filter (\<lambda>b. b \<noteq> CHR ''['' \<and> b \<noteq> CHR '']'') (Host c))
      else out_Dir (Output c))"
proof -
  have "replace_bytes host_byte h =
      map (\<lambda>b. if b = CHR '':'' then CHR ''-'' else b) (filter (\<lambda>b. b \<noteq> CHR ''['' \<and> b \<noteq> CHR '']'') h)" for h
    by (induction h) (simp_all add: host_byte_def)
  then show ?thesis by (simp add: OutputDir_def)
qed

end
