(* ===== verification/Config_Store.thy ===== *)
theory Config_Store
  imports Config Go_FS
begin

text \<open>
  \<open>Load\<close> of \<open>internal/config/config.go\<close> and \<open>Save\<close> of \<open>internal/config/toml.go\<close>: the configuration
  file on disk. \<open>Save\<close> writes a temporary file beside the target and renames it. The interface
  \<open>config_store\<close> is what the editor of \<open>internal/tui\<close> relies on.
\<close>

section \<open>Load and Save\<close>

datatype load_error = LoadRead string os_error | LoadParse string toml_error

definition Load :: "string \<Rightarrow> world \<Rightarrow> (load_error + config) \<times> world" where
  "Load path w =
     (let (r, w1) = os_ReadFile path w
      in (case r of
            Inl e \<Rightarrow> (Inl (LoadRead path e), w1)
          | Inr data \<Rightarrow> (wrapE (LoadParse path) (parseTOML data Default), w1)))"

text \<open>
  The body of \<open>Save\<close> after the temporary file exists; the deferred \<open>removeFile(tmpName)\<close> runs
  after it on every path.
\<close>

definition Save_body :: "string \<Rightarrow> string \<Rightarrow> string \<Rightarrow> unit os" where
  "Save_body data tmpName path w =
     (let (r1, w1) = file_Write tmpName data w
      in case r1 of
           Inl e \<Rightarrow> (Inl e, snd (file_Close tmpName w1))
         | Inr _ \<Rightarrow>
             let (r2, w2) = file_Chmod tmpName 0x1A4 w1
             in case r2 of
                  Inl e \<Rightarrow> (Inl e, snd (file_Close tmpName w2))
                | Inr _ \<Rightarrow>
                    let (r3, w3) = file_Close tmpName w2
                    in case r3 of
                         Inl e \<Rightarrow> (Inl e, w3)
                       | Inr _ \<Rightarrow> os_Rename tmpName path w3)"

definition Save :: "config \<Rightarrow> string \<Rightarrow> unit os" where
  "Save c path w =
     (let data = Marshal c;
          (r, w1) = os_CreateTemp (Dir path) ''.ubo-'' ''.toml.tmp'' w
      in case r of
           Inl e \<Rightarrow> (Inl e, w1)
         | Inr tmpName \<Rightarrow>
             let (res, w2) = Save_body data tmpName path w1
             in (res, snd (os_Remove tmpName w2)))"

section \<open>The temporary file is not the target\<close>

definition temp_name :: "string \<Rightarrow> nat \<Rightarrow> string" where
  "temp_name path n = Dir path @ slash # ''.ubo-'' @ show_nat n @ ''.toml.tmp''"

text \<open>A path whose last element does not end like a temporary file.\<close>

definition usable :: "string \<Rightarrow> bool" where
  "usable path \<longleftrightarrow> \<not> has_suffix (Clean path) ''.toml.tmp''"

lemma file_name_temp: "file_name (''.ubo-'' @ show_nat n @ ''.toml.tmp'')"
  using show_nat_digits [of n] by (auto simp: file_name_def)

lemma temp_name_other: "usable path \<Longrightarrow> Clean path \<noteq> Clean (temp_name path n)"
proof
  assume u: "usable path" and eq: "Clean path = Clean (temp_name path n)"
  obtain r where "Clean (temp_name path n) = r @ ''.ubo-'' @ show_nat n @ ''.toml.tmp''"
    unfolding temp_name_def using Clean_in_dir [OF file_name_temp] by blast
  then have "has_suffix (Clean path) ''.toml.tmp''"
    unfolding eq has_suffix_iff by (metis append.assoc)
  with u show False by (simp add: usable_def)
qed

section \<open>Every outcome of Save\<close>

lemma Save_body_effect:
  assumes "Save_body data tmp path w = (r, w')" "node_at w tmp = Some (File [] m)"
    "Clean path \<noteq> Clean tmp"
  shows "node_at w' path = (if isOk r then Some (File data 0x1A4) else node_at w path)"
  using assms
  by (auto simp: Save_body_def file_Write_def file_Chmod_def file_Close_def os_Rename_def Let_def
      written_part_def node_at_set_node split: if_splits option.splits node.splits fault.splits)

lemma Save_body_frame:
  assumes "Clean q \<noteq> Clean tmp" "Clean q \<noteq> Clean path"
  shows "node_at (snd (Save_body data tmp path w)) q = node_at w q"
  using assms
  by (auto simp: Save_body_def frames split: prod.splits sum.splits)
     (metis frames file_Close_node snd_conv)+

lemma CreateTemp_frame:
  "(\<And>n. Clean q \<noteq> Clean (temp_name path n)) \<Longrightarrow>
     node_at (snd (os_CreateTemp (Dir path) ''.ubo-'' ''.toml.tmp'' w)) q = node_at w q"
  unfolding os_CreateTemp_def temp_name_def by (rule createTempTry_frame)

lemma CreateTemp_ok:
  assumes "os_CreateTemp (Dir path) ''.ubo-'' ''.toml.tmp'' w = (Inr tmp, w1)"
  shows "\<exists>n. tmp = temp_name path n \<and> node_at w1 tmp = Some (File [] 0x180)"
  using createTempTry_ok [OF assms [unfolded os_CreateTemp_def]] by (auto simp: temp_name_def)

lemma Save_target:
  assumes "usable path" "Save c path w = (r, w')"
  shows "node_at w' path = (if isOk r then Some (File (Marshal c) 0x1A4) else node_at w path)"
proof -
  obtain rt w1 where t: "os_CreateTemp (Dir path) ''.ubo-'' ''.toml.tmp'' w = (rt, w1)"
    by fastforce
  have w1: "node_at w1 path = node_at w path"
    using CreateTemp_frame [of path path w] temp_name_other [OF assms(1)] t by simp
  show ?thesis
  proof (cases rt)
    case (Inl e)
    with assms(2) t w1 show ?thesis by (auto simp: Save_def)
  next
    case (Inr tmp)
    then obtain n where tmp: "tmp = temp_name path n" "node_at w1 tmp = Some (File [] 0x180)"
      using CreateTemp_ok t by blast
    then have ne: "Clean path \<noteq> Clean tmp" using temp_name_other assms(1) by simp
    obtain w2 where b: "Save_body (Marshal c) tmp path w1 = (r, w2)" "w' = snd (os_Remove tmp w2)"
      using assms(2) t Inr by (auto simp: Save_def split: prod.splits)
    then have "node_at w' path = node_at w2 path" using ne by (simp add: frames)
    with Save_body_effect [OF b(1) tmp(2) ne] w1 show ?thesis by simp
  qed
qed

lemma Save_frame:
  assumes "Clean q \<noteq> Clean path" "\<And>n. Clean q \<noteq> Clean (temp_name path n)"
  shows "node_at (snd (Save c path w)) q = node_at w q"
proof -
  obtain rt w1 where t: "os_CreateTemp (Dir path) ''.ubo-'' ''.toml.tmp'' w = (rt, w1)"
    by fastforce
  have w1: "node_at w1 q = node_at w q"
    using CreateTemp_frame [of q path w] assms(2) t by simp
  show ?thesis
  proof (cases rt)
    case (Inr tmp)
    then obtain n where "tmp = temp_name path n" using CreateTemp_ok t by blast
    with assms t Inr w1 show ?thesis
      by (auto simp: Save_def frames split: prod.split)
         (metis Save_body_frame snd_conv)
  qed (use t w1 in \<open>simp add: Save_def\<close>)
qed

text \<open>A save the system does not hinder succeeds, changes the target alone and leaves no temporary file.\<close>

lemma next_fault_NoFault: "faults w = (\<lambda>_. NoFault) \<Longrightarrow> next_fault w = NoFault"
  by (simp add: next_fault_def)

lemma is_dir_set_File:
  "is_dir (set_node p (Some (File a m)) w) d \<longleftrightarrow> always_there (Clean d) \<or> Clean d \<noteq> Clean p \<and> is_dir w d"
  by (auto simp: is_dir_def node_at_set_node)

lemma is_dir_node: "is_dir w d \<Longrightarrow> node_at w p = None \<Longrightarrow> always_there (Clean d) \<or> Clean d \<noteq> Clean p"
  by (auto simp: is_dir_def node_at_def split: option.splits)

lemma CreateTemp_NoFault:
  assumes "faults w = (\<lambda>_. NoFault)" "is_dir w (Dir path)"
    "node_at w (temp_name path (rand w (seed w))) = None"
  shows "os_CreateTemp (Dir path) ''.ubo-'' ''.toml.tmp'' w =
    (Inr (temp_name path (rand w (seed w))),
     set_node (temp_name path (rand w (seed w))) (Some (File [] 0x180)) (passed (w\<lparr>seed := Suc (seed w)\<rparr>)))"
proof -
  have "createTempTry (Suc 9999) (Dir path) ''.ubo-'' ''.toml.tmp'' w =
    (Inr (temp_name path (rand w (seed w))),
     set_node (temp_name path (rand w (seed w))) (Some (File [] 0x180)) (passed (w\<lparr>seed := Suc (seed w)\<rparr>)))"
    using assms next_fault_NoFault [OF assms(1)] by (simp only: createTempTry.simps Let_def temp_name_def) simp
  then show ?thesis by (simp add: os_CreateTemp_def)
qed

lemma Save_body_NoFault:
  assumes "faults w = (\<lambda>_. NoFault)" "node_at w tmp = Some (File [] m)" "Clean path \<noteq> Clean tmp"
    "is_dir w (Dir path)" "\<not> is_dir w path"
  shows "fst (Save_body data tmp path w) = Inr () \<and>
    faults (snd (Save_body data tmp path w)) = (\<lambda>_. NoFault) \<and>
    (\<forall>q. node_at (snd (Save_body data tmp path w)) q =
      (if Clean q = Clean path then Some (File data 0x1A4)
       else if Clean q = Clean tmp then None else node_at w q))"
proof -
  have "always_there (Clean (Dir path)) \<or> Clean (Dir path) \<noteq> Clean tmp"
    using assms(2,4) by (auto simp: is_dir_def node_at_def split: node.splits)
  moreover have "\<not> always_there (Clean path)" using assms(5) by (simp add: is_dir_def)
  ultimately show ?thesis
    using assms
    by (auto simp: Save_body_def file_Write_def file_Chmod_def file_Close_def os_Rename_def Let_def
        written_part_def next_fault_def node_at_set_node is_dir_set_File)
qed

lemma Save_NoFault:
  assumes "usable path" "faults w = (\<lambda>_. NoFault)" "is_dir w (Dir path)" "\<not> is_dir w path"
    "node_at w (temp_name path (rand w (seed w))) = None"
  shows "fst (Save c path w) = Inr () \<and>
    (\<forall>q. node_at (snd (Save c path w)) q =
      (if Clean q = Clean path then Some (File (Marshal c) 0x1A4) else node_at w q))"
proof -
  let ?tmp = "temp_name path (rand w (seed w))"
  define w1 where "w1 = set_node ?tmp (Some (File [] 0x180)) (passed (w\<lparr>seed := Suc (seed w)\<rparr>))"
  have ne: "Clean path \<noteq> Clean ?tmp" by (rule temp_name_other) (rule assms(1))
  have "always_there (Clean (Dir path)) \<or> Clean (Dir path) \<noteq> Clean ?tmp"
    using assms(3,5) by (rule is_dir_node)
  then have dirs: "is_dir w1 (Dir path)" "\<not> is_dir w1 path"
    using assms(3,4) by (auto simp: w1_def is_dir_set_File) (simp_all add: is_dir_def)
  have w1: "faults w1 = (\<lambda>_. NoFault)" "node_at w1 ?tmp = Some (File [] 0x180)"
    using assms(2) by (simp_all add: w1_def passed_def set_node_def node_at_def)
  obtain r w2 where body: "Save_body (Marshal c) ?tmp path w1 = (r, w2)" by fastforce
  from Save_body_NoFault [OF w1 ne dirs, of "Marshal c"]
  have r: "r = Inr ()" "faults w2 = (\<lambda>_. NoFault)"
    and w2: "node_at w2 q = (if Clean q = Clean path then Some (File (Marshal c) 0x1A4)
       else if Clean q = Clean ?tmp then None else node_at w1 q)" for q
    by (simp_all add: body)
  have "os_Remove ?tmp w2 = (Inl (NotExist ?tmp), passed w2)"
    using w2 [of ?tmp] ne r(2) by (simp add: os_Remove_def next_fault_def)
  then have "Save c path w = (Inr (), passed w2)"
    using CreateTemp_NoFault [OF assms(2,3,5)] body r(1) by (simp add: Save_def w1_def Let_def)
  moreover have "node_at w1 q = node_at w q" if "Clean q \<noteq> Clean ?tmp" for q
    using that by (simp add: w1_def)
  moreover have "node_at w q = None" if "Clean q = Clean ?tmp" for q
    using that assms(5) by (simp add: node_at_def)
  ultimately show ?thesis using w2 by simp
qed

lemma createTempTry_faults: "faults (snd (createTempTry k dir pre suf w)) = faults w"
  by (induction k arbitrary: w) (simp_all add: Let_def passed_def)

lemma Save_faults: "faults (snd (Save c path w)) = faults w"
proof -
  have [simp]: "faults (snd (os_Remove p v)) = faults v" "faults (snd (os_Rename p q v)) = faults v"
    "faults (snd (file_Write p d v)) = faults v" "faults (snd (file_Chmod p m v)) = faults v"
    "faults (snd (file_Close p v)) = faults v" for p q d m v
    by (simp_all add: os_Remove_def os_Rename_def file_Write_def file_Chmod_def file_Close_def Let_def
        split: option.split node.split)
  have "faults (snd (Save_body d t p v)) = faults v" for d t p v
    by (simp add: Save_body_def Let_def case_prod_beta split: sum.split)
  then show ?thesis
    by (simp add: Save_def os_CreateTemp_def Let_def case_prod_beta createTempTry_faults split: sum.split)
qed

section \<open>The configuration a path holds\<close>

definition stored :: "string \<Rightarrow> world \<Rightarrow> config option" where
  "stored path w =
     (case node_at w path of
        Some (File data m) \<Rightarrow> (case parseTOML data Default of Inl e \<Rightarrow> None | Inr c \<Rightarrow> Some c)
      | _ \<Rightarrow> None)"

lemma Load_stored: "Load path w = (Inr c, w') \<Longrightarrow> stored path w = Some c \<and> w' = passed w"
  by (auto simp: Load_def os_ReadFile_def stored_def split: if_splits option.splits node.splits)

lemma Load_world [simp]: "snd (Load path w) = passed w"
  by (simp add: Load_def os_ReadFile_def split: prod.split option.split node.split)

lemma stored_passed [simp]: "stored path (passed w) = stored path w"
  by (simp add: stored_def)

lemma stored_Load: "stored path w = Some c \<Longrightarrow> next_fault w = NoFault \<Longrightarrow> fst (Load path w) = Inr c"
  by (auto simp: Load_def stored_def os_ReadFile_def split: option.splits node.splits sum.splits)

lemma stored_storable: "stored path w = Some c \<Longrightarrow> storable c"
  by (auto simp: stored_def split: option.splits node.splits sum.splits intro: toml.dec_ok [OF storable_Default])

lemma Load_storable: "Load path w = (Inr c, w') \<Longrightarrow> storable c"
  using Load_stored stored_storable by blast

section \<open>The interface\<close>

locale config_store =
  fixes load :: "'p \<Rightarrow> 'w \<Rightarrow> ('e + 'c) \<times> 'w"
    and save :: "'c \<Rightarrow> 'p \<Rightarrow> 'w \<Rightarrow> ('f + unit) \<times> 'w"
    and holds :: "'p \<Rightarrow> 'w \<Rightarrow> 'c option"
    and ok :: "'c \<Rightarrow> bool"
    and path_ok :: "'p \<Rightarrow> bool"
  assumes load_holds: "load p w = (Inr c, w') \<Longrightarrow> holds p w = Some c"
    and load_keeps: "load p w = (r, w') \<Longrightarrow> holds p w' = holds p w"
    and holds_ok: "holds p w = Some c \<Longrightarrow> ok c"
    and save_ok: "path_ok p \<Longrightarrow> ok c \<Longrightarrow> save c p w = (Inr u, w') \<Longrightarrow> holds p w' = Some c"
    and save_err: "path_ok p \<Longrightarrow> save c p w = (Inl e, w') \<Longrightarrow> holds p w' = holds p w"
begin

text \<open>A save leaves the old value or the new one.\<close>

lemma save_cases:
  "path_ok p \<Longrightarrow> ok c \<Longrightarrow> save c p w = (r, w') \<Longrightarrow>
     holds p w' = (if isOk r then Some c else holds p w)"
  using save_ok save_err by (cases r) auto

text \<open>Read, change, write: the file holds the changed value or what was read.\<close>

lemma edit:
  assumes "path_ok p" "load p w = (Inr c, w1)" "ok c \<Longrightarrow> ok (f c)" "save (f c) p w1 = (r, w2)"
  shows "holds p w2 = Some (if isOk r then f c else c)"
proof -
  have "holds p w1 = Some c" using load_holds load_keeps assms(2) by metis
  moreover from this have "ok (f c)" using holds_ok assms(3) by blast
  ultimately show ?thesis using save_cases [OF assms(1) _ assms(4)] by simp
qed

end

lemma Save_stored:
  "usable path \<Longrightarrow> Save c path w = (r, w') \<Longrightarrow>
     stored path w' = (if isOk r then (if storable c then Some c else stored path w') else stored path w)"
  using Save_target [of path c w r w'] toml.dec_enc [of c Default] by (auto simp: stored_def)

interpretation disk: config_store Load Save stored storable usable
proof (unfold_locales, goal_cases)
  case (1 p w c w')
  then show ?case using Load_stored by simp
next
  case (2 p w r w')
  then show ?case using Load_world [of p w] by simp
next
  case (3 p w c)
  then show ?case by (rule stored_storable)
next
  case (4 p c w u w')
  then show ?case using Save_stored [of p c w "Inr u" w'] by simp
next
  case (5 p c w e w')
  then show ?case using Save_stored [of p c w "Inl e" w'] by simp
qed

section \<open>Properties\<close>

text \<open>C3: \<open>Save\<close> is atomic under every behaviour of the file system: refused calls, short writes,
  failed clean-up. After it, the target holds the whole new text with mode 0644 if it returned no
  error, and is what it was before if it returned one.\<close>

theorem Save_atomic:
  "usable path \<Longrightarrow>
     node_at (snd (Save c path w)) path =
       (if isOk (fst (Save c path w)) then Some (File (Marshal c) 0x1A4) else node_at w path)"
  by (rule Save_target) simp_all

lemma usable_ubo_toml: "usable ''ubo.toml''"
  by (simp add: usable_def; code_simp)

lemma Save_atomic_witness:
  "node_at (snd (Save Default ''ubo.toml'' clean_world)) ''ubo.toml'' =
     (if isOk (fst (Save Default ''ubo.toml'' clean_world)) then Some (File (Marshal Default) 0x1A4)
      else node_at clean_world ''ubo.toml'')"
  by (rule Save_atomic) (rule usable_ubo_toml)

text \<open>C40: When the system does not hinder it and the random name is free, \<open>Save\<close> succeeds, and
  the disk then differs from before in the target file alone: no temporary file is left.\<close>

theorem Save_succeeds:
  assumes "usable path" "faults w = (\<lambda>_. NoFault)" "is_dir w (Dir path)" "\<not> is_dir w path"
    "node_at w (temp_name path (rand w (seed w))) = None"
  shows "fst (Save c path w) = Inr () \<and>
    (\<forall>q. node_at (snd (Save c path w)) q =
      (if Clean q = Clean path then Some (File (Marshal c) 0x1A4) else node_at w q))"
  using assms by (rule Save_NoFault)

lemma clean_dirs: "is_dir clean_world (Dir ''ubo.toml'')" "\<not> is_dir clean_world ''ubo.toml''"
proof -
  have "Clean (Dir ''ubo.toml'') = ''.''" "Clean ''ubo.toml'' = ''ubo.toml''" by code_simp+
  then show "is_dir clean_world (Dir ''ubo.toml'')" "\<not> is_dir clean_world ''ubo.toml''"
    by (simp_all add: is_dir_def always_there_def split_char_no_sep)
qed

lemma Save_succeeds_witness:
  "fst (Save Default ''ubo.toml'' clean_world) = Inr () \<and>
   node_at (snd (Save Default ''ubo.toml'' clean_world)) ''keys'' = None"
proof -
  have "Clean ''keys'' \<noteq> Clean ''ubo.toml''" by code_simp
  then show ?thesis
    using Save_succeeds [OF usable_ubo_toml, of clean_world Default] by (simp add: clean_dirs)
qed

text \<open>An edit of the configuration file, that is \<open>Load\<close>, a change that keeps the value
  storable and \<open>Save\<close>, leaves a file that reads back as the changed configuration or, when
  \<open>Save\<close> reports an error, as the one that was read.\<close>

lemma edit_file:
  assumes "usable path" "Load path w = (Inr c, w1)" "storable (f c)" "Save (f c) path w1 = (r, w2)"
    "healthy w2"
  shows "fst (Load path w2) = Inr (if isOk r then f c else c)"
  using disk.edit [of path w c w1 f r w2] assms by (intro stored_Load) (simp_all add: healthy_next)

definition one_file_world :: world where
  "one_file_world = set_node ''ubo.toml'' (Some (File (Marshal Default) 0x1A4)) clean_world"

lemma edit_file_witness:
  "fst (Load ''ubo.toml'' (snd (Save (put_Host ''h'' Default) ''ubo.toml'' (passed one_file_world)))) =
     Inr (put_Host ''h'' Default)"
proof -
  let ?c = "put_Host ''h'' Default" and ?w = "passed one_file_world"
  have w: "faults ?w = (\<lambda>_. NoFault)" by (simp add: one_file_world_def)
  have "Clean (Dir ''ubo.toml'') = ''.''" "Clean ''ubo.toml'' = ''ubo.toml''" by code_simp+
  then have dirs: "is_dir ?w (Dir ''ubo.toml'')" "\<not> is_dir ?w ''ubo.toml''"
    by (simp_all add: is_dir_def one_file_world_def always_there_def split_char_no_sep)
  have free: "node_at ?w (temp_name ''ubo.toml'' (rand ?w (seed ?w))) = None"
    using temp_name_other [OF usable_ubo_toml, THEN not_sym]
    by (simp add: one_file_world_def node_at_set_node)
  have ok: "fst (Save ?c ''ubo.toml'' ?w) = Inr ()"
    using Save_NoFault [OF usable_ubo_toml w dirs free] by simp
  have load: "Load ''ubo.toml'' one_file_world = (Inr Default, ?w)"
    by (simp add: Load_def os_ReadFile_def one_file_world_def parseTOML_Marshal next_fault_def)
  have st: "storable ?c" by (rule storable_put) simp_all
  have h: "healthy (snd (Save ?c ''ubo.toml'' ?w))" using w by (simp add: healthy_def Save_faults)
  show ?thesis
    using edit_file [OF usable_ubo_toml load, of "\<lambda>_. ?c", OF st prod.collapse [symmetric] h] ok by simp
qed

end
