(* ===== verification/Tui.thy ===== *)
theory Tui
  imports System Config_Store
begin

text \<open>
  The interactive editor of the configuration file, \<open>internal/tui/tui.go\<close>. The prompts are left
  out; the answers are the lines of the terminal.
\<close>

section \<open>Fields\<close>

record fieldDef =
  fd_label :: string
  fd_isInt :: bool
  fd_getValue :: "config \<Rightarrow> string"
  fd_setValue :: "string \<Rightarrow> config \<Rightarrow> config"

text \<open>
  The number of \<open>strconv.Atoi\<close> when its error is ignored: 0 for text that is no number, the
  nearest limit for one out of range.
\<close>

definition atoi_value :: "string \<Rightarrow> int" where
  "atoi_value v =
     (case atoi v of
        Some n \<Rightarrow> n
      | None \<Rightarrow>
          let (neg, ds) = split_sign v
          in if ds = [] \<or> \<not> list_all is_digit ds then 0 else if neg then - (2 ^ 63) else 2 ^ 63 - 1)"

definition text_field :: "string \<Rightarrow> (config \<Rightarrow> string) \<Rightarrow> (string \<Rightarrow> config \<Rightarrow> config) \<Rightarrow> fieldDef" where
  "text_field label get put = \<lparr>fd_label = label, fd_isInt = False, fd_getValue = get, fd_setValue = put\<rparr>"

definition int_field :: "string \<Rightarrow> (config \<Rightarrow> int) \<Rightarrow> (int \<Rightarrow> config \<Rightarrow> config) \<Rightarrow> fieldDef" where
  "int_field label get put =
     \<lparr>fd_label = label, fd_isInt = True, fd_getValue = (\<lambda>c. itoa (get c)),
      fd_setValue = (\<lambda>v. put (atoi_value v))\<rparr>"

definition fields :: "fieldDef list" where
  "fields =
     [text_field ''Host'' Host put_Host,
      text_field ''SSH User'' (\<lambda>c. ssh_User (SSH c)) put_ssh_User,
      int_field ''SSH Port'' (\<lambda>c. ssh_Port (SSH c)) put_ssh_Port,
      text_field ''SSH Key Path'' (\<lambda>c. ssh_Key (SSH c)) put_ssh_Key,
      text_field ''SSH ProxyJump'' (\<lambda>c. ssh_ProxyJump (SSH c)) put_ssh_ProxyJump,
      int_field ''WireGuard Port'' (\<lambda>c. wg_Port (WireGuard c)) put_wg_Port,
      text_field ''WG Server IP'' (\<lambda>c. wg_ServerIP (WireGuard c)) put_wg_ServerIP,
      text_field ''WG Client IP'' (\<lambda>c. wg_ClientIP (WireGuard c)) put_wg_ClientIP,
      int_field ''Dropbear Port'' (\<lambda>c. db_Port (Dropbear c)) put_db_Port,
      text_field ''Output Dir'' (\<lambda>c. out_Dir (Output c)) put_out_Dir,
      text_field ''Network Interface'' (\<lambda>c. net_Interface (Network c)) put_net_Interface,
      text_field ''Network IP'' (\<lambda>c. net_IP (Network c)) put_net_IP,
      text_field ''LUKS Device'' (\<lambda>c. luks_Device (LUKS c)) put_luks_Device]"

section \<open>Editing\<close>

datatype tui_error =
    TuiRead
  | TuiLoad load_error
  | TuiInvalid config_error
  | TuiSave os_error

text \<open>Whether to ask again, and the configuration.\<close>

definition applyAnswer :: "config \<Rightarrow> fieldDef \<Rightarrow> string \<Rightarrow> bool \<Rightarrow> bool \<times> config" where
  "applyAnswer cfg fd answer eof =
     (if fd_isInt fd \<and> atoi answer = None then (\<not> eof, cfg) else (False, fd_setValue fd answer cfg))"

lemma readLine_shorter:
  "readLine t = ((l, e), t') \<Longrightarrow> e \<noteq> GotEOF \<Longrightarrow> e \<noteq> GotError \<Longrightarrow> length (t_lines t') < length (t_lines t)"
  by (auto simp: readLine_def split: list.splits if_splits)

lemma retry_not_eof: "applyAnswer cfg fd answer eof = (True, cfg') \<Longrightarrow> \<not> eof \<and> cfg' = cfg"
  by (auto simp: applyAnswer_def split: if_splits)

text \<open>Whether the input has ended, and the configuration.\<close>

function editField :: "fieldDef \<Rightarrow> config \<Rightarrow> (terminal, tui_error, bool \<times> config) step" where
  "editField fd cfg t =
     (case readLine t of ((line, end), t') \<Rightarrow>
        if end = GotError then (Inl TuiRead, t')
        else if trim_space line = [] then (Inr (end = GotEOF, cfg), t')
        else case applyAnswer cfg fd (trim_space line) (end = GotEOF) of (retry, cfg') \<Rightarrow>
          if retry then editField fd cfg' t' else (Inr (end = GotEOF, cfg'), t'))"
  by pat_completeness auto
termination
  by (relation "measure (\<lambda>(fd, cfg, t). length (t_lines t))")
    (auto dest!: retry_not_eof [OF sym] readLine_shorter [OF sym])

declare editField.simps [simp del]

primrec editFields :: "fieldDef list \<Rightarrow> config \<Rightarrow> (terminal, tui_error, config) step" where
  "editFields [] cfg = returnS cfg"
| "editFields (fd # fds) cfg =
     thenS (editField fd cfg) (\<lambda>(eof, cfg'). if eof then returnS cfg' else editFields fds cfg')"

definition edit :: "config \<Rightarrow> (terminal, tui_error, config) step" where
  "edit cfg = editFields fields cfg"

definition onTTY :: "(terminal, 'e, 'a) step \<Rightarrow> (system, 'e, 'a) step" where
  "onTTY m s = (let (r, t) = m (tty s) in (r, s\<lparr>tty := t\<rparr>))"

definition Run :: "string \<Rightarrow> (system, tui_error, unit) step" where
  "Run configPath s =
     (let (st, w) = os_Stat configPath (disk s); s1 = s\<lparr>disk := w\<rparr>
      in thenS (case st of
                  Inr _ \<Rightarrow> wrapS TuiLoad (onDisk (Load configPath))
                | Inl _ \<Rightarrow> returnS Default) (\<lambda>cfg0.
         thenS (onTTY (edit cfg0)) (\<lambda>cfg.
         thenS (liftS (wrapE TuiInvalid (Validate cfg))) (\<lambda>_.
         wrapS TuiSave (onDisk (Save cfg configPath))))) s1)"

section \<open>What a field takes from the input\<close>

declare dropWhile_eq_Nil_conv [simp del]

text \<open>A line the field asks again after, and the configuration after any other line.\<close>

definition rejects :: "fieldDef \<Rightarrow> string \<Rightarrow> bool" where
  "rejects fd line \<longleftrightarrow> fd_isInt fd \<and> trim_space line \<noteq> [] \<and> atoi (trim_space line) = None"

definition answered :: "fieldDef \<Rightarrow> string \<Rightarrow> config \<Rightarrow> config" where
  "answered fd line c =
     (if trim_space line = [] \<or> rejects fd line then c else fd_setValue fd (trim_space line) c)"

definition used_up :: "terminal \<Rightarrow> terminal" where
  "used_up t = t\<lparr>t_lines := [], t_rest := []\<rparr>"

lemma editField_lines:
  "editField fd c t =
     (case dropWhile (rejects fd) (t_lines t) of
        l # ls \<Rightarrow> (Inr (False, answered fd l c), t\<lparr>t_lines := ls\<rparr>)
      | [] \<Rightarrow>
          if t_broken t then (Inl TuiRead, used_up t)
          else (Inr (True, answered fd (t_rest t) c), used_up t))"
proof (induction fd c t rule: editField.induct)
  case (1 fd c t)
  show ?case
  proof (cases "t_lines t")
    case Nil
    then show ?thesis
      by (subst editField.simps)
        (auto simp: readLine_def used_up_def answered_def rejects_def applyAnswer_def)
  next
    case (Cons l ls)
    then have r: "readLine t = ((l, GotLine), t\<lparr>t_lines := ls\<rparr>)" by (simp add: readLine_def)
    show ?thesis
    proof (cases "rejects fd l")
      case True
      then have "editField fd c t = editField fd c (t\<lparr>t_lines := ls\<rparr>)"
        by (subst editField.simps) (simp add: r rejects_def applyAnswer_def)
      moreover have "editField fd c (t\<lparr>t_lines := ls\<rparr>) =
          (case dropWhile (rejects fd) ls of
            l # ls \<Rightarrow> (Inr (False, answered fd l c), t\<lparr>t_lines := ls\<rparr>)
          | [] \<Rightarrow> if t_broken t then (Inl TuiRead, used_up t)
              else (Inr (True, answered fd (t_rest t) c), used_up t))"
        using 1 [OF r [symmetric]] True
        by (simp add: rejects_def [of fd l] applyAnswer_def used_up_def split: list.split)
      ultimately show ?thesis using True Cons by simp
    next
      case False
      then show ?thesis
        by (subst editField.simps) (simp add: r Cons answered_def, auto simp: rejects_def applyAnswer_def)
    qed
  qed
qed

text \<open>The whole editor: field after field, each skips the lines it rejects and takes one.\<close>

fun answer_lines :: "fieldDef list \<Rightarrow> string list \<Rightarrow> string \<Rightarrow> config \<Rightarrow> config" where
  "answer_lines [] ls rest c = c"
| "answer_lines (fd # fds) ls rest c =
     (case dropWhile (rejects fd) ls of
        l # ls' \<Rightarrow> answer_lines fds ls' rest (answered fd l c)
      | [] \<Rightarrow> answered fd rest c)"

lemma editFields_lines:
  "\<not> t_broken t \<Longrightarrow> fst (editFields fds c t) = Inr (answer_lines fds (t_lines t) (t_rest t) c)"
  by (induction fds arbitrary: c t)
    (auto simp: editField_lines thenS_def split: list.split)

lemma editFields_result:
  "editFields fds c t = (Inr c', t') \<Longrightarrow> c' = answer_lines fds (t_lines t) (t_rest t) c"
proof (induction fds arbitrary: c t)
  case (Cons fd fds)
  show ?case
  proof (cases "dropWhile (rejects fd) (t_lines t)")
    case Nil
    with Cons.prems show ?thesis by (auto simp: editField_lines thenS_def split: if_splits)
  next
    case (Cons l ls)
    then have "editFields fds (answered fd l c) (t\<lparr>t_lines := ls\<rparr>) = (Inr c', t')"
      using Cons.prems by (simp add: editField_lines thenS_def)
    from Cons.IH [OF this] Cons show ?thesis by simp
  qed
qed simp

section \<open>Every edited configuration can be stored\<close>

lemma int64_atoi_value: "int64 (atoi_value v)"
  by (auto simp: atoi_value_def int64_def Let_def split: option.split prod.split dest!: atoi_int64 [unfolded int64_def])

lemma fields_storable:
  "fd \<in> set fields \<Longrightarrow> storable c \<Longrightarrow> nl \<notin> set v \<Longrightarrow> storable (fd_setValue fd v c)"
  by (auto simp: fields_def text_field_def int_field_def intro!: storable_put int64_atoi_value)

definition terminal_ok :: "terminal \<Rightarrow> bool" where
  "terminal_ok t \<longleftrightarrow> (\<forall>l\<in>set (t_lines t). nl \<notin> set l) \<and> nl \<notin> set (t_rest t)"

lemma answered_storable:
  "fd \<in> set fields \<Longrightarrow> storable c \<Longrightarrow> nl \<notin> set l \<Longrightarrow> storable (answered fd l c)"
  using set_trim_space [of l] by (auto simp: answered_def intro!: fields_storable)

lemma editField_storable:
  assumes "fd \<in> set fields" "storable c" "terminal_ok t" "editField fd c t = (Inr (eof, c'), t')"
  shows "storable c' \<and> terminal_ok t'"
proof (cases "dropWhile (rejects fd) (t_lines t)")
  case Nil
  then have "c' = answered fd (t_rest t) c" "t' = used_up t"
    using assms(4) by (auto simp: editField_lines split: if_splits)
  with assms show ?thesis by (auto simp: terminal_ok_def used_up_def intro: answered_storable)
next
  case (Cons l ls)
  then have "set (l # ls) \<subseteq> set (t_lines t)" by (metis set_dropWhileD subsetI)
  moreover have "c' = answered fd l c" "t' = t\<lparr>t_lines := ls\<rparr>"
    using Cons assms(4) by (auto simp: editField_lines)
  ultimately show ?thesis using assms by (auto simp: terminal_ok_def intro!: answered_storable)
qed

lemma editFields_storable:
  "set fds \<subseteq> set fields \<Longrightarrow> storable c \<Longrightarrow> terminal_ok t \<Longrightarrow> editFields fds c t = (Inr c', t') \<Longrightarrow> storable c'"
proof (induction fds arbitrary: c t)
  case (Cons fd fds)
  from Cons.prems(4) obtain eof c1 t1 where f: "editField fd c t = (Inr (eof, c1), t1)"
    and r: "(if eof then returnS c1 else editFields fds c1) t1 = (Inr c', t')"
    by (auto simp: res_simps)
  from editField_storable [OF _ Cons.prems(2,3) f] Cons.prems(1) have "storable c1" "terminal_ok t1" by auto
  with Cons.IH [of c1 t1] r Cons.prems(1) show ?case by (auto split: if_splits)
qed simp

section \<open>An input\<close>

text \<open>Three answers: a host, a blank line, and a port on the second try.\<close>

definition sample_terminal :: terminal where
  "sample_terminal = \<lparr>t_lines = [''h'', [], ''x'', ''22''], t_rest = [], t_broken = False\<rparr>"

lemma sample_lines:
  "answer_lines fields (t_lines sample_terminal) (t_rest sample_terminal) Default = put_ssh_Port 22 (put_Host ''h'' Default)"
proof -
  have "trimmed ''h''" "trimmed ''x''" "trimmed ''22''"
    by (rule trimmed_plain; simp add: plain_def ascii_spaces_def)+
  moreover have "atoi ''x'' = None" "atoi ''22'' = Some 22" by code_simp+
  ultimately show ?thesis
    by (simp add: sample_terminal_def fields_def text_field_def int_field_def rejects_def answered_def atoi_value_def)
qed

definition sample_system :: system where
  "sample_system =
     \<lparr>disk = clean_world, calls = [], ssh_reply = (\<lambda>n q. \<lparr>p_stdout = [], p_stderr = [], p_err = None\<rparr>),
      tty = sample_terminal, on_path = (\<lambda>p. True)\<rparr>"

section \<open>Properties\<close>

text \<open>C28: The editor's loops are a walk over the lines: each field skips the lines that are no number
  where it wants one, takes the next line, trimmed, and keeps its value on a blank one; when the
  lines end, the text after the last newline answers the field at hand, and the fields after it
  keep their values. So the editor ends on every input, and blank lines change nothing.\<close>

theorem edit_walks_lines:
  assumes "\<not> t_broken t"
  shows "fst (edit c t) = Inr (answer_lines fields (t_lines t) (t_rest t) c) \<and>
    (list_all (\<lambda>l. trim_space l = []) (t_rest t # t_lines t) \<longrightarrow> fst (edit c t) = Inr c)"
proof -
  have "answer_lines fds ls rest c = c" if "list_all (\<lambda>l. trim_space l = []) (rest # ls)" for fds ls rest
    using that by (induction fds ls rest c rule: answer_lines.induct)
      (auto simp: rejects_def answered_def list_all_iff dest: set_dropWhileD split: list.split)
  then show ?thesis using editFields_lines [OF assms] by (auto simp: edit_def)
qed

lemma edit_walks_lines_witness:
  "fst (edit Default sample_terminal) = Inr (put_ssh_Port 22 (put_Host ''h'' Default))"
  using edit_walks_lines [of sample_terminal Default] sample_lines by (simp add: sample_terminal_def)

text \<open>C27: Running the editor is safe for the file, whatever is typed and whatever the disk does. When it
  reports success, the file holds, and reads back as, exactly the configuration that the typed
  lines make of the one it started from: field by field in the order of the editor, as
  \<open>answer_lines\<close> says, from the configuration in the file, or from the defaults when the file
  cannot be found; and that configuration is valid. When it reports an error, the file is what it
  was.\<close>

theorem tui_Run_safe:
  assumes "usable path" "terminal_ok (tty s)" "Run path s = (r, s')"
  shows "(r = Inr () \<longrightarrow>
      (\<exists>c0. (case fst (os_Stat path (disk s)) of Inl e \<Rightarrow> c0 = Default | Inr u \<Rightarrow> stored path (disk s) = Some c0) \<and>
         stored path (disk s') = Some (answer_lines fields (t_lines (tty s)) (t_rest (tty s)) c0) \<and>
         Validate (answer_lines fields (t_lines (tty s)) (t_rest (tty s)) c0) = Inr ())) \<and>
    (r \<noteq> Inr () \<longrightarrow> node_at (disk s') path = node_at (disk s) path)"
proof -
  obtain st w where st: "os_Stat path (disk s) = (st, w)" by (cases "os_Stat path (disk s)")
  then have w: "w = passed (disk s)" using ReadFile_world(2) [of path "disk s"] by simp
  let ?s1 = "s\<lparr>disk := w\<rparr>"
  let ?load = "case st of Inr _ \<Rightarrow> wrapS TuiLoad (onDisk (Load path)) | Inl _ \<Rightarrow> returnS Default"
  obtain r0 s2 where load: "?load ?s1 = (r0, s2)" by (cases "?load ?s1")
  have s2: "tty s2 = tty s" "node_at (disk s2) path = node_at (disk s) path"
    and c0: "r0 = Inr c \<Longrightarrow> storable c" for c
    using load w by (auto simp: wrapS_def onDisk_def split: sum.splits prod.splits dest: Load_storable)
      (metis Load_world snd_conv world_simps(1))+
  have from_file: "case fst (os_Stat path (disk s)) of Inl e \<Rightarrow> c = Default | Inr u \<Rightarrow> stored path (disk s) = Some c"
    if "r0 = Inr c" for c
    using load w that st
    by (auto simp: wrapS_def onDisk_def split: sum.splits prod.splits dest: Load_stored)
  show ?thesis
  proof (cases r0)
    case (Inl e)
    with load have "Run path s = (Inl e, s2)" by (simp add: Run_def st thenS_def)
    with assms(3) s2 show ?thesis by auto
  next
    case (Inr c)
    obtain r1 t1 where ed: "edit c (tty s2) = (r1, t1)" by (cases "edit c (tty s2)")
    let ?s3 = "s2\<lparr>tty := t1\<rparr>"
    have run: "Run path s =
        thenS (liftS r1) (\<lambda>cfg. thenS (liftS (wrapE TuiInvalid (Validate cfg))) (\<lambda>_.
          wrapS TuiSave (onDisk (Save cfg path)))) ?s3"
      using load by (simp add: Run_def st Inr thenS_def onTTY_def ed)
    show ?thesis
    proof (cases "\<exists>c'. r1 = Inr c' \<and> Validate c' = Inr ()")
      case True
      then obtain c' where c': "r1 = Inr c'" "Validate c' = Inr ()" by blast
      have result: "c' = answer_lines fields (t_lines (tty s)) (t_rest (tty s)) c"
        using editFields_result [of fields c "tty s" c' t1] ed c'(1) s2(1) by (simp add: edit_def)
      have "storable c'"
        using editFields_storable [OF subset_refl c0 [OF Inr]] assms(2) s2(1) ed c'(1) by (simp add: edit_def)
      obtain r2 w2 where sv: "Save c' path (disk s2) = (r2, w2)" by (cases "Save c' path (disk s2)")
      have "Run path s = (wrapE TuiSave r2, ?s3\<lparr>disk := w2\<rparr>)"
        using run c' sv by (simp add: thenS_def wrapS_def onDisk_def)
      then have r: "r = wrapE TuiSave r2" and s': "disk s' = w2" using assms(3) by auto
      show ?thesis
      proof (cases r2)
        case (Inl e)
        with r s' s2(2) Save_target [OF assms(1) sv] show ?thesis by simp
      next
        case (Inr u)
        have "stored path (disk s') = Some c'"
          using Save_stored [OF assms(1) sv] Inr s' \<open>storable c'\<close> by simp
        with r Inr c'(2) from_file [OF \<open>r0 = Inr c\<close>] show ?thesis unfolding result by auto
      qed
    next
      case False
      then have "r \<noteq> Inr () \<and> s' = ?s3"
        using run assms(3) by (cases r1) (auto simp: thenS_def split: sum.splits)
      with s2(2) show ?thesis by simp
    qed
  qed
qed

lemma sample_run: "\<exists>s'. Run ''ubo.toml'' sample_system = (Inr (), s')"
proof -
  let ?c = "put_ssh_Port 22 (put_Host ''h'' Default)" and ?w = "passed clean_world"
  have v: "Validate ?c = Inr ()"
    using Validate_default_host by (simp add: put_defs Default_def)
  have st: "os_Stat ''ubo.toml'' clean_world = (Inl (NotExist ''ubo.toml''), ?w)"
    using clean_dirs(2) by (simp add: os_Stat_def)
  have dirs: "is_dir ?w (Dir ''ubo.toml'')" "\<not> is_dir ?w ''ubo.toml''" using clean_dirs by simp_all
  have sv: "fst (Save ?c ''ubo.toml'' ?w) = Inr ()"
    using Save_NoFault [OF usable_ubo_toml _ dirs, of ?c] by simp
  obtain t1 where ed: "edit Default sample_terminal = (Inr ?c, t1)"
    using editFields_lines [of sample_terminal fields Default] sample_lines
    by (cases "edit Default sample_terminal") (simp add: edit_def sample_terminal_def)
  show ?thesis
    using v sv by (simp add: Run_def sample_system_def st thenS_def onTTY_def ed wrapS_def onDisk_def case_prod_beta)
qed

lemma tui_Run_safe_witness:
  "\<exists>s'. Run ''ubo.toml'' sample_system = (Inr (), s') \<and>
     stored ''ubo.toml'' (disk s') = Some (put_ssh_Port 22 (put_Host ''h'' Default))"
proof -
  obtain s' where r: "Run ''ubo.toml'' sample_system = (Inr (), s')" using sample_run by blast
  have "terminal_ok (tty sample_system)"
    by (simp add: sample_system_def sample_terminal_def terminal_ok_def)
  from tui_Run_safe [OF usable_ubo_toml this r] obtain c0 where
    "case fst (os_Stat ''ubo.toml'' (disk sample_system)) of Inl e \<Rightarrow> c0 = Default
       | Inr u \<Rightarrow> stored ''ubo.toml'' (disk sample_system) = Some c0"
    "stored ''ubo.toml'' (disk s') =
       Some (answer_lines fields (t_lines (tty sample_system)) (t_rest (tty sample_system)) c0)"
    by blast
  moreover have "fst (os_Stat ''ubo.toml'' (disk sample_system)) = Inl (NotExist ''ubo.toml'')"
    "tty sample_system = sample_terminal"
    using clean_dirs(2) by (simp_all add: sample_system_def os_Stat_def)
  ultimately show ?thesis using r sample_lines by (intro exI [of _ s']) simp
qed

end
