(* ===== verification/Cli_Input.thy ===== *)
theory Cli_Input
  imports Tui
begin

text \<open>
  What the user gives to the commands of \<open>main.go\<close>: the arguments, with the flag parser of Go's
  package \<open>flag\<close> for the one flag the program defines, and the answers to the prompts. The text of
  the prompts is left out.
\<close>

section \<open>Arguments\<close>

definition orDefault :: "string \<Rightarrow> string \<Rightarrow> string" where
  "orDefault s def = (if s = [] then def else s)"

definition isFlag :: "string \<Rightarrow> bool" where
  "isFlag s \<longleftrightarrow> s \<noteq> [] \<and> hd s = CHR ''-''"

definition isHelpSubcommand :: "string \<Rightarrow> bool" where
  "isHelpSubcommand sub \<longleftrightarrow> sub = ''help'' \<or> sub = ''--help'' \<or> sub = ''-h''"

definition parseSubcommand :: "string list \<Rightarrow> string \<times> string list" where
  "parseSubcommand args =
     (case args of
        [] \<Rightarrow> (''run'', [])
      | a # rest \<Rightarrow>
          if isFlag a then (''run'', args)
          else if a = ''unlock'' \<and> rest \<noteq> [] \<and> hd rest = ''change'' then (''unlock-change'', tl rest)
          else (a, rest))"

datatype flag_error = ErrHelp | BadFlag string | NoSuchFlag string | NeedsArgument string

definition unknownFlag :: "string \<Rightarrow> flag_error" where
  "unknownFlag name = (if name = ''help'' \<or> name = ''h'' then ErrHelp else NoSuchFlag name)"

text \<open>
  \<open>FlagSet.Parse\<close> with the flag \<open>config\<close>: it stops at the first argument that is not a flag and
  after a double dash; the last setting counts.
\<close>

fun parseFlags :: "string \<Rightarrow> string list \<Rightarrow> flag_error + string \<times> string list" where
  "parseFlags cfgPath [] = Inr (cfgPath, [])"
| "parseFlags cfgPath (s # rest) =
     (if length s < 2 \<or> hd s \<noteq> CHR ''-'' then Inr (cfgPath, s # rest)
      else if s = ''--'' then Inr (cfgPath, rest)
      else let name = drop (if hd (tl s) = CHR ''-'' then 2 else 1) s
           in if hd name = CHR ''-'' \<or> hd name = CHR ''='' then Inl (BadFlag s)
              else case cut_byte name CHR ''='' of
                     Some (n, value) \<Rightarrow>
                       if n = ''config'' then parseFlags value rest else Inl (unknownFlag n)
                   | None \<Rightarrow>
                       if name \<noteq> ''config'' then Inl (unknownFlag name)
                       else (case rest of
                               [] \<Rightarrow> Inl (NeedsArgument name)
                             | value # rest' \<Rightarrow> parseFlags value rest'))"

section \<open>Prompts\<close>

datatype prompt_error =
    InputStopped read_end
  | InvalidSSHPort string
  | SelectionStopped read_end
  | InvalidSelection string nat

text \<open>
  \<open>ReadString\<close> returns an error also when the last line has no newline; what was typed is dropped
  then.
\<close>

function promptRequired :: "(terminal, prompt_error, string) step" where
  "promptRequired t =
     (case readLine t of ((line, end), t') \<Rightarrow>
        if end \<noteq> GotLine then (Inl (InputStopped end), t')
        else if trim_space line \<noteq> [] then (Inr (trim_space line), t')
        else promptRequired t')"
  by pat_completeness auto
termination
  by (relation "measure (\<lambda>t. length (t_lines t))") (auto dest!: readLine_shorter [OF sym])

declare promptRequired.simps [simp del]

definition promptLine :: "string \<Rightarrow> (terminal, prompt_error, string) step" where
  "promptLine def t =
     (case readLine t of ((line, end), t') \<Rightarrow>
        if end \<noteq> GotLine then (Inl (InputStopped end), t')
        else (Inr (if trim_space line \<noteq> [] then trim_space line else def), t'))"

definition bootstrapConfig :: "(terminal, prompt_error, config) step" where
  "bootstrapConfig =
     thenS promptRequired (\<lambda>host.
     let cfg1 = put_Host host Default
     in thenS (promptLine (ssh_User (SSH cfg1))) (\<lambda>user.
     let cfg2 = put_ssh_User user cfg1
     in thenS (promptLine (itoa (ssh_Port (SSH cfg2)))) (\<lambda>portStr.
     thenS (liftS (case sscanf_d portStr of None \<Rightarrow> Inl (InvalidSSHPort portStr) | Some n \<Rightarrow> Inr n)) (\<lambda>port.
     let cfg3 = put_ssh_Port port cfg2
     in thenS (promptLine []) (\<lambda>key. returnS (put_ssh_Key key cfg3))))))"

definition promptSelectConfig :: "string list \<Rightarrow> (terminal, prompt_error, string) step" where
  "promptSelectConfig configs t =
     (case readLine t of ((line, end), t') \<Rightarrow>
        if end \<noteq> GotLine then (Inl (SelectionStopped end), t')
        else let s = (if trim_space line = [] then ''1'' else trim_space line)
             in case sscanf_d s of
                  None \<Rightarrow> (Inl (InvalidSelection s (length configs)), t')
                | Some idx \<Rightarrow>
                    if idx < 1 \<or> idx > int (length configs)
                    then (Inl (InvalidSelection s (length configs)), t')
                    else (Inr (configs ! nat (idx - 1)), t'))"

section \<open>What the prompts return\<close>

lemma promptRequired_lines:
  "promptRequired t =
     (case dropWhile (\<lambda>l. trim_space l = []) (t_lines t) of
        l # ls \<Rightarrow> (Inr (trim_space l), t\<lparr>t_lines := ls\<rparr>)
      | [] \<Rightarrow> (Inl (InputStopped (if t_broken t then GotError else GotEOF)), used_up t))"
proof (induction t rule: promptRequired.induct)
  case (1 t)
  show ?case
  proof (cases "t_lines t")
    case Nil
    then show ?thesis by (subst promptRequired.simps) (simp add: readLine_def used_up_def)
  next
    case (Cons l ls)
    then have r: "readLine t = ((l, GotLine), t\<lparr>t_lines := ls\<rparr>)" by (simp add: readLine_def)
    show ?thesis
    proof (cases "trim_space l = []")
      case True
      then have "promptRequired t = promptRequired (t\<lparr>t_lines := ls\<rparr>)"
        by (subst promptRequired.simps) (simp add: r)
      with 1 [OF r [symmetric]] True Cons show ?thesis by (simp add: used_up_def split: list.split)
    next
      case False
      then show ?thesis by (subst promptRequired.simps) (simp add: r Cons)
    qed
  qed
qed

lemma promptLine_ok:
  "promptLine def t = (Inr v, t') \<longleftrightarrow>
     (\<exists>l ls. t_lines t = l # ls \<and> t' = t\<lparr>t_lines := ls\<rparr> \<and>
        v = (if trim_space l \<noteq> [] then trim_space l else def))"
  by (auto simp: promptLine_def readLine_def split: list.splits if_splits)

text \<open>A port with something else behind it passes; the number in front counts.\<close>

lemma sscanf_d_trailing: "sscanf_d ''22x'' = Some 22" "sscanf_d ''x22'' = None" "sscanf_d ''+22'' = Some 22"
  by code_simp+

section \<open>Properties\<close>

text \<open>C30: The configuration made from the prompts is exactly what was answered. The host is the first
  line that is not blank, trimmed; the next three lines give the user, the port and the key, each
  trimmed, with \<open>root\<close>, 22 and no key for a blank one; everything else is as in the defaults, and
  the lines after that are left. The port is the number its line begins with. The configuration is
  one the file format can hold, so it can be saved and read back.\<close>

theorem bootstrapped_config:
  assumes "bootstrapConfig t = (Inr c, t')" "terminal_ok t"
  shows "(\<exists>blanks host user port key rest n.
      t_lines t = blanks @ [host, user, port, key] @ rest \<and> t' = t\<lparr>t_lines := rest\<rparr> \<and>
      list_all (\<lambda>l. trim_space l = []) blanks \<and> trim_space host \<noteq> [] \<and>
      sscanf_d (if trim_space port = [] then ''22'' else trim_space port) = Some n \<and>
      c = Default\<lparr>Host := trim_space host,
                  SSH := (SSH Default)\<lparr>ssh_User := (if trim_space user = [] then ''root'' else trim_space user),
                                       ssh_Port := n, ssh_Key := trim_space key\<rparr>\<rparr>) \<and>
    storable c \<and> parseTOML (Marshal c) Default = Inr c"
proof -
  from assms(1) obtain host user ps port key t1 t2 t3 where
    h: "promptRequired t = (Inr host, t1)" and u: "promptLine ''root'' t1 = (Inr user, t2)"
    and p: "promptLine (itoa 22) t2 = (Inr ps, t3)" "sscanf_d ps = Some port"
    and k: "promptLine [] t3 = (Inr key, t')"
    and c: "c = put_ssh_Key key (put_ssh_Port port (put_ssh_User user (put_Host host Default)))"
    unfolding bootstrapConfig_def
    by (auto simp: res_simps Let_def put_Host_def put_ssh_User_def Default_def split: option.splits)
  from h obtain l ls where l: "dropWhile (\<lambda>l. trim_space l = []) (t_lines t) = l # ls" "host = trim_space l"
    "t1 = t\<lparr>t_lines := ls\<rparr>"
    by (auto simp: promptRequired_lines split: list.splits if_splits)
  let ?blanks = "takeWhile (\<lambda>l. trim_space l = []) (t_lines t)"
  have lines: "t_lines t = ?blanks @ l # ls" by (metis l(1) takeWhile_dropWhile_id)
  have ne: "trim_space l \<noteq> []" using hd_dropWhile [of "\<lambda>l. trim_space l = []" "t_lines t"] l(1) by simp
  from u l(3) obtain lu ls2 where lu: "ls = lu # ls2" "t2 = t\<lparr>t_lines := ls2\<rparr>"
    "user = (if trim_space lu \<noteq> [] then trim_space lu else ''root'')" by (auto simp: promptLine_ok)
  have i22: "itoa 22 = ''22''" by code_simp
  from p(1) lu(2) obtain lp ls3 where lp: "ls2 = lp # ls3" "t3 = t\<lparr>t_lines := ls3\<rparr>"
    "ps = (if trim_space lp \<noteq> [] then trim_space lp else ''22'')" by (auto simp: promptLine_ok i22)
  from k lp(2) obtain lk rest where lk: "ls3 = lk # rest" "t' = t\<lparr>t_lines := rest\<rparr>" "key = trim_space lk"
    by (auto simp: promptLine_ok)
  have all: "t_lines t = ?blanks @ [l, lu, lp, lk] @ rest" using lines lu(1) lp(1) lk(1) by simp
  have trim: "nl \<notin> set (trim_space x)" if "x \<in> set [l, lu, lp, lk]" for x
  proof -
    have "x \<in> set (t_lines t)" using that by (subst all) auto
    then show ?thesis using assms(2) set_trim_space [of x] by (auto simp: terminal_ok_def)
  qed
  have "nl \<notin> set host" "nl \<notin> set user" "nl \<notin> set key"
    using trim by (auto simp: l(2) lu(3) lk(3))
  with sscanf_d_int64 [OF p(2)] have stor: "storable c" unfolding c by (intro storable_put) simp_all
  have "list_all (\<lambda>l. trim_space l = []) ?blanks" by (auto simp: list_all_iff dest: set_takeWhileD)
  moreover have "c = Default\<lparr>Host := trim_space l,
      SSH := (SSH Default)\<lparr>ssh_User := (if trim_space lu = [] then ''root'' else trim_space lu),
        ssh_Port := port, ssh_Key := trim_space lk\<rparr>\<rparr>"
    by (simp add: c l(2) lu(3) lk(3) put_defs Default_def)
  moreover have "sscanf_d (if trim_space lp = [] then ''22'' else trim_space lp) = Some port"
    using p(2) by (simp add: lp(3) split: if_splits)
  ultimately have "\<exists>blanks host user port key rest n.
      t_lines t = blanks @ [host, user, port, key] @ rest \<and> t' = t\<lparr>t_lines := rest\<rparr> \<and>
      list_all (\<lambda>l. trim_space l = []) blanks \<and> trim_space host \<noteq> [] \<and>
      sscanf_d (if trim_space port = [] then ''22'' else trim_space port) = Some n \<and>
      c = Default\<lparr>Host := trim_space host,
                  SSH := (SSH Default)\<lparr>ssh_User := (if trim_space user = [] then ''root'' else trim_space user),
                                       ssh_Port := n, ssh_Key := trim_space key\<rparr>\<rparr>"
    using all lk(2) ne
    by (intro exI [of _ ?blanks] exI [of _ l] exI [of _ lu] exI [of _ lp] exI [of _ lk] exI [of _ rest] exI [of _ port] conjI)
  then show ?thesis using stor toml.dec_enc [OF stor, of Default] by blast
qed

definition answers :: terminal where
  "answers = \<lparr>t_lines = [[], ''h'', [], ''2222'', []], t_rest = [], t_broken = False\<rparr>"

lemma bootstrapped_config_witness:
  "\<exists>c t'. bootstrapConfig answers = (Inr c, t') \<and> storable c \<and> Host c = ''h'' \<and> ssh_Port (SSH c) = 2222"
proof -
  have "fst (bootstrapConfig answers) = Inr (put_ssh_Key [] (put_ssh_Port 2222 (put_ssh_User ''root'' (put_Host ''h'' Default))))"
    by code_simp
  then obtain t' where b: "bootstrapConfig answers =
      (Inr (put_ssh_Key [] (put_ssh_Port 2222 (put_ssh_User ''root'' (put_Host ''h'' Default)))), t')"
    by (metis prod.collapse)
  have "terminal_ok answers" by (simp add: terminal_ok_def answers_def)
  from bootstrapped_config [OF b this] have
    "storable (put_ssh_Key [] (put_ssh_Port 2222 (put_ssh_User ''root'' (put_Host ''h'' Default))))" by blast
  with b show ?thesis
    by (simp add: put_ssh_Key_def put_ssh_Port_def put_ssh_User_def put_Host_def)
qed

end
