(* ===== verification/Setup_Text.thy ===== *)
theory Setup_Text
  imports Go_Net_Text Go_Numbers
begin

text \<open>
  How the setup reads the answers of the remote host: the four regular expressions of
  \<open>internal/setup/setup.go\<close> as functions on text, with the choices of Go's package \<open>regexp\<close>
  (the leftmost match, then the longest or, for a lazy operator, the shortest), and the
  functions that use them. The classes of the expressions are of ASCII characters, and an ASCII
  byte is never part of a longer rune, so the text is matched byte by byte.
\<close>

section \<open>Ranges of characters\<close>

type_synonym charRange = "char \<times> char"

definition in_range :: "char \<Rightarrow> charRange \<Rightarrow> bool" where
  "in_range c r \<longleftrightarrow> of_char (fst r) \<le> (of_char c :: nat) \<and> (of_char c :: nat) \<le> of_char (snd r)"

section \<open>Addresses in the output of ip addr\<close>

text \<open>Digits, then for each separator the separator and digits, as many as there are.\<close>

fun dotted_run :: "char list \<Rightarrow> string \<Rightarrow> (string \<times> string) option" where
  "dotted_run [] s =
     (if takeWhile is_digit s = [] then None else Some (takeWhile is_digit s, dropWhile is_digit s))"
| "dotted_run (c # cs) s =
     (if takeWhile is_digit s = [] then None
      else case dropWhile is_digit s of
             [] \<Rightarrow> None
           | d # r \<Rightarrow>
               if d = c then map_option (\<lambda>(m, r'). (takeWhile is_digit s @ c # m, r')) (dotted_run cs r)
               else None)"

text \<open>\<open>inet (\d+\.\d+\.\d+\.\d+/\d+)\<close> at the start of the text: the group and the text after it.\<close>

definition inet_at :: "string \<Rightarrow> (string \<times> string) option" where
  "inet_at s = (if has_prefix s ''inet '' then dotted_run ''.../'' (drop 5 s) else None)"

lemma dotted_run_parts: "dotted_run cs s = Some (m, r) \<Longrightarrow> s = m @ r"
  by (induction cs s arbitrary: m r rule: dotted_run.induct)
     (auto split: if_splits list.splits, metis takeWhile_dropWhile_id)

lemma inet_at_Some:
  "inet_at s = Some (m, r) \<Longrightarrow> s = ''inet '' @ m @ r \<and> dotted_run ''.../'' (drop 5 s) = Some (m, r)"
proof -
  assume h: "inet_at s = Some (m, r)"
  then have d: "dotted_run ''.../'' (drop 5 s) = Some (m, r)" and p: "has_prefix s ''inet ''"
    by (simp_all add: inet_at_def del: dotted_run.simps split: if_splits)
  from p obtain t where "s = ''inet '' @ t" by (auto simp: has_prefix_iff)
  with d dotted_run_parts [OF d] show ?thesis by (simp del: dotted_run.simps)
qed

lemma inet_at_shorter: "inet_at s = Some (m, r) \<Longrightarrow> length r < length s"
  by (drule inet_at_Some, elim conjE) simp

text \<open>The groups of all matches, from left to right.\<close>

function inet_matches :: "string \<Rightarrow> string list" where
  "inet_matches [] = []"
| "inet_matches (c # s) =
     (case inet_at (c # s) of
        Some (m, r) \<Rightarrow> m # inet_matches r
      | None \<Rightarrow> inet_matches s)"
  by pat_completeness auto
termination
  by (relation "measure length") (auto dest: inet_at_shorter)

fun firstInetIn :: "string list \<Rightarrow> string \<times> nat" where
  "firstInetIn [] = ([], 0)"
| "firstInetIn (m # ms) =
     (case ParseCIDR m of
        None \<Rightarrow> firstInetIn ms
      | Some (addr, ipNet) \<Rightarrow> (IP_String addr, Mask_Size (net_mask ipNet)))"

definition firstInetAddr :: "string \<Rightarrow> string \<times> nat" where
  "firstInetAddr out = firstInetIn (take 1 (inet_matches out))"

fun prefixIn :: "string \<Rightarrow> string list \<Rightarrow> nat" where
  "prefixIn ip [] = 0"
| "prefixIn ip (m # ms) =
     (case ParseCIDR m of
        None \<Rightarrow> prefixIn ip ms
      | Some (addr, ipNet) \<Rightarrow> if IP_String addr = ip then Mask_Size (net_mask ipNet) else prefixIn ip ms)"

definition prefixForIP :: "string \<Rightarrow> string \<Rightarrow> nat" where
  "prefixForIP addrOut ip = prefixIn ip (inet_matches addrOut)"

section \<open>VLANs in the output of ip link\<close>

text \<open>The class \<open>\s\<close>, which has neither the vertical tab nor anything beyond ASCII.\<close>

definition re_space :: "char \<Rightarrow> bool" where
  "re_space c \<longleftrightarrow> c \<in> {CHR 0x09, CHR 0x0A, CHR 0x0C, CHR 0x0D, CHR '' ''}"

definition word_char :: "char \<Rightarrow> bool" where
  "word_char c \<longleftrightarrow>
     list_ex (in_range c)
       [(CHR ''0'', CHR ''9''), (CHR ''A'', CHR ''Z''), (CHR ''_'', CHR ''_''), (CHR ''a'', CHR ''z'')]"

text \<open>\<open>(\S+?):\<close> at the start of the text.\<close>

definition parent_at :: "string \<Rightarrow> string option" where
  "parent_at s =
     (case s of
        [] \<Rightarrow> None
      | c # r \<Rightarrow>
          let m = takeWhile (\<lambda>x. \<not> re_space x \<and> x \<noteq> CHR '':'') r
          in if re_space c \<or> \<not> has_prefix (drop (length m) r) '':'' then None else Some (c # m))"

text \<open>\<open>@(\S+?):\<close>, the group of the leftmost match.\<close>

fun vlanParent :: "string \<Rightarrow> string option" where
  "vlanParent [] = None"
| "vlanParent (c # s) =
     (case (if c = CHR ''@'' then parent_at s else None) of
        Some m \<Rightarrow> Some m
      | None \<Rightarrow> vlanParent s)"

text \<open>\<open>\bid\s+(\d+)\<close> at the start of the text, after the character \<open>prev\<close>.\<close>

definition id_at :: "char \<Rightarrow> string \<Rightarrow> string option" where
  "id_at prev s =
     (if word_char prev \<or> \<not> has_prefix s ''id'' then None
      else let r = drop 2 s; ds = takeWhile is_digit (dropWhile re_space r)
           in if \<not> list_ex re_space (take 1 r) \<or> ds = [] then None else Some ds)"

text \<open>\<open>.*\<close> takes as much of the line as it can and still have a match after it.\<close>

fun last_id :: "char \<Rightarrow> string \<Rightarrow> string option" where
  "last_id prev [] = None"
| "last_id prev (c # s) =
     (case (if c = nl then None else last_id c s) of
        Some ds \<Rightarrow> Some ds
      | None \<Rightarrow> id_at prev (c # s))"

text \<open>
  \<open>\bvlan\b.*\bid\s+(\d+)\<close>, the group of the leftmost match; \<open>inword\<close> says whether the character
  before the text is a word character.
\<close>

fun vlanID :: "bool \<Rightarrow> string \<Rightarrow> string option" where
  "vlanID inword [] = None"
| "vlanID inword (c # s) =
     (case (if \<not> inword \<and> has_prefix (c # s) ''vlan'' \<and> \<not> list_ex word_char (take 1 (drop 4 (c # s)))
            then last_id CHR ''n'' (drop 4 (c # s)) else None) of
        Some ds \<Rightarrow> Some ds
      | None \<Rightarrow> vlanID (word_char c) s)"

definition parseVLANLink :: "string \<Rightarrow> string \<times> int" where
  "parseVLANLink out =
     (case vlanParent out of None \<Rightarrow> [] | Some m \<Rightarrow> trim_space m,
      case vlanID False out of
        None \<Rightarrow> 0
      | Some m \<Rightarrow> (case sscanf_d m of None \<Rightarrow> 0 | Some n \<Rightarrow> n))"

section \<open>What the matches are\<close>

lemma dotted_run_chars:
  "dotted_run cs s = Some (m, r) \<Longrightarrow> \<forall>c\<in>set m. is_digit c \<or> c \<in> set cs"
proof (induction cs s arbitrary: m r rule: dotted_run.induct)
  case (1 s)
  then show ?case by (auto split: if_splits dest: set_takeWhileD)
next
  case (2 c cs s)
  from "2.prems" obtain r0 m0 where ne: "takeWhile is_digit s \<noteq> []"
    and r0: "dropWhile is_digit s = c # r0" and d: "dotted_run cs r0 = Some (m0, r)"
    and m: "m = takeWhile is_digit s @ c # m0"
    by (auto split: if_splits list.splits)
  from "2.IH" [OF ne r0 refl d] show ?case
    unfolding m by (auto dest: set_takeWhileD)
qed

lemma inet_matches_chars:
  "m \<in> set (inet_matches s) \<Longrightarrow> \<forall>c\<in>set m. is_digit c \<or> c = CHR ''.'' \<or> c = CHR ''/''"
proof (induction s rule: inet_matches.induct)
  case (2 c s)
  show ?case
  proof (cases "inet_at (c # s)")
    case None
    with 2 show ?thesis by simp
  next
    case (Some x)
    obtain m0 r where x: "x = (m0, r)" by (cases x)
    from inet_at_Some [OF Some [unfolded x]] have "dotted_run ''.../'' (drop 5 (c # s)) = Some (m0, r)" by blast
    from dotted_run_chars [OF this] have m0: "\<forall>c\<in>set m0. is_digit c \<or> c = CHR ''.'' \<or> c = CHR ''/''" by auto
    from "2.prems" Some x have "m = m0 \<or> m \<in> set (inet_matches r)" by simp
    with m0 "2.IH"(2) [OF Some x [symmetric]] show ?thesis by blast
  qed
qed simp

text \<open>The prefix of an address in CIDR notation is at most 32 when it has no colon.\<close>

lemma ParseCIDR_prefix:
  assumes "ParseCIDR s = Some (ip, n)" "CHR '':'' \<notin> set s"
  shows "Mask_Size (net_mask n) \<le> 32"
proof -
  from assms(1) obtain addr msk a k m where c: "cut_byte s CHR ''/'' = Some (addr, msk)"
    and a: "ParseAddr addr = Some a" and k: "k \<le> BitLen a" and m: "CIDRMask (int k) (BitLen a) = Some m"
    and n: "net_mask n = m"
    by (auto simp: ParseCIDR_def not_less split: option.splits if_splits prod.splits)
  have "CHR '':'' \<notin> set addr" using cut_byte_Some [OF c] assms(2) by auto
  with a have "BitLen a = 32"
    by (auto simp: ParseAddr_def find_Some_iff split: option.splits if_splits dest: nth_mem)
  with Mask_Size_CIDRMask [OF m] k n show ?thesis by simp
qed

lemma inet_prefix:
  "m \<in> set (inet_matches s) \<Longrightarrow> ParseCIDR m = Some (ip, n) \<Longrightarrow> Mask_Size (net_mask n) \<le> 32"
  by (rule ParseCIDR_prefix) (auto dest!: inet_matches_chars)

lemma prefixIn_bound:
  "\<forall>m\<in>set ms. \<forall>a n. ParseCIDR m = Some (a, n) \<longrightarrow> Mask_Size (net_mask n) \<le> 32 \<Longrightarrow> prefixIn ip ms \<le> 32"
  by (induction ms) (auto split: option.split)

lemma prefixForIP_bound: "prefixForIP out ip \<le> 32"
  unfolding prefixForIP_def by (rule prefixIn_bound) (blast intro: inet_prefix)

lemma firstInetIn_bound:
  "\<forall>m\<in>set ms. \<forall>a n. ParseCIDR m = Some (a, n) \<longrightarrow> Mask_Size (net_mask n) \<le> 32 \<Longrightarrow> snd (firstInetIn ms) \<le> 32"
  by (induction ms) (auto split: option.split)

lemma firstInetAddr_bound: "snd (firstInetAddr out) \<le> 32"
  unfolding firstInetAddr_def by (rule firstInetIn_bound) (blast intro: inet_prefix dest: in_set_takeD)

text \<open>The parent device is one shell word without blanks.\<close>

lemma parent_at_chars: "parent_at s = Some m \<Longrightarrow> m \<noteq> [] \<and> (\<forall>c\<in>set m. \<not> re_space c)"
  by (auto simp: parent_at_def Let_def split: list.splits if_splits dest: set_takeWhileD)

lemma vlanParent_chars: "vlanParent s = Some m \<Longrightarrow> m \<noteq> [] \<and> (\<forall>c\<in>set m. \<not> re_space c)"
  by (induction s) (auto split: if_splits option.splits dest: parent_at_chars)

text \<open>An address has a text.\<close>

lemma join_not_Nil: "t \<noteq> [] \<Longrightarrow> join (t # ts) sep \<noteq> []"
  by (cases ts) simp_all

lemma IP_String_not_Nil: "length ip = 16 \<Longrightarrow> IP_String ip \<noteq> []"
proof (cases "To4 ip")
  case None
  assume l: "length ip = 16"
  then obtain a b r where "ip = a # b # r" by (cases ip; cases "tl ip") auto
  then have "hexes (groups ip) \<noteq> []" by (simp add: hexes_def join_not_Nil)
  with None show ?thesis by (simp add: IP_String_def show6_def Let_def case_prod_beta)
next
  case (Some b)
  moreover assume "length ip = 16"
  ultimately have "length b = 4" by (auto simp: To4_def split: if_splits)
  then obtain x r where "b = x # r" by (cases b) auto
  with Some show ?thesis by (simp add: IP_String_def dotted_def join_not_Nil)
qed

end
