(* ===== verification/Shell.thy ===== *)
theory Shell
  imports Go_Strings
begin

text \<open>
  How a POSIX shell splits a simple command into words, as far as the program's commands use it:
  blanks separate words, single quotes keep everything up to the next one, a backslash outside
  quotes keeps one character. Commands with other constructs (double quotes, expansions,
  operators) are outside this fragment and have no words here.
\<close>

definition shell_operators :: string where
  "shell_operators = [dq, nl, tab, CHR 0x60] @ ''$;&|<>(){}*?[]!#~''"

text \<open>\<open>sh_bare started word rest\<close> reads outside quotes, \<open>sh_single\<close> inside single quotes.\<close>

fun sh_bare :: "bool \<Rightarrow> string \<Rightarrow> string \<Rightarrow> string list option"
  and sh_single :: "string \<Rightarrow> string \<Rightarrow> string list option" where
  "sh_bare started w [] = Some (if started then [w] else [])"
| "sh_bare started w (c # s) =
     (if c = CHR '' '' then
        (if started then map_option ((#) w) (sh_bare False [] s) else sh_bare False [] s)
      else if c = sq then sh_single w s
      else if c = bslash then (case s of [] \<Rightarrow> None | d # r \<Rightarrow> sh_bare True (w @ [d]) r)
      else if c \<in> set shell_operators then None
      else sh_bare True (w @ [c]) s)"
| "sh_single w [] = None"
| "sh_single w (c # s) = (if c = sq then sh_bare True w s else sh_single (w @ [c]) s)"

definition sh_words :: "string \<Rightarrow> string list option" where
  "sh_words cmd = sh_bare False [] cmd"

text \<open>A word the shell takes as it is.\<close>

definition sh_plain :: "string \<Rightarrow> bool" where
  "sh_plain w \<longleftrightarrow> w \<noteq> [] \<and> list_all (\<lambda>c. c \<noteq> CHR '' '' \<and> c \<noteq> sq \<and> c \<noteq> bslash \<and> c \<notin> set shell_operators) w"

lemma sh_bare_plain:
  "list_all (\<lambda>c. c \<noteq> CHR '' '' \<and> c \<noteq> sq \<and> c \<noteq> bslash \<and> c \<notin> set shell_operators) v \<Longrightarrow> v \<noteq> [] \<or> started \<Longrightarrow>
     sh_bare started w (v @ s) = sh_bare True (w @ v) s"
  by (induction v arbitrary: started w) auto

lemma sh_bare_word:
  "sh_plain v \<Longrightarrow> sh_bare False [] (v @ CHR '' '' # s) = map_option ((#) v) (sh_bare False [] s)"
  by (simp add: sh_plain_def sh_bare_plain)

text \<open>Every single quote of the text closes the quotes, adds an escaped quote and opens them again.\<close>

definition quote_escape :: "char \<Rightarrow> string" where
  "quote_escape c = (if c = sq then [sq, bslash, sq, sq] else [c])"

lemma sh_single_escaped:
  "sh_single w (replace_bytes quote_escape cmd @ sq # s) = sh_bare True (w @ cmd) s"
  by (induction cmd arbitrary: w) (simp_all add: quote_escape_def)

lemma sh_quoted:
  "sh_bare False [] (sq # replace_bytes quote_escape cmd @ [sq]) = Some [cmd]"
  by (simp add: sh_single_escaped)

end
