(* ===== verification/Remote.thy ===== *)
theory Remote
  imports System Shell
begin

text \<open>
  The remote host through the \<open>ssh\<close> program: \<open>internal/remote/remote.go\<close>. A \<open>*Client\<close> is a record
  that is passed and returned; every operation is one call of \<open>ssh\<close>.
\<close>

section \<open>Connecting\<close>

record ConnectOptions =
  co_Host :: string
  co_Port :: int
  co_User :: string
  co_KeyPath :: string
  co_KnownHostsPath :: string
  co_PinnedKeyPath :: string
  co_Sudo :: bool
  co_ProxyJump :: string

record Client =
  rc_host :: string
  rc_port :: int
  rc_user :: string
  rc_keyPath :: string
  rc_sudo :: bool
  rc_sudoPassword :: string
  rc_proxyJump :: string
  rc_knownHostsFile :: string
  rc_strictMode :: string
  rc_tempKnownHosts :: string

datatype remote_error =
    NilOptions
  | NeedHost
  | NeedUser
  | InvalidPort int
  | BothHostKeyModes
  | NoHostKeyMode
  | ReadPinned string os_error
  | ParsePinned string remote_error
  | WriteKnownHosts string os_error
  | NoKeyFound
  | MalformedKeyLine string
  | UnknownKeyType string
  | RemoveKnownHosts string os_error
  | CommandFailed string string
  | WriteFailed string string string
  | OpenFailed string string string
  | SessionFailed string

definition validateHostKeyModeExclusive :: "ConnectOptions \<Rightarrow> remote_error + unit" where
  "validateHostKeyModeExclusive opts =
     (if co_KnownHostsPath opts \<noteq> [] \<and> co_PinnedKeyPath opts \<noteq> [] then Inl BothHostKeyModes else Inr ())"

definition validateConnectOptions :: "ConnectOptions option \<Rightarrow> remote_error + unit" where
  "validateConnectOptions mopts =
     (case mopts of
        None \<Rightarrow> Inl NilOptions
      | Some opts \<Rightarrow>
          if co_Host opts = [] then Inl NeedHost
          else if co_User opts = [] then Inl NeedUser
          else if co_Port opts \<le> 0 then Inl (InvalidPort (co_Port opts))
          else validateHostKeyModeExclusive opts)"

definition knownHostsHostname :: "string \<Rightarrow> int \<Rightarrow> string" where
  "knownHostsHostname host port = (if port = 22 then host else ''['' @ host @ '']:'' @ itoa port)"

definition hasKnownKeyTypePrefix :: "string \<Rightarrow> bool" where
  "hasKnownKeyTypePrefix field \<longleftrightarrow>
     has_prefix field ''ssh-'' \<or> has_prefix field ''ecdsa-'' \<or> has_prefix field ''sk-''"

definition parseAuthorizedKeyLine :: "string \<Rightarrow> remote_error + string \<times> string" where
  "parseAuthorizedKeyLine line =
     (case Fields line of
        ktype # kdata # rest \<Rightarrow>
          if \<not> hasKnownKeyTypePrefix ktype then Inl (UnknownKeyType ktype) else Inr (ktype, kdata)
      | _ \<Rightarrow> Inl (MalformedKeyLine line))"

text \<open>The loop of \<open>parseAuthorizedKey\<close> over the scanned lines.\<close>

fun firstKeyLine :: "string list \<Rightarrow> remote_error + string \<times> string" where
  "firstKeyLine [] = Inl NoKeyFound"
| "firstKeyLine (l # ls) =
     (let line = trim_space l
      in if line = [] \<or> has_prefix line ''#'' then firstKeyLine ls else parseAuthorizedKeyLine line)"

definition parseAuthorizedKey :: "string \<Rightarrow> remote_error + string \<times> string" where
  "parseAuthorizedKey data = firstKeyLine (scan_until_long data)"

definition materializePinnedKnownHosts :: "string \<Rightarrow> int \<Rightarrow> string \<Rightarrow> (world, remote_error, string) step" where
  "materializePinnedKnownHosts host port pinnedPath =
     thenS (wrapS (ReadPinned pinnedPath) (os_ReadFile pinnedPath)) (\<lambda>data.
     thenS (liftS (wrapE (ParsePinned pinnedPath) (parseAuthorizedKey data))) (\<lambda>(keyType, keyData).
     let line = knownHostsHostname host port @ '' '' @ keyType @ '' '' @ keyData @ [nl];
         outPath = pinnedPath @ ''.known_hosts''
     in thenS (wrapS (WriteKnownHosts outPath) (os_WriteFile outPath line 0x180)) (\<lambda>_.
        returnS outPath)))"

definition applyHostKeyMode :: "Client \<Rightarrow> ConnectOptions \<Rightarrow> (world, remote_error, Client) step" where
  "applyHostKeyMode c opts =
     (if co_PinnedKeyPath opts \<noteq> [] then
        thenS (materializePinnedKnownHosts (co_Host opts) (co_Port opts) (co_PinnedKeyPath opts)) (\<lambda>khFile.
        returnS (c\<lparr>rc_knownHostsFile := khFile, rc_tempKnownHosts := khFile, rc_strictMode := ''yes''\<rparr>))
      else if co_KnownHostsPath opts \<noteq> [] then
        returnS (c\<lparr>rc_knownHostsFile := co_KnownHostsPath opts, rc_strictMode := ''accept-new''\<rparr>)
      else liftS (Inl NoHostKeyMode))"

definition newClient :: "ConnectOptions \<Rightarrow> Client" where
  "newClient opts =
     \<lparr>rc_host = co_Host opts, rc_port = co_Port opts, rc_user = co_User opts, rc_keyPath = co_KeyPath opts,
      rc_sudo = co_Sudo opts, rc_sudoPassword = [], rc_proxyJump = co_ProxyJump opts,
      rc_knownHostsFile = [], rc_strictMode = [], rc_tempKnownHosts = []\<rparr>"

definition Connect :: "ConnectOptions option \<Rightarrow> (world, remote_error, Client) step" where
  "Connect mopts =
     thenS (liftS (validateConnectOptions mopts)) (\<lambda>_.
       case mopts of None \<Rightarrow> liftS (Inl NilOptions)
       | Some opts \<Rightarrow> applyHostKeyMode (newClient opts) opts)"

section \<open>Commands and their standard input\<close>

definition sshArgs :: "Client \<Rightarrow> string list" where
  "sshArgs c =
     [''-p'', itoa (rc_port c)] @
     (if rc_keyPath c \<noteq> [] then [''-i'', rc_keyPath c] else []) @
     (if rc_proxyJump c \<noteq> [] then [''-o'', ''ProxyJump='' @ rc_proxyJump c] else []) @
     [''-o'', ''BatchMode=yes'',
      ''-o'', ''ConnectTimeout=30'',
      ''-o'', ''UserKnownHostsFile='' @ rc_knownHostsFile c,
      ''-o'', ''StrictHostKeyChecking='' @ rc_strictMode c,
      rc_user c @ ''@'' @ rc_host c]"

definition SetSudoPassword :: "string \<Rightarrow> Client \<Rightarrow> Client" where
  "SetSudoPassword pw c = c\<lparr>rc_sudoPassword := pw\<rparr>"

definition sudoCmd :: "Client \<Rightarrow> string \<Rightarrow> string" where
  "sudoCmd c cmd =
     (if \<not> rc_sudo c then cmd
      else let escaped = replace_bytes quote_escape cmd;
               flag = (if rc_sudoPassword c \<noteq> [] then ''-S -p '' @ [sq, sq] else ''-n'')
           in ''sudo '' @ flag @ '' sh -c '' @ [sq] @ escaped @ [sq])"

definition interactiveSudoCmd :: "Client \<Rightarrow> string \<Rightarrow> string" where
  "interactiveSudoCmd c cmd =
     (if \<not> rc_sudo c then cmd
      else ''sudo sh -c '' @ [sq] @ replace_bytes quote_escape cmd @ [sq])"

text \<open>A missing reader, \<open>nil\<close>, gives the process an empty input.\<close>

definition sudoStdin :: "Client \<Rightarrow> string option \<Rightarrow> string" where
  "sudoStdin c base =
     (if \<not> rc_sudo c \<or> rc_sudoPassword c = [] then (case base of None \<Rightarrow> [] | Some b \<Rightarrow> b)
      else rc_sudoPassword c @ [nl] @ (case base of None \<Rightarrow> [] | Some b \<Rightarrow> b))"

definition Close :: "Client \<Rightarrow> world \<Rightarrow> (remote_error + unit) \<times> Client \<times> world" where
  "Close c w =
     (if rc_tempKnownHosts c = [] then (Inr (), c, w)
      else let path = rc_tempKnownHosts c; c' = c\<lparr>rc_tempKnownHosts := []\<rparr>;
               (r, w') = os_Remove path w
           in case r of
                Inl (Refused p) \<Rightarrow> (Inl (RemoveKnownHosts path (Refused p)), c', w')
              | _ \<Rightarrow> (Inr (), c', w'))"

section \<open>Operations\<close>

text \<open>\<open>RunCommand\<close> returns the trimmed output also when the command failed.\<close>

definition RunCommand :: "Client \<Rightarrow> string \<Rightarrow> system \<Rightarrow> (string \<times> remote_error option) \<times> system" where
  "RunCommand c cmd s =
     (let (p, s') = exec_ssh (sshArgs c @ [sudoCmd c cmd]) (Some (sudoStdin c None)) s;
          out = trim_space (p_stdout p)
      in case p_err p of
           Some e \<Rightarrow> ((out, Some (CommandFailed e (trim_space (p_stderr p)))), s')
         | None \<Rightarrow> ((out, None), s'))"

definition WriteFile_cmd :: "string \<Rightarrow> nat \<Rightarrow> string" where
  "WriteFile_cmd remotePath mode =
     (let q = (\<lambda>s. [sq] @ s @ [sq])
      in ''mkdir -p '' @ q (Dir remotePath) @ '' && cat > '' @ q remotePath @
         '' && chmod '' @ show_base 8 (mode mod 0x200) @ '' '' @ q remotePath)"

definition WriteFile :: "Client \<Rightarrow> string \<Rightarrow> string \<Rightarrow> nat \<Rightarrow> (system, remote_error, unit) step" where
  "WriteFile c remotePath content mode s =
     (let (p, s') = exec_ssh (sshArgs c @ [sudoCmd c (WriteFile_cmd remotePath mode)])
                      (Some (sudoStdin c (Some content))) s
      in case p_err p of
           Some e \<Rightarrow> (Inl (WriteFailed remotePath e (trim_space (p_stdout p @ p_stderr p))), s')
         | None \<Rightarrow> (Inr (), s'))"

definition WriteFileExec :: "Client \<Rightarrow> string \<Rightarrow> string \<Rightarrow> (system, remote_error, unit) step" where
  "WriteFileExec c remotePath content = WriteFile c remotePath content 0x1ED"

definition ReadFile :: "Client \<Rightarrow> string \<Rightarrow> (system, remote_error, string) step" where
  "ReadFile c remotePath s =
     (let (p, s') = exec_ssh (sshArgs c @ [sudoCmd c (''cat '' @ [sq] @ remotePath @ [sq])])
                      (Some (sudoStdin c None)) s
      in case p_err p of
           Some e \<Rightarrow> (Inl (OpenFailed remotePath e (trim_space (p_stderr p))), s')
         | None \<Rightarrow> (Inr (p_stdout p), s'))"

definition InteractiveSession :: "Client \<Rightarrow> string \<Rightarrow> (system, remote_error, unit) step" where
  "InteractiveSession c cmd s =
     (let (p, s') = exec_ssh ([''-t'', ''-o'', ''LogLevel=ERROR''] @ sshArgs c @ [interactiveSudoCmd c cmd]) None s
      in case p_err p of
           Some e \<Rightarrow> (Inl (SessionFailed e), s')
         | None \<Rightarrow> (Inr (), s'))"

section \<open>The interface of an operation that starts one process\<close>

text \<open>
  What the setup relies on: an operation with a command adds exactly one call to the log, and the
  call depends on the command alone.
\<close>

locale one_call =
  fixes run :: "'q \<Rightarrow> 's \<Rightarrow> 'r \<times> 's"
    and log :: "'s \<Rightarrow> 'm list"
    and msg :: "'q \<Rightarrow> 'm"
  assumes log_run: "log (snd (run q s)) = log s @ [msg q]"
begin

lemma log_run_eq: "run q s = (r, s') \<Longrightarrow> log s' = log s @ [msg q]"
  using log_run [of q s] by simp

lemma log_run_all: "run q s = (r, s') \<Longrightarrow> list_all P (log s) \<Longrightarrow> P (msg q) \<Longrightarrow> list_all P (log s')"
  by (simp add: log_run_eq)

lemma log_fold: "log (fold (\<lambda>q s. snd (run q s)) qs s) = log s @ map msg qs"
  by (induction qs arbitrary: s) (simp_all add: log_run)

end

lemma exec_ssh_eq [simp]:
  "fst (exec_ssh args i s) = ssh_reply s (length (calls s)) (args, i)"
  "snd (exec_ssh args i s) = s\<lparr>calls := calls s @ [(args, i)]\<rparr>"
  by (simp_all add: exec_ssh_def)

definition run_call :: "Client \<Rightarrow> string \<Rightarrow> ssh_call" where
  "run_call c cmd = (sshArgs c @ [sudoCmd c cmd], Some (sudoStdin c None))"

definition write_call :: "Client \<Rightarrow> string \<times> string \<times> nat \<Rightarrow> ssh_call" where
  "write_call c q =
     (let (path, content, mode) = q
      in (sshArgs c @ [sudoCmd c (WriteFile_cmd path mode)], Some (sudoStdin c (Some content))))"

lemma RunCommand_calls: "calls (snd (RunCommand c cmd s)) = calls s @ [run_call c cmd]"
  by (simp add: RunCommand_def run_call_def Let_def case_prod_beta split: option.split)

interpretation running: one_call "RunCommand c" calls "run_call c" for c
  by unfold_locales (rule RunCommand_calls)

interpretation writing: one_call "\<lambda>(path, content, mode). WriteFile c path content mode" calls "write_call c" for c
  by unfold_locales
    (simp add: WriteFile_def write_call_def Let_def case_prod_beta split: option.split)

interpretation reading: one_call "ReadFile c" calls
    "\<lambda>path. (sshArgs c @ [sudoCmd c (''cat '' @ [sq] @ path @ [sq])], Some (sudoStdin c None))" for c
  by unfold_locales (simp add: ReadFile_def Let_def case_prod_beta split: option.split)

interpretation interacting: one_call "InteractiveSession c" calls
    "\<lambda>cmd. ([''-t'', ''-o'', ''LogLevel=ERROR''] @ sshArgs c @ [interactiveSudoCmd c cmd], None)" for c
  by unfold_locales (simp add: InteractiveSession_def Let_def case_prod_beta split: option.split)

lemma RunCommand_disk [simp]:
  "disk (snd (RunCommand c cmd s)) = disk s" "tty (snd (RunCommand c cmd s)) = tty s"
  by (simp_all add: RunCommand_def Let_def case_prod_beta split: option.split)

lemma WriteFile_disk [simp]: "disk (snd (WriteFile c p x m s)) = disk s"
  by (simp add: WriteFile_def Let_def case_prod_beta split: option.split)

section \<open>Quoting\<close>

lemma sudo_words:
  "rc_sudo c \<Longrightarrow> sh_words (sudoCmd c cmd) =
     Some ([''sudo''] @ (if rc_sudoPassword c = [] then [''-n''] else [''-S'', ''-p'', []]) @ [''sh'', ''-c'', cmd])"
  by (simp add: sh_words_def sudoCmd_def shell_operators_def sh_single_escaped)

lemma interactive_sudo_words:
  "sh_words (interactiveSudoCmd (c\<lparr>rc_sudo := True\<rparr>) cmd) = Some [''sudo'', ''sh'', ''-c'', cmd]"
  by (simp add: sh_words_def interactiveSudoCmd_def shell_operators_def sh_single_escaped)

section \<open>Host keys\<close>

lemma materialize_ok:
  assumes "materializePinnedKnownHosts host port p w = (Inr f, w')"
  shows "f = p @ ''.known_hosts'' \<and>
    (\<exists>data kt kd m. os_ReadFile p w = (Inr data, passed w) \<and> parseAuthorizedKey data = Inr (kt, kd) \<and>
       node_at w' f = Some (File (knownHostsHostname host port @ '' '' @ kt @ '' '' @ kd @ [nl]) m))"
proof -
  obtain data kt kd w2 where d: "os_ReadFile p w = (Inr data, w2)" "parseAuthorizedKey data = Inr (kt, kd)"
    and f: "f = p @ ''.known_hosts''"
    and wr: "os_WriteFile f (knownHostsHostname host port @ '' '' @ kt @ '' '' @ kd @ [nl]) 0x180 w2 = (Inr (), w')"
    using assms by (auto simp: materializePinnedKnownHosts_def Let_def res_simps split: prod.splits)
  moreover have "w2 = passed w" using d(1) ReadFile_world(1) [of p w] by simp
  ultimately show ?thesis using WriteFile_Inr [OF wr] by auto
qed

lemma Connect_ok:
  "Connect (Some opts) w = (Inr c, w') \<longleftrightarrow>
     co_Host opts \<noteq> [] \<and> co_User opts \<noteq> [] \<and> 0 < co_Port opts \<and>
     (co_PinnedKeyPath opts = [] \<or> co_KnownHostsPath opts = []) \<and>
     applyHostKeyMode (newClient opts) opts w = (Inr c, w')"
  by (auto simp: Connect_def res_simps validateConnectOptions_def validateHostKeyModeExclusive_def
      split: if_splits)

text \<open>The two ways a client trusts a host.\<close>

lemma Connect_modes:
  assumes "Connect (Some opts) w = (Inr c, w')"
  shows "(co_KnownHostsPath opts \<noteq> [] \<and> co_PinnedKeyPath opts = [] \<and> rc_strictMode c = ''accept-new'' \<and>
      rc_knownHostsFile c = co_KnownHostsPath opts \<and> rc_tempKnownHosts c = [] \<and> w' = w) \<or>
    (co_PinnedKeyPath opts \<noteq> [] \<and> co_KnownHostsPath opts = [] \<and> rc_strictMode c = ''yes'' \<and>
      rc_knownHostsFile c = co_PinnedKeyPath opts @ ''.known_hosts'' \<and>
      rc_tempKnownHosts c = rc_knownHostsFile c \<and>
      (\<exists>data kt kd m. os_ReadFile (co_PinnedKeyPath opts) w = (Inr data, passed w) \<and>
         parseAuthorizedKey data = Inr (kt, kd) \<and>
         node_at w' (rc_knownHostsFile c) =
           Some (File (knownHostsHostname (co_Host opts) (co_Port opts) @ '' '' @ kt @ '' '' @ kd @ [nl]) m)))"
proof (cases "co_PinnedKeyPath opts = []")
  case True
  with assms show ?thesis
    unfolding Connect_ok applyHostKeyMode_def by (auto simp: newClient_def split: if_splits)
next
  case False
  with assms obtain f where f: "materializePinnedKnownHosts (co_Host opts) (co_Port opts) (co_PinnedKeyPath opts) w = (Inr f, w')"
    and c: "c = (newClient opts)\<lparr>rc_knownHostsFile := f, rc_tempKnownHosts := f, rc_strictMode := ''yes''\<rparr>"
    unfolding Connect_ok applyHostKeyMode_def by (auto simp: res_simps)
  from False assms have "co_KnownHostsPath opts = []" unfolding Connect_ok by auto
  with False c materialize_ok [OF f] show ?thesis by auto
qed

lemma Connect_parameters:
  "Connect (Some opts) w = (Inr c, w') \<Longrightarrow>
     rc_host c = co_Host opts \<and> rc_port c = co_Port opts \<and> rc_user c = co_User opts \<and>
     rc_keyPath c = co_KeyPath opts \<and> rc_sudo c = co_Sudo opts \<and> rc_sudoPassword c = [] \<and>
     rc_proxyJump c = co_ProxyJump opts"
  unfolding Connect_ok applyHostKeyMode_def newClient_def by (auto simp: res_simps split: if_splits)

text \<open>Reading the written line back field by field.\<close>

lemma parse_known_hosts_line:
  assumes "parseAuthorizedKey data = Inr (kt, kd)"
  shows "hasKnownKeyTypePrefix kt \<and> kd \<noteq> [] \<and> set kt \<inter> set ascii_spaces = {} \<and> set kd \<inter> set ascii_spaces = {}"
proof -
  have "hasKnownKeyTypePrefix kt \<and> kt \<in> set (Fields (trim_space l)) \<and> kd \<in> set (Fields (trim_space l))"
    if "parseAuthorizedKeyLine (trim_space l) = Inr (kt, kd)" for l
    using that by (auto simp: parseAuthorizedKeyLine_def split: list.splits if_splits)
  moreover have "\<exists>l. parseAuthorizedKeyLine (trim_space l) = Inr (kt, kd)"
    if "firstKeyLine ls = Inr (kt, kd)" for ls
    using that by (induction ls) (auto simp: Let_def split: if_splits)
  ultimately obtain l where "hasKnownKeyTypePrefix kt" "kt \<in> set (Fields (trim_space l))" "kd \<in> set (Fields (trim_space l))"
    using assms unfolding parseAuthorizedKey_def by blast
  then show ?thesis using Fields_nonempty Fields_no_ascii_space by blast
qed

section \<open>Properties\<close>

text \<open>C7: Wrapped for sudo, any command at all, with quotes, spaces and newlines, reaches the
  inner shell as one word and unchanged; the words before it are those of the mode: without
  asking for a password, with the password from the input, or interactively.\<close>

theorem sudo_command_is_one_word:
  "sh_words (sudoCmd (c\<lparr>rc_sudo := True, rc_sudoPassword := []\<rparr>) cmd) = Some [''sudo'', ''-n'', ''sh'', ''-c'', cmd] \<and>
   sh_words (sudoCmd (c\<lparr>rc_sudo := True, rc_sudoPassword := x # pw\<rparr>) cmd) =
     Some [''sudo'', ''-S'', ''-p'', [], ''sh'', ''-c'', cmd] \<and>
   sh_words (interactiveSudoCmd (c\<lparr>rc_sudo := True\<rparr>) cmd) = Some [''sudo'', ''sh'', ''-c'', cmd]"
  using interactive_sudo_words [of c cmd] by (simp add: sudo_words)

text \<open>C12: A client exists only with host key checking on: either the key must be the pinned one,
  and the known hosts file made for \<open>ssh\<close> holds exactly the line for this host and that key, or
  a new key is recorded in the caller's file; and every argument list the client builds says so
  and forbids questions.\<close>

theorem connected_client_checks_host_key:
  assumes "Connect (Some opts) w = (Inr c, w')"
  shows "((co_PinnedKeyPath opts = [] \<and> rc_strictMode c = ''accept-new'' \<and> rc_knownHostsFile c = co_KnownHostsPath opts) \<or>
      (rc_strictMode c = ''yes'' \<and>
       (\<exists>data kt kd m. fst (os_ReadFile (co_PinnedKeyPath opts) w) = Inr data \<and>
          parseAuthorizedKey data = Inr (kt, kd) \<and> hasKnownKeyTypePrefix kt \<and>
          node_at w' (rc_knownHostsFile c) =
            Some (File (knownHostsHostname (co_Host opts) (co_Port opts) @ '' '' @ kt @ '' '' @ kd @ [nl]) m)))) \<and>
    rc_knownHostsFile c \<noteq> [] \<and>
    {''UserKnownHostsFile='' @ rc_knownHostsFile c, ''StrictHostKeyChecking='' @ rc_strictMode c, ''BatchMode=yes''}
      \<subseteq> set (sshArgs (SetSudoPassword pw c))"
proof -
  have "{''UserKnownHostsFile='' @ rc_knownHostsFile c, ''StrictHostKeyChecking='' @ rc_strictMode c, ''BatchMode=yes''}
      \<subseteq> set (sshArgs (SetSudoPassword pw c))"
    by (simp add: sshArgs_def SetSudoPassword_def)
  then show ?thesis using Connect_modes [OF assms] parse_known_hosts_line by fastforce
qed

definition sample_opts :: ConnectOptions where
  "sample_opts =
     \<lparr>co_Host = ''h'', co_Port = 22, co_User = ''root'', co_KeyPath = [], co_KnownHostsPath = ''k'',
      co_PinnedKeyPath = [], co_Sudo = True, co_ProxyJump = []\<rparr>"

lemma connected_client_checks_host_key_witness:
  "\<exists>c. Connect (Some sample_opts) clean_world = (Inr c, clean_world) \<and> rc_strictMode c = ''accept-new''"
proof -
  have "Connect (Some sample_opts) clean_world =
      (Inr ((newClient sample_opts)\<lparr>rc_knownHostsFile := ''k'', rc_strictMode := ''accept-new''\<rparr>), clean_world)"
    by (simp add: Connect_def thenS_def validateConnectOptions_def validateHostKeyModeExclusive_def
        applyHostKeyMode_def sample_opts_def)
  from connected_client_checks_host_key [OF this] this show ?thesis by (auto simp: sample_opts_def)
qed

text \<open>C39: The sudo password never shows in the arguments of a process, where other users could read
  it: with any two passwords the arguments are the same, and the password goes in front of the
  standard input and nowhere else, also when a file is written.\<close>

theorem password_only_on_stdin:
  "fst (run_call (SetSudoPassword (a # pw) c) cmd) = fst (run_call (SetSudoPassword (b # pw') c) cmd) \<and>
   fst (write_call (SetSudoPassword (a # pw) c) q) = fst (write_call (SetSudoPassword (b # pw') c) q) \<and>
   (rc_sudo c \<or>
     run_call (SetSudoPassword (a # pw) c) cmd = run_call c cmd \<and>
     write_call (SetSudoPassword (a # pw) c) q = write_call c q) \<and>
   calls (snd (RunCommand (SetSudoPassword (a # pw) (c\<lparr>rc_sudo := True\<rparr>)) cmd s)) =
     calls s @ [(sshArgs c @ [sudoCmd (c\<lparr>rc_sudo := True, rc_sudoPassword := b # pw'\<rparr>) cmd], Some (a # pw @ [nl]))] \<and>
   calls (snd (WriteFile (SetSudoPassword (a # pw) (c\<lparr>rc_sudo := True\<rparr>)) p content m s)) =
     calls s @ [(sshArgs c @ [sudoCmd (c\<lparr>rc_sudo := True, rc_sudoPassword := b # pw'\<rparr>) (WriteFile_cmd p m)],
       Some (a # pw @ [nl] @ content))]"
proof -
  have args: "sshArgs (SetSudoPassword x c) = sshArgs c" "sshArgs (c\<lparr>rc_sudo := True, rc_sudoPassword := x\<rparr>) = sshArgs c"
    for x by (simp_all add: sshArgs_def SetSudoPassword_def)
  show ?thesis
    using writing.log_run [of "SetSudoPassword (a # pw) (c\<lparr>rc_sudo := True\<rparr>)" "(p, content, m)" s]
    by (simp add: running.log_run run_call_def write_call_def args case_prod_beta)
       (simp add: SetSudoPassword_def args sudoCmd_def sudoStdin_def)
qed

text \<open>Closing a client removes the known hosts file that was made for it, unless the system
  refuses; whatever happens, a second close does nothing at all and succeeds.\<close>

lemma Close_once:
  "Close c w = (r, c', w') \<Longrightarrow>
     (\<forall>v. Close c' v = (Inr (), c', v)) \<and>
     (r = Inr () \<and> rc_tempKnownHosts c \<noteq> [] \<longrightarrow> node_at w' (rc_tempKnownHosts c) = None)"
  by (auto simp: Close_def Let_def os_Remove_def split: prod.splits sum.splits os_error.splits if_splits option.splits)

lemma Close_once_witness:
  "\<exists>c'. \<forall>v. Close c' v = (Inr (), c', v)"
proof -
  obtain r c' w' where c: "Close (newClient sample_opts) clean_world = (r, c', w')" by (metis prod.collapse)
  from Close_once [OF c] show ?thesis by blast
qed

end
