(* ===== verification/Net_Detect.thy ===== *)
theory Net_Detect
  imports Setup_Text Remote Config "HOL-Library.Sublist"
begin

text \<open>
  Step 1 of the setup, \<open>internal/setup/setup.go\<close>: the network configuration of the remote host
  from its routing table, its interfaces and the user's configuration. A function that fills
  fields of a \<open>*NetworkInfo\<close> takes the record and returns it changed, with the system it ran
  commands on.
\<close>

section \<open>State\<close>

record NetworkInfo =
  ni_Interface :: string
  ni_IP :: string
  ni_Prefix :: int
  ni_Gateway :: string
  ni_Hostname :: string
  ni_VLANPhysdev :: string
  ni_VLANID :: int
  ni_BondSlaves :: "string list"
  ni_BondMode :: string
  ni_BridgePorts :: "string list"

text \<open>\<open>&NetworkInfo{Interface: iface}\<close>.\<close>

definition newInfo :: "string \<Rightarrow> NetworkInfo" where
  "newInfo iface =
     \<lparr>ni_Interface = iface, ni_IP = [], ni_Prefix = 0, ni_Gateway = [], ni_Hostname = [],
      ni_VLANPhysdev = [], ni_VLANID = 0, ni_BondSlaves = [], ni_BondMode = [], ni_BridgePorts = []\<rparr>"

datatype detect_error =
    InvalidNetworkIP string
  | RouteFailed remote_error
  | NoInterface
  | BadInterface string
  | NoAddress
  | NoGateway

section \<open>Names\<close>

definition validInterfaceRanges :: "charRange list" where
  "validInterfaceRanges =
     [(CHR ''a'', CHR ''z''), (CHR ''A'', CHR ''Z''), (CHR ''0'', CHR ''9''),
      (CHR ''-'', CHR ''-''), (CHR ''_'', CHR ''_''), (CHR ''.'', CHR ''.'')]"

definition isValidInterfaceChar :: "char \<Rightarrow> bool" where
  "isValidInterfaceChar c \<longleftrightarrow> list_ex (in_range c) validInterfaceRanges"

text \<open>The loop visits runes; one beyond ASCII has bytes beyond ASCII, which are in no range either.\<close>

definition isValidInterfaceName :: "string \<Rightarrow> bool" where
  "isValidInterfaceName name \<longleftrightarrow>
     \<not> (name = [] \<or> length name > 15) \<and> list_all isValidInterfaceChar name"

definition validHostnameRanges :: "charRange list" where
  "validHostnameRanges =
     [(CHR ''a'', CHR ''z''), (CHR ''A'', CHR ''Z''), (CHR ''0'', CHR ''9''),
      (CHR ''-'', CHR ''-''), (CHR ''.'', CHR ''.'')]"

definition isValidHostnameChar :: "char \<Rightarrow> bool" where
  "isValidHostnameChar c \<longleftrightarrow> list_ex (in_range c) validHostnameRanges"

definition isValidHostname :: "string \<Rightarrow> bool" where
  "isValidHostname name \<longleftrightarrow>
     \<not> (name = [] \<or> length name > 63) \<and> list_all isValidHostnameChar name"

section \<open>Checks\<close>

definition applyConfigIP :: "string \<Rightarrow> NetworkInfo \<Rightarrow> detect_error + NetworkInfo" where
  "applyConfigIP cfgIP info =
     (if cfgIP = [] then Inr info
      else case ParseCIDR cfgIP of
             None \<Rightarrow> Inl (InvalidNetworkIP cfgIP)
           | Some (ip, ipNet) \<Rightarrow>
               Inr (info\<lparr>ni_IP := IP_String ip, ni_Prefix := int (Mask_Size (net_mask ipNet))\<rparr>))"

definition validateInterface :: "NetworkInfo \<Rightarrow> detect_error + unit" where
  "validateInterface info =
     (if ni_Interface info = [] then Inl NoInterface
      else if \<not> isValidInterfaceName (ni_Interface info) then Inl (BadInterface (ni_Interface info))
      else Inr ())"

definition validateNetworkInfo :: "NetworkInfo \<Rightarrow> detect_error + unit" where
  "validateNetworkInfo info =
     (if ni_IP info = [] then Inl NoAddress else if ni_Gateway info = [] then Inl NoGateway else Inr ())"

section \<open>The default route\<close>

text \<open>A pointer to a field of the record is the field's reader and writer.\<close>

definition routeFieldFor ::
  "string \<Rightarrow> ((NetworkInfo \<Rightarrow> string) \<times> (string \<Rightarrow> NetworkInfo \<Rightarrow> NetworkInfo)) option" where
  "routeFieldFor p =
     (if p = ''via'' then Some (ni_Gateway, \<lambda>v info. info\<lparr>ni_Gateway := v\<rparr>)
      else if p = ''dev'' then Some (ni_Interface, \<lambda>v info. info\<lparr>ni_Interface := v\<rparr>)
      else if p = ''src'' then Some (ni_IP, \<lambda>v info. info\<lparr>ni_IP := v\<rparr>)
      else None)"

definition applyRouteToken :: "string list \<Rightarrow> nat \<Rightarrow> string \<Rightarrow> NetworkInfo \<Rightarrow> NetworkInfo" where
  "applyRouteToken parts i p info =
     (if i + 1 \<ge> length parts then info
      else case routeFieldFor p of
             None \<Rightarrow> info
           | Some (get, put) \<Rightarrow> if get info = [] then put (parts ! (i + 1)) info else info)"

text \<open>The loops over the lines and over the words of a line.\<close>

definition routeLine :: "string \<Rightarrow> NetworkInfo \<Rightarrow> NetworkInfo" where
  "routeLine line info =
     (let parts = Fields line in fold (\<lambda>i. applyRouteToken parts i (parts ! i)) [0..<length parts] info)"

definition routeFields :: "string \<Rightarrow> NetworkInfo \<Rightarrow> NetworkInfo" where
  "routeFields out info = fold routeLine (split_char nl out) info"

definition parseDefaultRoute :: "Client \<Rightarrow> NetworkInfo \<Rightarrow> (system, detect_error, NetworkInfo) step" where
  "parseDefaultRoute c info s =
     (let ((out, err), s') = RunCommand c ''ip route show default'' s
      in case err of
           Some e \<Rightarrow> (Inl (RouteFailed e), s')
         | None \<Rightarrow> (Inr (routeFields out info), s'))"

section \<open>Address, prefix and host name\<close>

type_synonym probe = "NetworkInfo \<Rightarrow> system \<Rightarrow> NetworkInfo \<times> system"

definition addr_cmd :: "string \<Rightarrow> string" where
  "addr_cmd iface = ''ip -4 addr show dev '' @ iface"

definition fillIPFromAddr :: "Client \<Rightarrow> probe" where
  "fillIPFromAddr c info s =
     (if ni_Interface info = [] then (info, s)
      else let ((out, err), s') = RunCommand c (addr_cmd (ni_Interface info)) s
           in if err \<noteq> None then (info, s')
              else let (ip, prefix) = firstInetAddr out
                   in (if ip \<noteq> [] then info\<lparr>ni_IP := ip, ni_Prefix := int prefix\<rparr> else info, s'))"

text \<open>\<open>info.Prefix == 0\<close> at the end means the command failed or told nothing.\<close>

definition detectPrefix :: "Client \<Rightarrow> probe" where
  "detectPrefix c info s =
     (if ni_Prefix info \<noteq> 0 \<or> ni_IP info = [] then (info, s)
      else let ((addrOut, addrErr), s') = RunCommand c (addr_cmd (ni_Interface info)) s;
               info1 = (if addrErr = None then info\<lparr>ni_Prefix := int (prefixForIP addrOut (ni_IP info))\<rparr>
                        else info)
           in (if ni_Prefix info1 = 0 then info1\<lparr>ni_Prefix := 24\<rparr> else info1, s'))"

text \<open>A failed command leaves its output, which is used all the same.\<close>

definition detectHostname :: "Client \<Rightarrow> probe" where
  "detectHostname c info s =
     (let ((hostnameOut, hostnameErr), s') = RunCommand c ''hostname'' s;
          name = trim_space hostnameOut
      in (info\<lparr>ni_Hostname := if name = [] then ''server'' else name\<rparr>, s'))"

section \<open>VLANs, bonds and bridges\<close>

definition link_cmd :: "string \<Rightarrow> string" where
  "link_cmd iface = ''ip -d link show '' @ iface @ '' 2>/dev/null''"

definition bonding_cmd :: "string \<Rightarrow> string \<Rightarrow> string" where
  "bonding_cmd iface file = ''cat /sys/class/net/'' @ iface @ ''/bonding/'' @ file @ '' 2>/dev/null''"

definition bridge_cmd :: "string \<Rightarrow> string" where
  "bridge_cmd iface = ''ls /sys/class/net/'' @ iface @ ''/brif/ 2>/dev/null''"

definition detectVLAN :: "Client \<Rightarrow> probe" where
  "detectVLAN c info s =
     (let ((out, err), s') = RunCommand c (link_cmd (ni_Interface info)) s
      in if err \<noteq> None then (info, s')
         else let (physdev, id) = parseVLANLink out
              in (if physdev \<noteq> [] \<and> id > 0 then info\<lparr>ni_VLANPhysdev := physdev, ni_VLANID := id\<rparr> else info, s'))"

definition detectBond :: "Client \<Rightarrow> probe" where
  "detectBond c info s =
     (let ((out, err), s') = RunCommand c (bonding_cmd (ni_Interface info) ''slaves'') s
      in if err \<noteq> None then (info, s')
         else let slaves = Fields (trim_space out)
              in (if slaves \<noteq> [] then info\<lparr>ni_BondSlaves := slaves\<rparr> else info, s'))"

definition detectBondMode :: "Client \<Rightarrow> probe" where
  "detectBondMode c info s =
     (if ni_BondSlaves info = [] then (info, s)
      else let ((out, err), s') = RunCommand c (bonding_cmd (ni_Interface info) ''mode'') s
           in if err \<noteq> None then (info, s')
              else (case Fields (trim_space out) of
                      [] \<Rightarrow> info
                    | f # fs \<Rightarrow> info\<lparr>ni_BondMode := f\<rparr>, s'))"

definition detectVLANBond :: "Client \<Rightarrow> probe" where
  "detectVLANBond c info s =
     (if ni_VLANPhysdev info = [] then (info, s)
      else let (phys1, s1) = detectBond c (newInfo (ni_VLANPhysdev info)) s;
               (physInfo, s2) = detectBondMode c phys1 s1
           in (if ni_BondSlaves physInfo \<noteq> []
               then info\<lparr>ni_BondSlaves := ni_BondSlaves physInfo, ni_BondMode := ni_BondMode physInfo\<rparr>
               else info, s2))"

definition detectBridge :: "Client \<Rightarrow> probe" where
  "detectBridge c info s =
     (let ((out, err), s') = RunCommand c (bridge_cmd (ni_Interface info)) s
      in if err \<noteq> None then (info, s')
         else let ports = Fields (trim_space out)
              in (if ports \<noteq> [] then info\<lparr>ni_BridgePorts := ports\<rparr> else info, s'))"

definition andThen :: "probe \<Rightarrow> probe \<Rightarrow> probe" where
  "andThen f g info s = (let (info', s') = f info s in g info' s')"

definition detectInterfaceTopology :: "Client \<Rightarrow> probe" where
  "detectInterfaceTopology c =
     andThen (detectVLAN c) (andThen (detectBond c) (andThen (detectBondMode c)
       (andThen (detectVLANBond c) (detectBridge c))))"

definition detectNetwork :: "Client \<Rightarrow> config \<Rightarrow> (system, detect_error, NetworkInfo) step" where
  "detectNetwork c cfg =
     thenS (liftS (applyConfigIP (net_IP (Network cfg)) (newInfo (net_Interface (Network cfg))))) (\<lambda>info0.
     thenS (parseDefaultRoute c info0) (\<lambda>info1.
     thenS (liftS (validateInterface info1)) (\<lambda>_ s1.
       let (info2, s2) = (if ni_IP info1 = [] then fillIPFromAddr c info1 s1 else (info1, s1));
           (info3, s3) = andThen (detectPrefix c) (andThen (detectHostname c) (detectInterfaceTopology c)) info2 s2
       in (bindE (validateNetworkInfo info3) (\<lambda>_. Inr info3), s3))))"

section \<open>The routing table as a table\<close>

text \<open>A word and the word after it on the same line, over the whole output.\<close>

definition routePairs :: "string \<Rightarrow> (string \<times> string) list" where
  "routePairs out = concat (map (\<lambda>l. zip (Fields l) (tl (Fields l))) (split_char nl out))"

definition setRoute :: "string \<times> string \<Rightarrow> NetworkInfo \<Rightarrow> NetworkInfo" where
  "setRoute entry info =
     (case routeFieldFor (fst entry) of
        None \<Rightarrow> info
      | Some (get, put) \<Rightarrow> if get info = [] then put (snd entry) info else info)"

text \<open>A field keeps what it has, and else takes the first value in the table.\<close>

definition orFirst :: "string \<Rightarrow> (string \<times> string) list \<Rightarrow> string \<Rightarrow> string" where
  "orFirst v table k = (if v \<noteq> [] then v else case map_of table k of None \<Rightarrow> [] | Some x \<Rightarrow> x)"

lemma routeLine_pairs: "routeLine line info = fold setRoute (zip (Fields line) (tl (Fields line))) info"
proof (cases "Fields line" rule: rev_cases)
  case Nil
  then show ?thesis by (simp add: routeLine_def)
next
  case (snoc xs x)
  let ?ps = "Fields line"
  have z: "zip ?ps (tl ?ps) = map (\<lambda>i. (?ps ! i, ?ps ! (i + 1))) [0..<length xs]"
    by (rule nth_equalityI) (auto simp: snoc nth_tl nth_append)
  have "fold (\<lambda>i. applyRouteToken ?ps i (?ps ! i)) [0..<length ?ps] info =
      fold (\<lambda>i. applyRouteToken ?ps i (?ps ! i)) [0..<length xs] info"
    by (simp add: snoc applyRouteToken_def)
  also have "\<dots> = fold setRoute (zip ?ps (tl ?ps)) info"
    unfolding z fold_map by (rule fold_cong) (auto simp: snoc applyRouteToken_def setRoute_def fun_eq_iff split: option.split)
  finally show ?thesis by (simp only: routeLine_def Let_def)
qed

lemma setRoute_fields:
  "setRoute (k, v) info =
     info\<lparr>ni_Gateway := (if k = ''via'' \<and> ni_Gateway info = [] then v else ni_Gateway info),
          ni_Interface := (if k = ''dev'' \<and> ni_Interface info = [] then v else ni_Interface info),
          ni_IP := (if k = ''src'' \<and> ni_IP info = [] then v else ni_IP info)\<rparr>"
  by (simp add: setRoute_def routeFieldFor_def)

lemma orFirst_Cons:
  "v \<noteq> [] \<Longrightarrow> orFirst x ((k, v) # table) f = orFirst (if k = f \<and> x = [] then v else x) table f"
  by (simp add: orFirst_def)

lemma fold_setRoute:
  "\<forall>(k, v)\<in>set table. v \<noteq> [] \<Longrightarrow> fold setRoute table info =
     info\<lparr>ni_Gateway := orFirst (ni_Gateway info) table ''via'',
          ni_Interface := orFirst (ni_Interface info) table ''dev'',
          ni_IP := orFirst (ni_IP info) table ''src''\<rparr>"
proof (induction table arbitrary: info)
  case Nil
  then show ?case by (simp add: orFirst_def)
next
  case (Cons e table)
  obtain k v where e: "e = (k, v)" by (cases e)
  from Cons.prems have v: "v \<noteq> []" and t: "\<forall>(k, v)\<in>set table. v \<noteq> []" by (auto simp: e)
  show ?case
    unfolding e fold_simps o_apply Cons.IH [OF t] orFirst_Cons [OF v] by (simp add: setRoute_fields)
qed

lemma routePairs_nonempty: "\<forall>(k, v)\<in>set (routePairs out). v \<noteq> []"
proof -
  have "v \<noteq> []" if "(k, v) \<in> set (zip (Fields l) (tl (Fields l)))" for k v l
    using set_zip_rightD [OF that] Fields_nonempty [of v l] by (cases "Fields l") auto
  then show ?thesis by (auto simp: routePairs_def)
qed

lemma fold_routeLine:
  "fold routeLine ls info = fold setRoute (concat (map (\<lambda>l. zip (Fields l) (tl (Fields l))) ls)) info"
  by (induction ls arbitrary: info) (simp_all add: routeLine_pairs)

lemma routeFields_table:
  "routeFields out info =
     info\<lparr>ni_Gateway := orFirst (ni_Gateway info) (routePairs out) ''via'',
          ni_Interface := orFirst (ni_Interface info) (routePairs out) ''dev'',
          ni_IP := orFirst (ni_IP info) (routePairs out) ''src''\<rparr>"
  unfolding routeFields_def fold_routeLine routePairs_def [symmetric] by (rule fold_setRoute [OF routePairs_nonempty])

section \<open>The contract of a probe\<close>

lemma RunCommand_reply [simp]: "ssh_reply (snd (RunCommand c cmd s)) = ssh_reply s"
  by (simp add: RunCommand_def Let_def case_prod_beta split: option.split)

text \<open>The commands run between two states of the system, and nothing else has changed.\<close>

definition runs :: "Client \<Rightarrow> (string \<Rightarrow> bool) \<Rightarrow> system \<Rightarrow> system \<Rightarrow> bool" where
  "runs c P s s' \<longleftrightarrow>
     disk s' = disk s \<and> ssh_reply s' = ssh_reply s \<and> (\<exists>cmds. calls s' = calls s @ map (run_call c) cmds \<and> list_all P cmds)"

lemma runs_refl [simp, intro]: "runs c P s s"
  unfolding runs_def by (intro conjI exI [of _ "[]"]) simp_all

lemma runs_trans: "runs c P s s1 \<Longrightarrow> runs c P s1 s2 \<Longrightarrow> runs c P s s2"
  unfolding runs_def
proof (elim conjE exE, intro conjI)
  fix xs ys
  assume "calls s1 = calls s @ map (run_call c) xs" "list_all P xs"
    and "calls s2 = calls s1 @ map (run_call c) ys" "list_all P ys"
  then show "\<exists>zs. calls s2 = calls s @ map (run_call c) zs \<and> list_all P zs"
    by (intro exI [of _ "xs @ ys"]) simp
qed simp_all

lemma runs_RunCommand: "P cmd \<Longrightarrow> runs c P s (snd (RunCommand c cmd s))"
  unfolding runs_def by (intro conjI exI [of _ "[cmd]"]) (simp_all add: running.log_run)

lemma runs_mono: "runs c P s s' \<Longrightarrow> (\<And>cmd. P cmd \<Longrightarrow> Q cmd) \<Longrightarrow> runs c Q s s'"
  unfolding runs_def by (meson list.pred_mono_strong)

text \<open>
  The commands of the detection: about the interface, and about the VLAN parent the remote host
  has named, a text without blanks.
\<close>

definition parent_name :: "string \<Rightarrow> bool" where
  "parent_name p \<longleftrightarrow> list_all (\<lambda>x. \<not> re_space x) p"

lemma parent_name_Nil [simp]: "parent_name []"
  by (simp add: parent_name_def)

definition detection_cmd :: "string \<Rightarrow> string \<Rightarrow> bool" where
  "detection_cmd iface cmd \<longleftrightarrow>
     cmd \<in> {''hostname'', addr_cmd iface, link_cmd iface, bonding_cmd iface ''slaves'',
             bonding_cmd iface ''mode'', bridge_cmd iface} \<or>
     (\<exists>p. parent_name p \<and> cmd \<in> {bonding_cmd p ''slaves'', bonding_cmd p ''mode''})"

locale network_probe =
  fixes c :: Client
    and probe :: probe
  assumes iface: "ni_Interface (fst (probe i s)) = ni_Interface i"
    and parent: "parent_name (ni_VLANPhysdev i) \<Longrightarrow> parent_name (ni_VLANPhysdev (fst (probe i s)))"
    and ran: "parent_name (ni_VLANPhysdev i) \<Longrightarrow> runs c (detection_cmd (ni_Interface i)) s (snd (probe i s))"
begin

lemma probe_eq:
  assumes "probe i s = (i', s')" "parent_name (ni_VLANPhysdev i)"
  shows "ni_Interface i' = ni_Interface i \<and> parent_name (ni_VLANPhysdev i') \<and>
    runs c (detection_cmd (ni_Interface i)) s s'"
  using iface [of i s] parent [of i s] ran [of i s] assms by simp

lemma ran_after: "runs c (detection_cmd (ni_Interface i)) s0 s \<Longrightarrow> parent_name (ni_VLANPhysdev i) \<Longrightarrow>
    runs c (detection_cmd (ni_Interface i)) s0 (snd (probe i s))"
  using ran runs_trans by blast

end

lemma andThen_probe:
  assumes "network_probe c f" "network_probe c g"
  shows "network_probe c (andThen f g)"
proof -
  have step: "ni_Interface (fst (andThen f g i s)) = ni_Interface i \<and>
      (parent_name (ni_VLANPhysdev i) \<longrightarrow> parent_name (ni_VLANPhysdev (fst (andThen f g i s))) \<and>
        runs c (detection_cmd (ni_Interface i)) s (snd (andThen f g i s)))" for i s
  proof -
    obtain i1 s1 where f: "f i s = (i1, s1)" by (cases "f i s")
    obtain i2 s2 where g: "g i1 s1 = (i2, s2)" by (cases "g i1 s1")
    have "andThen f g i s = (i2, s2)" by (simp add: andThen_def f g)
    moreover have "ni_Interface i1 = ni_Interface i" "ni_Interface i2 = ni_Interface i1"
      using network_probe.iface [OF assms(1), of i s] network_probe.iface [OF assms(2), of i1 s1] f g by simp_all
    ultimately show ?thesis
      using network_probe.probe_eq [OF assms(1) f] network_probe.probe_eq [OF assms(2) g] runs_trans by fastforce
  qed
  show ?thesis by unfold_locales (use step in blast)+
qed

lemma parseVLANLink_parent: "parent_name (fst (parseVLANLink out))"
proof (cases "vlanParent out")
  case None
  then show ?thesis by (simp add: parseVLANLink_def parent_name_def)
next
  case (Some m)
  with set_trim_space [of m] vlanParent_chars [OF Some] show ?thesis
    by (auto simp: parseVLANLink_def parent_name_def list_all_iff)
qed

text \<open>Every probe is one command, or none, and an update of other fields than the interface.\<close>

lemmas probe_simps = case_prod_beta Let_def runs_RunCommand detection_cmd_def

lemma detectBond_runs:
  "ni_Interface (fst (detectBond c i s)) = ni_Interface i"
  "ni_VLANPhysdev (fst (detectBond c i s)) = ni_VLANPhysdev i"
  "runs c (\<lambda>cmd. cmd = bonding_cmd (ni_Interface i) ''slaves'') s (snd (detectBond c i s))"
  by (simp_all add: detectBond_def probe_simps)

lemma detectBondMode_runs:
  "ni_Interface (fst (detectBondMode c i s)) = ni_Interface i"
  "ni_VLANPhysdev (fst (detectBondMode c i s)) = ni_VLANPhysdev i"
  "runs c (\<lambda>cmd. cmd = bonding_cmd (ni_Interface i) ''mode'') s (snd (detectBondMode c i s))"
  by (simp_all add: detectBondMode_def probe_simps split: list.split)

interpretation fill_addr: network_probe c "fillIPFromAddr c" for c
  by unfold_locales (simp_all add: fillIPFromAddr_def probe_simps)

interpretation prefix_of: network_probe c "detectPrefix c" for c
  by unfold_locales (simp_all add: detectPrefix_def probe_simps)

interpretation host_name: network_probe c "detectHostname c" for c
  by unfold_locales (simp_all add: detectHostname_def probe_simps)

interpretation vlan: network_probe c "detectVLAN c" for c
  by unfold_locales (simp_all add: detectVLAN_def probe_simps parseVLANLink_parent)

interpretation bond: network_probe c "detectBond c" for c
  by unfold_locales
    (simp_all add: detectBond_runs, rule runs_mono [OF detectBond_runs(3)], simp add: detection_cmd_def)

interpretation bond_mode: network_probe c "detectBondMode c" for c
  by unfold_locales
    (simp_all add: detectBondMode_runs, rule runs_mono [OF detectBondMode_runs(3)], simp add: detection_cmd_def)

lemma detectVLANBond_runs:
  assumes "parent_name (ni_VLANPhysdev i)"
  shows "runs c (detection_cmd (ni_Interface i)) s (snd (detectVLANBond c i s))"
proof (cases "ni_VLANPhysdev i = []")
  case False
  let ?p = "newInfo (ni_VLANPhysdev i)"
  let ?r = "detectBond c ?p s"
  have new: "ni_Interface ?p = ni_VLANPhysdev i" by (simp add: newInfo_def)
  have "runs c (detection_cmd (ni_Interface i)) s (snd ?r)"
    by (rule runs_mono [OF detectBond_runs(3)]) (use assms in \<open>auto simp: new detection_cmd_def\<close>)
  moreover have "runs c (detection_cmd (ni_Interface i)) (snd ?r) (snd (detectBondMode c (fst ?r) (snd ?r)))"
    by (rule runs_mono [OF detectBondMode_runs(3)])
      (use assms in \<open>auto simp: new detectBond_runs(1) detection_cmd_def\<close>)
  ultimately show ?thesis
    using False runs_trans by (simp add: detectVLANBond_def case_prod_beta Let_def)
qed (simp add: detectVLANBond_def)

interpretation vlan_bond: network_probe c "detectVLANBond c" for c
  by unfold_locales (simp_all add: detectVLANBond_runs, simp_all add: detectVLANBond_def case_prod_beta Let_def)

interpretation bridge: network_probe c "detectBridge c" for c
  by unfold_locales (simp_all add: detectBridge_def probe_simps)

interpretation topology: network_probe c "detectInterfaceTopology c" for c
  unfolding detectInterfaceTopology_def
  by (intro andThen_probe vlan.network_probe_axioms bond.network_probe_axioms bond_mode.network_probe_axioms
      vlan_bond.network_probe_axioms bridge.network_probe_axioms)

interpretation details: network_probe c
    "andThen (detectPrefix c) (andThen (detectHostname c) (detectInterfaceTopology c))" for c
  by (intro andThen_probe prefix_of.network_probe_axioms host_name.network_probe_axioms
      topology.network_probe_axioms)

section \<open>What the detection returns\<close>

definition host_fields :: "NetworkInfo \<Rightarrow> string \<times> int \<times> string \<times> string" where
  "host_fields i = (ni_IP i, ni_Prefix i, ni_Gateway i, ni_Hostname i)"

lemma andThen_fst: "fst (andThen f g i s) = fst (g (fst (f i s)) (snd (f i s)))"
  "snd (andThen f g i s) = snd (g (fst (f i s)) (snd (f i s)))"
  by (simp_all add: andThen_def case_prod_beta)

lemma probes_keep_host:
  "host_fields (fst (detectVLAN c i s)) = host_fields i"
  "host_fields (fst (detectBond c i s)) = host_fields i"
  "host_fields (fst (detectBondMode c i s)) = host_fields i"
  "host_fields (fst (detectVLANBond c i s)) = host_fields i"
  "host_fields (fst (detectBridge c i s)) = host_fields i"
  by (simp_all add: host_fields_def case_prod_beta Let_def detectVLAN_def split: list.split)
     (simp_all add: detectBond_def detectBondMode_def detectVLANBond_def detectBridge_def
       case_prod_beta Let_def split: list.split)

lemma topology_keeps_host: "host_fields (fst (detectInterfaceTopology c i s)) = host_fields i"
  by (simp add: detectInterfaceTopology_def andThen_fst probes_keep_host)

lemma topology_keeps:
  "ni_IP (fst (detectInterfaceTopology c i s)) = ni_IP i"
  "ni_Prefix (fst (detectInterfaceTopology c i s)) = ni_Prefix i"
  "ni_Gateway (fst (detectInterfaceTopology c i s)) = ni_Gateway i"
  "ni_Hostname (fst (detectInterfaceTopology c i s)) = ni_Hostname i"
  using topology_keeps_host [of c i s] by (simp_all add: host_fields_def)

lemma hostname_keeps:
  "ni_IP (fst (detectHostname c i s)) = ni_IP i" "ni_Prefix (fst (detectHostname c i s)) = ni_Prefix i"
  "ni_Gateway (fst (detectHostname c i s)) = ni_Gateway i" "ni_Hostname (fst (detectHostname c i s)) \<noteq> []"
  by (simp_all add: detectHostname_def case_prod_beta Let_def)

lemma prefix_keeps:
  "ni_IP (fst (detectPrefix c i s)) = ni_IP i" "ni_Gateway (fst (detectPrefix c i s)) = ni_Gateway i"
  "ni_Prefix i \<noteq> 0 \<Longrightarrow> ni_Prefix (fst (detectPrefix c i s)) = ni_Prefix i"
  "ni_IP i \<noteq> [] \<Longrightarrow> 0 \<le> ni_Prefix i \<Longrightarrow> 0 < ni_Prefix (fst (detectPrefix c i s))"
  by (simp_all add: detectPrefix_def case_prod_beta Let_def)

lemma prefix_bound: "ni_Prefix i \<le> 32 \<Longrightarrow> ni_Prefix (fst (detectPrefix c i s)) \<le> 32"
  using prefixForIP_bound by (simp add: detectPrefix_def case_prod_beta Let_def)

lemma fill_keeps:
  "ni_Gateway (fst (fillIPFromAddr c i s)) = ni_Gateway i"
  "0 \<le> ni_Prefix i \<Longrightarrow> 0 \<le> ni_Prefix (fst (fillIPFromAddr c i s))"
  by (simp_all add: fillIPFromAddr_def case_prod_beta Let_def)

lemma fill_bound: "ni_Prefix i \<le> 32 \<Longrightarrow> ni_Prefix (fst (fillIPFromAddr c i s)) \<le> 32"
  using firstInetAddr_bound by (simp add: fillIPFromAddr_def case_prod_beta Let_def)

definition detect_rest :: "Client \<Rightarrow> probe" where
  "detect_rest c i s =
     (let (i2, s2) = (if ni_IP i = [] then fillIPFromAddr c i s else (i, s))
      in andThen (detectPrefix c) (andThen (detectHostname c) (detectInterfaceTopology c)) i2 s2)"

lemma detectNetwork_rest:
  "detectNetwork c cfg =
     thenS (liftS (applyConfigIP (net_IP (Network cfg)) (newInfo (net_Interface (Network cfg))))) (\<lambda>info0.
     thenS (parseDefaultRoute c info0) (\<lambda>info1.
     thenS (liftS (validateInterface info1)) (\<lambda>_ s1.
       (bindE (validateNetworkInfo (fst (detect_rest c info1 s1))) (\<lambda>_. Inr (fst (detect_rest c info1 s1))),
        snd (detect_rest c info1 s1)))))"
  unfolding detectNetwork_def detect_rest_def by (simp add: case_prod_beta Let_def)

lemma rest_contract: "network_probe c (detect_rest c)"
proof -
  have "network_probe c (\<lambda>i s. if ni_IP i = [] then fillIPFromAddr c i s else (i, s))"
    by unfold_locales (simp_all add: fill_addr.iface fill_addr.parent fill_addr.ran)
  from andThen_probe [OF this details.network_probe_axioms]
  show ?thesis unfolding detect_rest_def andThen_def .
qed

lemma detect_rest_fst:
  "fst (detect_rest c i s) =
     (let (i2, s2) = (if ni_IP i = [] then fillIPFromAddr c i s else (i, s));
          (i3, s3) = detectPrefix c i2 s2;
          (i4, s4) = detectHostname c i3 s3
      in fst (detectInterfaceTopology c i4 s4))"
  by (simp add: detect_rest_def andThen_def case_prod_beta Let_def)

lemma rest_facts:
  "ni_Hostname (fst (detect_rest c i s)) \<noteq> []"
  "ni_Gateway (fst (detect_rest c i s)) = ni_Gateway i"
  "ni_IP i \<noteq> [] \<Longrightarrow> ni_IP (fst (detect_rest c i s)) = ni_IP i"
  "ni_IP i \<noteq> [] \<Longrightarrow> ni_Prefix i \<noteq> 0 \<Longrightarrow> ni_Prefix (fst (detect_rest c i s)) = ni_Prefix i"
  by (simp_all add: detect_rest_fst case_prod_beta Let_def topology_keeps hostname_keeps prefix_keeps fill_keeps)

lemma rest_prefix:
  "ni_IP (fst (detect_rest c i s)) \<noteq> [] \<Longrightarrow> 0 \<le> ni_Prefix i \<Longrightarrow> 0 < ni_Prefix (fst (detect_rest c i s))"
  "ni_Prefix i \<le> 32 \<Longrightarrow> ni_Prefix (fst (detect_rest c i s)) \<le> 32"
  by (simp_all add: detect_rest_fst case_prod_beta Let_def topology_keeps hostname_keeps prefix_keeps fill_keeps
      prefix_bound fill_bound)

section \<open>Valid names are shell words\<close>




section \<open>Properties\<close>

lemma parseDefaultRoute_table:
  "RunCommand c ''ip route show default'' s = ((out, None), s') \<Longrightarrow>
     parseDefaultRoute c info s = (Inr (routeFields out info), s')"
  by (simp add: parseDefaultRoute_def)

text \<open>C19: Reading the default route is a lookup in a table: over all lines of the routing table, the
  gateway, the interface and the source address that are still unset each take the word after
  the first \<open>via\<close>, \<open>dev\<close> and \<open>src\<close>, whichever line it is on, and every other field and every
  field already set stays.\<close>

theorem default_route_is_lookup:
  "parseDefaultRoute c info s =
     (let ((out, err), s') = RunCommand c ''ip route show default'' s;
          table = routePairs out
      in case err of
           Some e \<Rightarrow> (Inl (RouteFailed e), s')
         | None \<Rightarrow>
             (Inr (info\<lparr>ni_Gateway := orFirst (ni_Gateway info) table ''via'',
                         ni_Interface := orFirst (ni_Interface info) table ''dev'',
                         ni_IP := orFirst (ni_IP info) table ''src''\<rparr>), s'))"
  unfolding parseDefaultRoute_def routeFields_table by (simp add: case_prod_beta Let_def)

lemma detectNetwork_runs:
  "runs c (\<lambda>cmd. cmd = ''ip route show default'' \<or> (\<exists>i. isValidInterfaceName i \<and> detection_cmd i cmd))
     s (snd (detectNetwork c cfg s))"
proof -
  let ?P = "\<lambda>cmd. cmd = ''ip route show default'' \<or> (\<exists>i. isValidInterfaceName i \<and> detection_cmd i cmd)"
  let ?route = "RunCommand c ''ip route show default'' s"
  have route: "runs c ?P s (snd ?route)" by (rule runs_RunCommand) simp
  have rest: "runs c ?P (snd ?route) (snd (detect_rest c i (snd ?route)))"
    if "validateInterface i = Inr ()" "ni_VLANPhysdev i = []" for i
    by (rule runs_mono [OF network_probe.ran [OF rest_contract]])
      (use that in \<open>auto simp: validateInterface_def split: if_splits\<close>)
  have none: "ni_VLANPhysdev (routeFields out i) = ni_VLANPhysdev i" for out i
    unfolding routeFields_table by simp
  have init: "ni_VLANPhysdev i = []" if "applyConfigIP ip (newInfo f) = Inr i" for ip f i
    using that by (auto simp: applyConfigIP_def newInfo_def split: if_splits option.splits prod.splits)
  show ?thesis
    unfolding detectNetwork_rest thenS_def parseDefaultRoute_def
    using route rest none init
    by (auto simp: case_prod_beta Let_def intro: runs_trans split: sum.split option.split)
qed

section \<open>The questions in their order\<close>

text \<open>Commands out of a list, in the order of the list, and nothing else.\<close>

definition asked_in :: "Client \<Rightarrow> string list \<Rightarrow> system \<Rightarrow> system \<Rightarrow> bool" where
  "asked_in c xs s s' \<longleftrightarrow>
     disk s' = disk s \<and> (\<exists>cmds. calls s' = calls s @ map (run_call c) cmds \<and> subseq cmds xs)"


lemma asked_in_trans:
  assumes "asked_in c xs s s1" "asked_in c ys s1 s2"
  shows "asked_in c (xs @ ys) s s2"
proof -
  from assms obtain as bs where "calls s1 = calls s @ map (run_call c) as" "subseq as xs"
    "calls s2 = calls s1 @ map (run_call c) bs" "subseq bs ys" "disk s2 = disk s"
    by (auto simp: asked_in_def)
  then show ?thesis
    unfolding asked_in_def by (intro conjI exI [of _ "as @ bs"]) (auto intro: list_emb_append_mono)
qed


lemma asked_in_andThen:
  "asked_in c xs s (snd (f i s)) \<Longrightarrow> asked_in c ys (snd (f i s)) (snd (g (fst (f i s)) (snd (f i s)))) \<Longrightarrow>
     asked_in c (xs @ ys) s (snd (andThen f g i s))"
  unfolding andThen_fst by (rule asked_in_trans)







text \<open>A host that answers every question about a VLAN on a bond.\<close>

definition vlan_host :: "nat \<Rightarrow> ssh_call \<Rightarrow> proc" where
  "vlan_host n call =
     (let out = [''via 9.0.0.1 dev b.7'', ''inet 9.0.0.2/20'', ''x'', ''b.7@b: vlan id 7'', [], ''e f'', ''m 1'', [], [],
                 ''{'' @ [dq] @ ''dropbear_pub_key'' @ [dq] @ '':'' @ [dq] @ ''ssh-ed25519 A'' @ [dq] @ ''}'']
      in \<lparr>p_stdout = out ! n, p_stderr = [], p_err = None\<rparr>)"

definition vlan_system :: system where
  "vlan_system =
     \<lparr>disk = clean_world, calls = [], ssh_reply = vlan_host, tty = \<lparr>t_lines = [], t_rest = [], t_broken = False\<rparr>,
      on_path = \<lambda>_. True\<rparr>"

definition vlan_client :: Client where
  "vlan_client =
     \<lparr>rc_host = ''h'', rc_port = 22, rc_user = ''root'', rc_keyPath = [], rc_sudo = False, rc_sudoPassword = [],
      rc_proxyJump = [], rc_knownHostsFile = ''k'', rc_strictMode = ''yes'', rc_tempKnownHosts = []\<rparr>"

lemma applyConfigIP_ok:
  "applyConfigIP ip i = Inr i' \<longleftrightarrow>
     (if ip = [] then i' = i
      else \<exists>a n. ParseCIDR ip = Some (a, n) \<and>
             i' = i\<lparr>ni_IP := IP_String a, ni_Prefix := int (Mask_Size (net_mask n))\<rparr>)"
  by (auto simp: applyConfigIP_def split: option.splits)

text \<open>C18: A detection that succeeds has found everything: a valid interface name, an address, a
  gateway, a host name and a prefix of at least 1, of at most 32 unless the configured address is
  an IPv6 address. What the user has configured is used instead of what the host says.\<close>

theorem detected_network:
  assumes "detectNetwork c cfg s = (Inr info, s')"
  shows "isValidInterfaceName (ni_Interface info) \<and> ni_IP info \<noteq> [] \<and> ni_Gateway info \<noteq> [] \<and>
    ni_Hostname info \<noteq> [] \<and> 0 < ni_Prefix info \<and>
    (CHR '':'' \<notin> set (net_IP (Network cfg)) \<longrightarrow> ni_Prefix info \<le> 32) \<and>
    (net_Interface (Network cfg) \<noteq> [] \<longrightarrow> ni_Interface info = net_Interface (Network cfg)) \<and>
    (\<forall>a n. net_IP (Network cfg) \<noteq> [] \<and> ParseCIDR (net_IP (Network cfg)) = Some (a, n) \<longrightarrow>
       ni_IP info = IP_String a \<and>
       (Mask_Size (net_mask n) \<noteq> 0 \<longrightarrow> ni_Prefix info = int (Mask_Size (net_mask n))))"
proof -
  let ?ip = "net_IP (Network cfg)" and ?new = "newInfo (net_Interface (Network cfg))"
  from assms obtain i0 out s1 where i0: "applyConfigIP ?ip ?new = Inr i0"
    and v: "validateInterface (routeFields out i0) = Inr ()"
    and n: "validateNetworkInfo (fst (detect_rest c (routeFields out i0) s1)) = Inr ()"
    and info: "info = fst (detect_rest c (routeFields out i0) s1)"
    unfolding detectNetwork_rest
    by (auto simp: res_simps parseDefaultRoute_def case_prod_beta Let_def split: option.splits)
  let ?i1 = "routeFields out i0"
  have iface: "ni_Interface info = ni_Interface ?i1"
    unfolding info by (rule network_probe.iface [OF rest_contract])
  have ok: "isValidInterfaceName (ni_Interface ?i1)" "ni_IP info \<noteq> []" "ni_Gateway info \<noteq> []"
    using v n by (auto simp: validateInterface_def validateNetworkInfo_def info split: if_splits)
  have i1: "ni_Interface ?i1 = orFirst (ni_Interface i0) (routePairs out) ''dev''"
    "ni_IP ?i1 = orFirst (ni_IP i0) (routePairs out) ''src''" "ni_Prefix ?i1 = ni_Prefix i0"
    by (simp_all add: routeFields_table)
  have i0_fields: "ni_Interface i0 = net_Interface (Network cfg)" "0 \<le> ni_Prefix i0"
    "CHR '':'' \<notin> set ?ip \<Longrightarrow> ni_Prefix i0 \<le> 32"
    using i0 by (auto simp: applyConfigIP_ok newInfo_def dest: ParseCIDR_prefix split: if_splits)
  have conf: "ni_IP i0 = IP_String a \<and> ni_IP i0 \<noteq> [] \<and> ni_Prefix i0 = int (Mask_Size (net_mask n))"
    if "?ip \<noteq> []" "ParseCIDR ?ip = Some (a, n)" for a n
    using i0 that IP_String_not_Nil ParseCIDR_length by (auto simp: applyConfigIP_ok)
  have "0 < ni_Prefix info" using rest_prefix(1) ok(2) i0_fields(2) by (simp add: info i1)
  moreover have "CHR '':'' \<notin> set ?ip \<longrightarrow> ni_Prefix info \<le> 32"
    using rest_prefix(2) i0_fields(3) by (simp add: info i1)
  moreover have "ni_IP info = IP_String a \<and>
      (Mask_Size (net_mask n) \<noteq> 0 \<longrightarrow> ni_Prefix info = int (Mask_Size (net_mask n)))"
    if "?ip \<noteq> []" "ParseCIDR ?ip = Some (a, n)" for a n
  proof -
    have "ni_IP ?i1 = IP_String a" "ni_IP ?i1 \<noteq> []" "ni_Prefix ?i1 = int (Mask_Size (net_mask n))"
      using conf [OF that] by (auto simp: i1 orFirst_def)
    then show ?thesis using rest_facts(3,4) [of ?i1 c s1] by (simp add: info)
  qed
  ultimately show ?thesis
    using ok iface i1(1) i0_fields(1) rest_facts(1) by (simp add: info orFirst_def)
qed

definition vlan_info :: NetworkInfo where
  "vlan_info =
     \<lparr>ni_Interface = ''b.7'', ni_IP = ''9.0.0.2'', ni_Prefix = 20, ni_Gateway = ''9.0.0.1'', ni_Hostname = ''x'',
      ni_VLANPhysdev = ''b'', ni_VLANID = 7, ni_BondSlaves = [''e'', ''f''], ni_BondMode = ''m'', ni_BridgePorts = []\<rparr>"

lemma vlan_system_run:
  "case detectNetwork vlan_client Default vlan_system of
     (Inl e, s') \<Rightarrow> False
   | (Inr info, s') \<Rightarrow> info = vlan_info \<and> length (calls s') = 8"
  by code_simp

lemma vlan_system_detected:
  "\<exists>s'. detectNetwork vlan_client Default vlan_system = (Inr vlan_info, s') \<and> length (calls s') = 8 \<and>
     disk s' = clean_world \<and> ssh_reply s' = vlan_host"
  using vlan_system_run detectNetwork_runs [of vlan_client vlan_system Default]
  by (auto simp: runs_def vlan_system_def split: prod.splits sum.splits)


lemma detected_network_witness:
  "\<exists>info s'. detectNetwork vlan_client Default vlan_system = (Inr info, s') \<and>
     0 < ni_Prefix info \<and> ni_Prefix info \<le> 32 \<and> ni_BondSlaves info = [''e'', ''f'']"
proof -
  obtain s' where "detectNetwork vlan_client Default vlan_system = (Inr vlan_info, s')"
    using vlan_system_detected by blast
  from detected_network [OF this] this show ?thesis by (simp add: Default_def) (simp add: vlan_info_def)
qed

end
