(* ===== verification/Grub.thy ===== *)
theory Grub
  imports Net_Detect
begin

text \<open>
  The kernel command line of the boot loader, \<open>internal/setup/setup.go\<close>: \<open>updateGrubContent\<close> edits
  the text of \<open>/etc/default/grub\<close>, \<open>configureGrub\<close> reads and writes it on the remote host. The
  expression is \<open>(?m)^(GRUB_CMDLINE_LINUX=")([^"]*)(")\<close>: a key at the start of a line and a value
  up to the next quote, on this or a later line.
\<close>

section \<open>The expression\<close>

definition grub_key :: string where
  "grub_key = ''GRUB_CMDLINE_LINUX='' @ [dq]"

text \<open>At the start of a line: the second group, and the text after the closing quote.\<close>

definition grub_match :: "string \<Rightarrow> (string \<times> string) option" where
  "grub_match s = (if has_prefix s grub_key then cut_byte (drop (length grub_key) s) dq else None)"

lemma grub_match_Some: "grub_match s = Some (v, r) \<Longrightarrow> s = grub_key @ v @ dq # r \<and> dq \<notin> set v"
proof -
  assume h: "grub_match s = Some (v, r)"
  then obtain t where "s = grub_key @ t" and "cut_byte t dq = Some (v, r)"
    by (auto simp: grub_match_def has_prefix_iff split: if_splits)
  with cut_byte_Some show ?thesis by blast
qed

lemma grub_match_shorter: "grub_match s = Some (v, r) \<Longrightarrow> length r < length s"
  by (drule grub_match_Some) simp

text \<open>
  The second groups of all matches, and the text with the second groups replaced; \<open>bol\<close> says
  whether the text is at the start of a line. The text after a match never is.
\<close>

function grub_values :: "bool \<Rightarrow> string \<Rightarrow> string list" where
  "grub_values bol [] = []"
| "grub_values bol (c # s) =
     (case (if bol then grub_match (c # s) else None) of
        Some (v, r) \<Rightarrow> v # grub_values False r
      | None \<Rightarrow> grub_values (c = nl) s)"
  by pat_completeness auto
termination
  by (relation "measure (\<lambda>(b, s). length s)") (auto split: if_splits dest: grub_match_shorter)

function grub_replace :: "(string \<Rightarrow> string) \<Rightarrow> bool \<Rightarrow> string \<Rightarrow> string" where
  "grub_replace f bol [] = []"
| "grub_replace f bol (c # s) =
     (case (if bol then grub_match (c # s) else None) of
        Some (v, r) \<Rightarrow> grub_key @ f v @ dq # grub_replace f False r
      | None \<Rightarrow> c # grub_replace f (c = nl) s)"
  by pat_completeness auto
termination
  by (relation "measure (\<lambda>(f, b, s). length s)") (auto split: if_splits dest: grub_match_shorter)

section \<open>The edit\<close>

definition cmdlineHasIPParam :: "string \<Rightarrow> bool" where
  "cmdlineHasIPParam cmdline \<longleftrightarrow> list_ex (\<lambda>f. has_prefix f ''ip='') (Fields cmdline)"

definition updateGrubContent :: "string \<Rightarrow> string \<Rightarrow> string \<times> bool" where
  "updateGrubContent content ipParam =
     (if grub_values True content = [] then
        (content @ [nl] @ grub_key @ ipParam @ [dq, nl], True)
      else
        let alreadySet = list_ex cmdlineHasIPParam (grub_values True content);
            updated = grub_replace
              (\<lambda>existing. if cmdlineHasIPParam existing then existing
                          else trim_space (existing @ '' '' @ ipParam)) True content
        in if alreadySet then (content, False) else (updated, True))"

section \<open>The file on the remote host\<close>

text \<open>\<open>prefixToNetmask\<close>; \<open>None\<close> is the panic of indexing the \<open>nil\<close> mask of a prefix beyond 32.\<close>

definition prefixToNetmask :: "int \<Rightarrow> string option" where
  "prefixToNetmask bits = map_option dotted (CIDRMask bits 32)"

datatype grub_error = ReadGrub remote_error | NetmaskPanic | WriteGrub remote_error | UpdateGrub remote_error

definition grub_ip_param :: "NetworkInfo \<Rightarrow> string \<Rightarrow> string" where
  "grub_ip_param info netmask =
     ''ip='' @ ni_IP info @ ''::'' @ ni_Gateway info @ '':'' @ netmask @ '':'' @ ni_Hostname info @ '':'' @
     ni_Interface info @ '':none''"

definition grubPath :: string where "grubPath = ''/etc/default/grub''"

definition configureGrub :: "Client \<Rightarrow> NetworkInfo \<Rightarrow> (system, grub_error, unit) step" where
  "configureGrub c info =
     thenS (wrapS ReadGrub (ReadFile c grubPath)) (\<lambda>content.
     case prefixToNetmask (ni_Prefix info) of
       None \<Rightarrow> liftS (Inl NetmaskPanic)
     | Some netmask \<Rightarrow>
         let (updated, changed) = updateGrubContent content (grub_ip_param info netmask)
         in if \<not> changed then returnS ()
            else thenS (wrapS WriteGrub (WriteFile c grubPath updated 0x1A4)) (\<lambda>_ s.
                 let ((_, err), s') = RunCommand c ''update-grub 2>&1'' s
                 in case err of Some e \<Rightarrow> (Inl (UpdateGrub e), s') | None \<Rightarrow> (Inr (), s')))"

section \<open>The edit line by line\<close>

text \<open>
  A key line closes its quote on the same line; then a line is a key line with a value and a
  rest, or any other line.
\<close>

definition key_line :: "string \<Rightarrow> bool" where
  "key_line l \<longleftrightarrow> has_prefix l grub_key"

definition closed_line :: "string \<Rightarrow> bool" where
  "closed_line l \<longleftrightarrow> (key_line l \<longrightarrow> dq \<in> set (drop (length grub_key) l))"

definition map_value :: "(string \<Rightarrow> string) \<Rightarrow> string \<Rightarrow> string" where
  "map_value f l = (case grub_match l of None \<Rightarrow> l | Some (v, r) \<Rightarrow> grub_key @ f v @ dq # r)"

definition line_value :: "string \<Rightarrow> string list" where
  "line_value l = (case grub_match l of None \<Rightarrow> [] | Some (v, r) \<Rightarrow> [v])"

text \<open>The text of lines joined by newlines, without a last one.\<close>

definition lines_text :: "string list \<Rightarrow> string" where
  "lines_text ls = join ls [nl]"

lemma replace_mid: "nl \<notin> set s \<Longrightarrow> grub_replace f False (s @ t) = s @ grub_replace f False t"
  by (induction s) auto

lemma values_mid: "nl \<notin> set s \<Longrightarrow> grub_values False (s @ t) = grub_values False t"
  by (induction s) auto

lemma has_prefix_line: "nl \<notin> set k \<Longrightarrow> has_prefix (l @ nl # t) k \<longleftrightarrow> has_prefix l k"
proof (induction k arbitrary: l)
  case (Cons x k)
  then show ?case by (cases l) (auto simp: str_simps)
qed (simp add: str_simps)

lemma nl_grub_key: "nl \<notin> set grub_key"
  by (simp add: grub_key_def)

lemma grub_match_append:
  assumes "closed_line l"
  shows "grub_match (l @ nl # t) =
    (case grub_match l of None \<Rightarrow> None | Some (v, r) \<Rightarrow> Some (v, r @ nl # t))"
proof (cases "key_line l")
  case True
  then obtain u where l: "l = grub_key @ u" by (auto simp: key_line_def has_prefix_iff)
  with assms True have "dq \<in> set u" by (simp add: closed_line_def)
  then obtain v r where u: "u = v @ dq # r" "dq \<notin> set v" by (meson split_list_first)
  then show ?thesis by (simp add: grub_match_def l cut_byte_append)
next
  case False
  then show ?thesis by (simp add: grub_match_def key_line_def has_prefix_line [OF nl_grub_key])
qed

lemma grub_match_Nil [simp]: "grub_match [] = None" "grub_match (nl # t) = None"
  by (simp_all add: grub_match_def grub_key_def str_simps)

lemma match_no_nl: "grub_match l = Some (v, r) \<Longrightarrow> nl \<notin> set l \<Longrightarrow> nl \<notin> set v \<and> nl \<notin> set r"
  by (drule grub_match_Some) simp

text \<open>One line at a time.\<close>

lemma values_line:
  assumes "closed_line l" "nl \<notin> set l"
  shows "grub_values True (l @ nl # t) = line_value l @ grub_values True t"
    and "grub_values True l = line_value l"
proof -
  have "grub_values True (l @ nl # t) = line_value l @ grub_values True t \<and> grub_values True l = line_value l"
  proof (cases "grub_match l")
    case None
    show ?thesis
    proof (cases l)
      case (Cons c l')
      with assms(2) have "c \<noteq> nl" "nl \<notin> set l'" by auto
      with None grub_match_append [OF assms(1), of t] values_mid [of l' "nl # t"] values_mid [of l' "[]"]
      show ?thesis by (simp add: Cons line_value_def)
    qed (simp add: line_value_def)
  next
    case (Some x)
    obtain v r where x: "x = (v, r)" by (cases x)
    with Some have "l \<noteq> []" by auto
    then obtain c l' where l: "l = c # l'" by (cases l) auto
    from match_no_nl [OF Some [unfolded x] assms(2)] have "nl \<notin> set r" by simp
    with Some grub_match_append [OF assms(1), of t] values_mid [of r "nl # t"] values_mid [of r "[]"]
    show ?thesis by (simp add: l x line_value_def)
  qed
  then show "grub_values True (l @ nl # t) = line_value l @ grub_values True t"
    and "grub_values True l = line_value l" by simp_all
qed

lemma replace_line:
  assumes "closed_line l" "nl \<notin> set l"
  shows "grub_replace f True (l @ nl # t) = map_value f l @ nl # grub_replace f True t"
    and "grub_replace f True l = map_value f l"
proof -
  have "grub_replace f True (l @ nl # t) = map_value f l @ nl # grub_replace f True t \<and>
      grub_replace f True l = map_value f l"
  proof (cases "grub_match l")
    case None
    show ?thesis
    proof (cases l)
      case (Cons c l')
      with assms(2) have "c \<noteq> nl" "nl \<notin> set l'" by auto
      with None grub_match_append [OF assms(1), of t] replace_mid [of l' f "nl # t"] replace_mid [of l' f "[]"]
      show ?thesis by (simp add: Cons map_value_def)
    qed (simp add: map_value_def)
  next
    case (Some x)
    obtain v r where x: "x = (v, r)" by (cases x)
    with Some have "l \<noteq> []" by auto
    then obtain c l' where l: "l = c # l'" by (cases l) auto
    from match_no_nl [OF Some [unfolded x] assms(2)] have "nl \<notin> set r" by simp
    with Some grub_match_append [OF assms(1), of t] replace_mid [of r f "nl # t"] replace_mid [of r f "[]"]
    show ?thesis by (simp add: l x map_value_def)
  qed
  then show "grub_replace f True (l @ nl # t) = map_value f l @ nl # grub_replace f True t"
    and "grub_replace f True l = map_value f l" by simp_all
qed

lemma lines_text_simps [simp]:
  "lines_text [] = []" "lines_text [l] = l" "lines_text (l # m # ls) = l @ nl # lines_text (m # ls)"
  by (simp_all add: lines_text_def)

lemma values_lines:
  "\<forall>l\<in>set ls. closed_line l \<and> nl \<notin> set l \<Longrightarrow> grub_values True (lines_text ls) = concat (map line_value ls)"
  by (induction ls rule: induct_list012) (simp_all add: values_line)

lemma replace_lines:
  "\<forall>l\<in>set ls. closed_line l \<and> nl \<notin> set l \<Longrightarrow> grub_replace f True (lines_text ls) = lines_text (map (map_value f) ls)"
  by (induction ls rule: induct_list012) (simp_all add: replace_line)

lemma lines_text_split: "lines_text (split_char nl s) = s"
proof (induction s)
  case (Cons c s)
  then show ?case by (cases "split_char nl s"; cases "tl (split_char nl s)") auto
qed simp

lemma split_lines_text: "ls \<noteq> [] \<Longrightarrow> \<forall>l\<in>set ls. nl \<notin> set l \<Longrightarrow> split_char nl (lines_text ls) = ls"
  by (induction ls rule: induct_list012) (simp_all add: split_char_append split_char_no_sep)

text \<open>The edit of a list of lines.\<close>

definition edit_lines :: "string list \<Rightarrow> string \<Rightarrow> string list \<times> bool" where
  "edit_lines ls p =
     (let vs = concat (map line_value ls)
      in if vs = [] then (ls @ [grub_key @ p @ [dq], []], True)
         else if list_ex cmdlineHasIPParam vs then (ls, False)
         else (map (map_value (\<lambda>v. trim_space (v @ '' '' @ p))) ls, True))"

lemma replace_cong:
  "(\<And>v. v \<in> set (grub_values b s) \<Longrightarrow> f v = g v) \<Longrightarrow> grub_replace f b s = grub_replace g b s"
  by (induction b s rule: grub_values.induct) (auto split: option.split)

lemma updateGrubContent_lines:
  assumes "ls \<noteq> []" "\<forall>l\<in>set ls. closed_line l \<and> nl \<notin> set l"
  shows "updateGrubContent (lines_text ls) p = apfst lines_text (edit_lines ls p)"
proof -
  have app: "lines_text (ls @ [a, []]) = lines_text ls @ nl # a @ [nl]" for a
    using assms(1) by (induction ls rule: induct_list012) simp_all
  have "grub_replace (\<lambda>v. if cmdlineHasIPParam v then v else trim_space (v @ '' '' @ p)) True (lines_text ls) =
      grub_replace (\<lambda>v. trim_space (v @ '' '' @ p)) True (lines_text ls)"
    if "\<not> list_ex cmdlineHasIPParam (concat (map line_value ls))"
    by (rule replace_cong) (use that in \<open>auto simp: values_lines [OF assms(2)] list_ex_iff\<close>)
  then show ?thesis
    by (simp add: updateGrubContent_def edit_lines_def Let_def values_lines [OF assms(2)]
        replace_lines [OF assms(2)] app)
qed

section \<open>The words of a command line that ends in a parameter\<close>

lemma long_runes: "list_all (\<lambda>w. length w = 1 \<or> CHR '' '' \<notin> set w) space_runes"
  by code_simp

text \<open>A white-space rune before a blank or a plain character does not reach over it.\<close>

lemma space_at_before:
  assumes "space_at (c # x @ d # y) = Some w" "plain d \<or> d = CHR '' ''"
  shows "length w \<le> length (c # x)"
proof (rule ccontr)
  assume long: "\<not> length w \<le> length (c # x)"
  from space_at_Some [OF assms(1)] have w: "w \<in> set space_runes" "take (length w) (c # x @ d # y) = w"
    by (simp_all add: has_prefix_def)
  have "(c # x @ d # y) ! length (c # x) = d" by simp
  moreover have "(c # x @ d # y) ! length (c # x) = w ! length (c # x)"
    using long w(2) by (metis nth_take not_le)
  ultimately have "d \<in> set w" using long by (metis nth_mem not_le)
  moreover have "length w \<noteq> 1" using long by simp
  ultimately show False
    using w(1) long_runes space_runes_not_plain assms(2) unfolding list_all_iff by blast
qed

lemma fields_from_word_last:
  assumes "p \<noteq> []" "\<forall>c\<in>set p. plain c"
  shows "p \<in> set (fields_from cur (x @ CHR '' '' # p))"
proof (induction "length x" arbitrary: cur x rule: less_induct)
  case less
  show ?case
  proof (cases x)
    case Nil
    have "fields_from [] p = [p]"
      using fields_from_plain [OF assms(2), of "[]" "[]"] assms(1) by (simp add: flush_def)
    then show ?thesis by (simp add: Nil space_at_ascii ascii_spaces_def)
  next
    case (Cons c x')
    show ?thesis
    proof (cases "space_at (c # x' @ CHR '' '' # p)")
      case None
      with less [of x' "cur @ [c]"] show ?thesis by (simp add: Cons)
    next
      case (Some w)
      then have "length w \<le> length (c # x')" by (rule space_at_before) simp
      moreover have "w \<noteq> []" using space_at_Some [OF Some] space_runes_nonempty by blast
      ultimately have "drop (length w) (c # x' @ CHR '' '' # p) = drop (length w) (c # x') @ CHR '' '' # p"
        and "length (drop (length w) (c # x')) < length x"
        by (simp_all add: Cons drop_Cons')
      with less [of "drop (length w) (c # x')" "[]"] Some show ?thesis by (simp add: Cons)
    qed
  qed
qed

lemma Fields_trim_left: "Fields (trim_left s) = Fields s"
proof (induction s rule: trim_left.induct)
  case (1 s)
  show ?case
  proof (cases "space_at s")
    case None
    then show ?thesis by (simp add: trim_left_id)
  next
    case (Some w)
    then obtain c r where "s = c # r" by (cases s) auto
    with 1 Some show ?thesis
      by (subst trim_left.simps) (simp add: Fields_def flush_def)
  qed
qed

lemma trim_left_keeps_last:
  assumes "plain d"
  shows "\<exists>x. trim_left (s @ [d]) = x @ [d]"
proof (induction "length s" arbitrary: s rule: less_induct)
  case less
  show ?case
  proof (cases "space_at (s @ [d])")
    case None
    then show ?thesis by (auto simp: trim_left_id)
  next
    case (Some w)
    with assms obtain c x where s: "s = c # x" by (cases s) auto
    with Some assms have "length w \<le> length s" using space_at_before [of c x d "[]" w] by simp
    moreover have "w \<noteq> []" using space_at_Some [OF Some] space_runes_nonempty by blast
    moreover have "s \<noteq> []" by (simp add: s)
    ultimately have "drop (length w) (s @ [d]) = drop (length w) s @ [d]" "length (drop (length w) s) < length s"
      by simp_all
    with less [of "drop (length w) s"] Some show ?thesis by (subst trim_left.simps) simp
  qed
qed

lemma appended_param:
  assumes "p \<noteq> []" "\<forall>c\<in>set p. plain c"
  shows "p \<in> set (Fields (trim_space (v @ '' '' @ p)))"
proof -
  obtain q d where p: "p = q @ [d]" using assms(1) by (cases p rule: rev_cases) auto
  then have "plain d" using assms(2) by simp
  from trim_left_keeps_last [OF this, of "v @ '' '' @ q"] obtain x
    where x: "trim_left (v @ '' '' @ p) = x @ [d]" by (auto simp: p)
  then have "trim_space (v @ '' '' @ p) = trim_left (v @ '' '' @ p)"
    using \<open>plain d\<close> by (simp add: trim_space_def trim_right_id)
  then show ?thesis
    using fields_from_word_last [OF assms, of "[]" v] Fields_trim_left by (simp add: Fields_def)
qed

section \<open>Properties\<close>

text \<open>C29: When every key line of the file closes its quote, editing the text is editing its lines: no
  key line and the parameter is added as a line of its own; a key line that has an \<open>ip=\<close>
  parameter and nothing changes; else the parameter goes to the end of the value of every key
  line. What comes before and after the values, and every other line, stays byte by byte.\<close>

theorem updateGrubContent_by_line:
  assumes "\<forall>l\<in>set (split_char nl content). closed_line l"
  shows "updateGrubContent content p = apfst lines_text (edit_lines (split_char nl content) p)"
  using updateGrubContent_lines [of "split_char nl content" p] assms split_char_elems [of _ nl content]
  by (simp add: lines_text_split)

lemma updateGrubContent_by_line_witness:
  "updateGrubContent ''a'' ''ip=b'' = (''a'' @ [nl] @ ''GRUB_CMDLINE_LINUX='' @ [dq] @ ''ip=b'' @ [dq, nl], True)"
proof -
  have "\<forall>l\<in>set (split_char nl ''a''). closed_line l"
    by (simp add: closed_line_def key_line_def grub_key_def str_simps)
  from updateGrubContent_by_line [OF this] show ?thesis
    by (simp add: edit_lines_def line_value_def grub_match_def grub_key_def str_simps)
qed

lemma map_value_closed:
  assumes "\<And>v. dq \<notin> set v \<Longrightarrow> dq \<notin> set (f v)"
  shows "line_value (map_value f l) = map f (line_value l)" "closed_line l \<Longrightarrow> closed_line (map_value f l)"
proof -
  show "line_value (map_value f l) = map f (line_value l)"
  proof (cases "grub_match l")
    case (Some x)
    obtain v r where x: "x = (v, r)" by (cases x)
    with grub_match_Some [of l v r] Some assms [of v] show ?thesis
      by (simp add: map_value_def line_value_def) (simp add: grub_match_def cut_byte_append)
  qed (simp add: map_value_def line_value_def)
  show "closed_line (map_value f l)" if "closed_line l"
    using that by (cases "grub_match l") (auto simp: map_value_def closed_line_def split: prod.split)
qed

lemma not_plain_nl: "\<not> plain nl"
  by (simp add: plain_def ascii_spaces_def)

lemma edit_lines_stable:
  assumes "ls \<noteq> []" "\<forall>l\<in>set ls. closed_line l \<and> nl \<notin> set l"
    and "has_prefix p ''ip=''" "\<forall>c\<in>set p. plain c \<and> c \<noteq> dq"
  defines "ls' \<equiv> fst (edit_lines ls p)"
  shows "ls' \<noteq> [] \<and> (\<forall>l\<in>set ls'. closed_line l \<and> nl \<notin> set l) \<and> edit_lines ls' p = (ls', False)"
proof -
  let ?vs = "concat (map line_value ls)" and ?f = "\<lambda>v. trim_space (v @ '' '' @ p)"
  have p: "p \<noteq> []" "\<forall>c\<in>set p. plain c" "dq \<notin> set p" "nl \<notin> set p"
    using assms(3,4) not_plain_nl by (cases p; auto simp: has_prefix_def)+
  have has: "cmdlineHasIPParam v" if "p \<in> set (Fields v)" for v
    using that assms(3) by (auto simp: cmdlineHasIPParam_def list_ex_iff)
  consider (none) "?vs = []" | (already) "?vs \<noteq> []" "list_ex cmdlineHasIPParam ?vs"
    | (added) "?vs \<noteq> []" "\<not> list_ex cmdlineHasIPParam ?vs" by blast
  then show ?thesis
  proof cases
    case none
    have "fields_from [] p = [p]"
      using fields_from_plain [OF p(2), of "[]" "[]"] p(1) by (simp add: flush_def)
    then have "cmdlineHasIPParam p" by (intro has) (simp add: Fields_def)
    moreover have "line_value (grub_key @ p @ [dq]) = [p]"
      using p(3) by (simp add: line_value_def grub_match_def cut_byte_append)
    ultimately show ?thesis
      using none assms(2) p(4)
      by (simp add: ls'_def edit_lines_def line_value_def closed_line_def key_line_def nl_grub_key str_simps)
        (simp add: grub_key_def str_simps)
  next
    case already
    then have "edit_lines ls p = (ls, False)" by (simp only: edit_lines_def Let_def if_False if_True)
    with assms(1,2) show ?thesis by (simp add: ls'_def)
  next
    case added
    have noq: "dq \<notin> set (?f v)" if "dq \<notin> set v" for v
      using set_trim_space [of "v @ '' '' @ p"] that p(3) by auto
    have "nl \<notin> set (map_value ?f l)" if "nl \<notin> set l" for l
    proof (cases "grub_match l")
      case (Some x)
      obtain v r where x: "x = (v, r)" by (cases x)
      with match_no_nl [of l v r] Some that set_trim_space [of "v @ '' '' @ p"] p(4) show ?thesis
        by (auto simp: map_value_def nl_grub_key)
    qed (simp add: map_value_def that)
    moreover have "concat (map line_value (map (map_value ?f) ls)) = map ?f ?vs"
      using map_value_closed(1) [of ?f] noq by (simp add: map_concat comp_def)
    moreover have "list_ex cmdlineHasIPParam (map ?f ?vs)"
    proof -
      obtain v vs where "?vs = v # vs" using added(1) by (cases ?vs) auto
      moreover have "cmdlineHasIPParam (?f v)" using has appended_param [OF p(1,2)] by blast
      ultimately show ?thesis by simp
    qed
    moreover have "edit_lines ls p = (map (map_value ?f) ls, True)"
      using added by (simp only: edit_lines_def Let_def if_False)
    ultimately show ?thesis
      using added(1) assms(1,2) map_value_closed(2) [of ?f] noq by (simp add: ls'_def edit_lines_def Let_def)
  qed
qed

text \<open>The edit is done once: with a parameter that is one word without a quote, editing the edited
  text finds the parameter there and changes nothing, so the setup can be run again.\<close>

lemma updateGrubContent_idempotent:
  assumes "\<forall>l\<in>set (split_char nl content). closed_line l"
    and "has_prefix p ''ip=''" "\<forall>c\<in>set p. plain c \<and> c \<noteq> dq"
  shows "updateGrubContent (fst (updateGrubContent content p)) p = (fst (updateGrubContent content p), False)"
proof -
  let ?ls = "split_char nl content"
  have "?ls \<noteq> []" "\<forall>l\<in>set ?ls. closed_line l \<and> nl \<notin> set l"
    using assms(1) split_char_elems [of _ nl content] by simp_all
  with edit_lines_stable [OF this assms(2,3)] show ?thesis
    using updateGrubContent_lines [of ?ls p] by (simp add: lines_text_split updateGrubContent_lines)
qed

lemma updateGrubContent_idempotent_witness:
  "updateGrubContent (fst (updateGrubContent ''a'' ''ip=b'')) ''ip=b'' = (fst (updateGrubContent ''a'' ''ip=b''), False)"
proof (rule updateGrubContent_idempotent)
  show "\<forall>l\<in>set (split_char nl ''a''). closed_line l"
    by (simp add: closed_line_def key_line_def grub_key_def str_simps)
qed (simp_all add: str_simps plain_def ascii_spaces_def)

text \<open>A key line that never closes its quote is why the lines have to be closed: the parameter is
  added a second time.\<close>

definition open_grub :: string where
  "open_grub = ''GRUB_CMDLINE_LINUX='' @ [dq] @ ''quiet''"

lemma open_line_edited_twice:
  "snd (updateGrubContent (fst (updateGrubContent open_grub ''ip=b'')) ''ip=b'') = True"
  by code_simp

end
