(* ===== verification/WG_Conf.thy ===== *)
theory WG_Conf
  imports Go_FS
begin

text \<open>
  WireGuard configuration files: the two writers of \<open>internal/templates/templates.go\<close> and the
  reader of \<open>contrib/rootless/parse.go\<close>, which reads what the client's writer writes.
\<close>

section \<open>Writing\<close>

record WireGuardServerConfig =
  ws_Address :: string
  ws_PrivateKey :: string
  ws_ListenPort :: int
  ws_PeerPublicKey :: string
  ws_PeerAllowedIPs :: string

record WireGuardClientConfig =
  cl_PrivateKey :: string
  cl_Address :: string
  cl_ServerPublicKey :: string
  cl_ServerEndpoint :: string
  cl_AllowedIPs :: string

datatype ini_error = IniRequired string

text \<open>A line \<open>key = value\<close>.\<close>

definition ini_kv :: "string \<Rightarrow> string \<Rightarrow> string" where
  "ini_kv k v = k @ '' = '' @ v"

definition server_lines :: "WireGuardServerConfig \<Rightarrow> string list" where
  "server_lines c =
     [''[Interface]'',
      ini_kv ''PrivateKey'' (ws_PrivateKey c),
      ini_kv ''ListenPort'' (itoa (ws_ListenPort c)),
      [],
      ''[Peer]'',
      ini_kv ''PublicKey'' (ws_PeerPublicKey c),
      ini_kv ''AllowedIPs'' (ws_PeerAllowedIPs c),
      ''PersistentKeepalive = 25'']"

definition server_MarshalINI :: "WireGuardServerConfig \<Rightarrow> ini_error + string" where
  "server_MarshalINI c =
     (if ws_Address c = [] then Inl (IniRequired ''Address'')
      else if ws_PrivateKey c = [] then Inl (IniRequired ''PrivateKey'')
      else if ws_ListenPort c = 0 then Inl (IniRequired ''ListenPort'')
      else if ws_PeerPublicKey c = [] then Inl (IniRequired ''PeerPublicKey'')
      else if ws_PeerAllowedIPs c = [] then Inl (IniRequired ''PeerAllowedIPs'')
      else Inr (unlines (server_lines c)))"

definition client_lines :: "WireGuardClientConfig \<Rightarrow> string list" where
  "client_lines c =
     [''[Interface]'',
      ini_kv ''PrivateKey'' (cl_PrivateKey c),
      ini_kv ''Address'' (cl_Address c),
      [],
      ''[Peer]'',
      ini_kv ''PublicKey'' (cl_ServerPublicKey c),
      ini_kv ''Endpoint'' (cl_ServerEndpoint c),
      ini_kv ''AllowedIPs'' (cl_AllowedIPs c),
      ''PersistentKeepalive = 25'']"

definition client_MarshalINI :: "WireGuardClientConfig \<Rightarrow> ini_error + string" where
  "client_MarshalINI c =
     (if cl_PrivateKey c = [] then Inl (IniRequired ''PrivateKey'')
      else if cl_Address c = [] then Inl (IniRequired ''Address'')
      else if cl_ServerPublicKey c = [] then Inl (IniRequired ''ServerPublicKey'')
      else if cl_ServerEndpoint c = [] then Inl (IniRequired ''ServerEndpoint'')
      else if cl_AllowedIPs c = [] then Inl (IniRequired ''AllowedIPs'')
      else Inr (unlines (client_lines c)))"

section \<open>Reading\<close>

record wgClientConfig =
  wc_PrivateKey :: string
  wc_Address :: string
  wc_PeerPubKey :: string
  wc_Endpoint :: string
  wc_AllowedIPs :: string

definition wg_empty :: wgClientConfig where
  "wg_empty = \<lparr>wc_PrivateKey = [], wc_Address = [], wc_PeerPubKey = [], wc_Endpoint = [], wc_AllowedIPs = []\<rparr>"

definition wgFieldSetters :: "(string \<times> (string \<Rightarrow> wgClientConfig \<Rightarrow> wgClientConfig)) list" where
  "wgFieldSetters =
     [(''privatekey'', \<lambda>v. wc_PrivateKey_update (\<lambda>_. v)),
      (''address'', \<lambda>v. wc_Address_update (\<lambda>_. v)),
      (''publickey'', \<lambda>v. wc_PeerPubKey_update (\<lambda>_. v)),
      (''endpoint'', \<lambda>v. wc_Endpoint_update (\<lambda>_. v)),
      (''allowedips'', \<lambda>v. wc_AllowedIPs_update (\<lambda>_. v))]"

definition applyWGLine :: "string \<Rightarrow> wgClientConfig \<Rightarrow> wgClientConfig" where
  "applyWGLine line cfg =
     (if line = [] \<or> hd line = CHR ''#'' \<or> hd line = CHR ''['' then cfg
      else case cut_byte line CHR ''='' of
             None \<Rightarrow> cfg
           | Some (k, v) \<Rightarrow>
               (case map_of wgFieldSetters (trim_space (to_lower k)) of
                  None \<Rightarrow> cfg
                | Some fn \<Rightarrow> fn (trim_space v) cfg))"

datatype wg_error = WGOpen os_error | WGRead os_error | WGTooLong | WGMissing string

definition validateWGConfig :: "wgClientConfig \<Rightarrow> wg_error + unit" where
  "validateWGConfig cfg =
     require_all WGMissing
       [(''PrivateKey'', wc_PrivateKey cfg), (''Address'', wc_Address cfg),
        (''PeerPubKey'', wc_PeerPubKey cfg), (''Endpoint'', wc_Endpoint cfg),
        (''AllowedIPs'', wc_AllowedIPs cfg)]"

text \<open>
  The loop of \<open>parseWGConfig\<close> over the content of the file, and the whole function. The caller
  looks at the configuration only when there is no error.
\<close>

definition parseWGText :: "string \<Rightarrow> wg_error + wgClientConfig" where
  "parseWGText data =
     (case scan_lines data of
        None \<Rightarrow> Inl WGTooLong
      | Some ls \<Rightarrow>
          let cfg = fold (\<lambda>l. applyWGLine (trim_space l)) ls wg_empty
          in bindE (validateWGConfig cfg) (\<lambda>_. Inr cfg))"

definition parseWGConfig :: "string \<Rightarrow> world \<Rightarrow> (wg_error + wgClientConfig) \<times> world" where
  "parseWGConfig path w =
     (let (r, w1) = os_Open path w
      in case r of
           Inl e \<Rightarrow> (Inl (WGOpen e), w1)
         | Inr _ \<Rightarrow>
             let (r2, w2) = os_ReadFile path w1
             in case r2 of
                  Inl e \<Rightarrow> (Inl (WGRead e), w2)
                | Inr data \<Rightarrow> (parseWGText data, w2))"

text \<open>What a line sets, if it sets anything.\<close>

definition wg_setting :: "string \<Rightarrow> (string \<times> string) option" where
  "wg_setting line =
     (if line = [] \<or> hd line = CHR ''#'' \<or> hd line = CHR ''['' then None
      else map_option (\<lambda>(k, v). (trim_space (to_lower k), trim_space v)) (cut_byte line CHR ''=''))"

lemma applyWGLine_setting:
  "applyWGLine line cfg =
     (case wg_setting line of
        None \<Rightarrow> cfg
      | Some (k, v) \<Rightarrow> (case map_of wgFieldSetters k of None \<Rightarrow> cfg | Some fn \<Rightarrow> fn v cfg))"
  by (simp add: applyWGLine_def wg_setting_def split: option.split)

section \<open>What is written is read back\<close>

text \<open>A value a line of the file can hold: not empty, trimmed, on one line, not too long.\<close>

definition line_value :: "string \<Rightarrow> bool" where
  "line_value v \<longleftrightarrow> v \<noteq> [] \<and> trimmed v \<and> nl \<notin> set v \<and> length v < 65000"

text \<open>A value without blanks is one of them.\<close>

definition ini_value :: "string \<Rightarrow> bool" where
  "ini_value v \<longleftrightarrow> v \<noteq> [] \<and> (\<forall>c\<in>set v. plain c) \<and> length v < 65000"

lemma ini_line_value: "ini_value v \<Longrightarrow> line_value v"
proof -
  assume v: "ini_value v"
  have "\<not> plain nl" by (simp add: plain_def ascii_spaces_def)
  with v show ?thesis using trimmed_all_plain [of v] by (auto simp: ini_value_def line_value_def)
qed

lemma space_runes_bytes:
  "list_all (\<lambda>w. length w = 1 \<or> list_all (\<lambda>c. (128 :: nat) \<le> of_char c) w) space_runes"
  by code_simp

text \<open>No white space begins before a trimmed value: its encoding has no ASCII byte, or is one.\<close>

lemma space_end_append:
  assumes "space_end v = None" "v \<noteq> []" "of_char c < (128 :: nat)"
  shows "space_end (u @ c # v) = None"
  unfolding space_end_None
proof
  fix w assume w: "w \<in> set space_runes"
  show "\<not> has_suffix (u @ c # v) w"
  proof
    assume "has_suffix (u @ c # v) w"
    then obtain x where x: "(u @ [c]) @ v = x @ w" by (auto simp: has_suffix_iff)
    from x have "\<exists>y. v = y @ w \<or> (w = y @ v \<and> u @ [c] = x @ y)"
      by (subst (asm) append_eq_append_conv2) auto
    then obtain y where y: "v = y @ w \<or> (w = y @ v \<and> u @ [c] = x @ y)" by blast
    have no: "\<not> has_suffix v w" using assms(1) w unfolding space_end_None by blast
    then have wy: "w = y @ v" "u @ [c] = x @ y" using y by (auto simp: has_suffix_iff)
    with no have "y \<noteq> []" by (auto simp: has_suffix_iff)
    with wy(2) have "c \<in> set y" by (cases y rule: rev_cases) auto
    moreover have "length w \<noteq> 1" using wy(1) \<open>y \<noteq> []\<close> assms(2) by (cases y; cases v) auto
    moreover have "length w = 1 \<or> (\<forall>d\<in>set w. (128 :: nat) \<le> of_char d)"
      using space_runes_bytes w by (auto simp: list_all_iff)
    ultimately have "(128 :: nat) \<le> of_char c" using wy(1) by simp
    with assms(3) show False by simp
  qed
qed

text \<open>The keys the writers use, and what the reader makes of them.\<close>

lemma ini_keys:
  "list_all (\<lambda>k. k \<noteq> [] \<and> list_all plain k \<and> CHR ''='' \<notin> set k \<and> hd k \<noteq> CHR ''#'' \<and> hd k \<noteq> CHR ''['' \<and> length k \<le> 10)
     [''PrivateKey'', ''Address'', ''PublicKey'', ''Endpoint'', ''AllowedIPs'']"
  by code_simp

lemma ini_lower:
  "trim_space (to_lower (''PrivateKey'' @ '' '')) = ''privatekey''" "trim_space (to_lower (''Address'' @ '' '')) = ''address''"
  "trim_space (to_lower (''PublicKey'' @ '' '')) = ''publickey''" "trim_space (to_lower (''Endpoint'' @ '' '')) = ''endpoint''"
  "trim_space (to_lower (''AllowedIPs'' @ '' '')) = ''allowedips''"
  by code_simp+

lemma trim_ini_kv:
  assumes "k \<noteq> []" "list_all plain k" "line_value v"
  shows "trim_space (ini_kv k v) = ini_kv k v"
proof (rule trim_space_id)
  have "space_end (k @ '' ='' @ CHR '' '' # v) = None"
    using space_end_append [of v "CHR '' ''" "k @ '' =''"] assms(3) by (simp add: line_value_def trimmed_def)
  moreover have "space_at (ini_kv k v) = None" using assms(1,2) by (cases k) (simp_all add: ini_kv_def)
  ultimately show "trimmed (ini_kv k v)" by (simp add: trimmed_def ini_kv_def)
qed

lemma cut_ini_kv: "CHR ''='' \<notin> set k \<Longrightarrow> cut_byte (ini_kv k v) CHR ''='' = Some (k @ '' '', CHR '' '' # v)"
  using cut_byte_append [of "CHR ''=''" "k @ '' ''" "CHR '' '' # v"] by (simp add: ini_kv_def)

lemma trim_value:
  assumes "line_value v"
  shows "trim_space (CHR '' '' # v) = v"
proof -
  have "trim_left (CHR '' '' # v) = trim_left v"
    by (rule trim_left_ascii) (simp add: ascii_spaces_def)
  with assms show ?thesis by (simp add: line_value_def trim_space_def trimmed_def trim_left_id trim_right_id)
qed

lemma applyWGLine_kv:
  assumes "k \<in> set [''PrivateKey'', ''Address'', ''PublicKey'', ''Endpoint'', ''AllowedIPs'']" "line_value v"
    "trim_space (to_lower (k @ '' '')) = lk"
  shows "applyWGLine (trim_space (ini_kv k v)) cfg =
    (case map_of wgFieldSetters lk of None \<Rightarrow> cfg | Some fn \<Rightarrow> fn v cfg)"
proof -
  have k: "k \<noteq> []" "list_all plain k" "CHR ''='' \<notin> set k" "hd k \<noteq> CHR ''#''" "hd k \<noteq> CHR ''[''"
    using ini_keys assms(1) unfolding list_all_iff by blast+
  then have "ini_kv k v \<noteq> []" "hd (ini_kv k v) \<noteq> CHR ''#''" "hd (ini_kv k v) \<noteq> CHR ''[''"
    by (simp_all add: ini_kv_def)
  then show ?thesis
    unfolding trim_ini_kv [OF k(1,2) assms(2)]
    by (simp add: applyWGLine_def cut_ini_kv [OF k(3)] assms(3) trim_value [OF assms(2)]
        split: option.split)
qed

lemma applyWGLine_written:
  assumes "line_value v"
  shows "applyWGLine (trim_space (ini_kv ''PrivateKey'' v)) cfg = cfg\<lparr>wc_PrivateKey := v\<rparr>"
    "applyWGLine (trim_space (ini_kv ''Address'' v)) cfg = cfg\<lparr>wc_Address := v\<rparr>"
    "applyWGLine (trim_space (ini_kv ''PublicKey'' v)) cfg = cfg\<lparr>wc_PeerPubKey := v\<rparr>"
    "applyWGLine (trim_space (ini_kv ''Endpoint'' v)) cfg = cfg\<lparr>wc_Endpoint := v\<rparr>"
    "applyWGLine (trim_space (ini_kv ''AllowedIPs'' v)) cfg = cfg\<lparr>wc_AllowedIPs := v\<rparr>"
  using applyWGLine_kv [OF _ assms ini_lower(1)] applyWGLine_kv [OF _ assms ini_lower(2)]
    applyWGLine_kv [OF _ assms ini_lower(3)] applyWGLine_kv [OF _ assms ini_lower(4)]
    applyWGLine_kv [OF _ assms ini_lower(5)]
  by (simp_all add: wgFieldSetters_def)

lemma applyWGLine_other:
  "applyWGLine (trim_space ''[Interface]'') cfg = cfg" "applyWGLine [] cfg = cfg"
  "applyWGLine (trim_space ''[Peer]'') cfg = cfg"
  "applyWGLine (trim_space ''PersistentKeepalive = 25'') cfg = cfg"
proof -
  have "wg_setting (trim_space ''[Interface]'') = None" "wg_setting [] = None"
    "wg_setting (trim_space ''[Peer]'') = None"
    "wg_setting (trim_space ''PersistentKeepalive = 25'') = Some (''persistentkeepalive'', ''25'')"
    by code_simp+
  then show "applyWGLine (trim_space ''[Interface]'') cfg = cfg" "applyWGLine [] cfg = cfg"
    "applyWGLine (trim_space ''[Peer]'') cfg = cfg"
    "applyWGLine (trim_space ''PersistentKeepalive = 25'') cfg = cfg"
    by (simp_all add: applyWGLine_setting wgFieldSetters_def)
qed

definition client_values :: "WireGuardClientConfig \<Rightarrow> string list" where
  "client_values c =
     [cl_PrivateKey c, cl_Address c, cl_ServerPublicKey c, cl_ServerEndpoint c, cl_AllowedIPs c]"

definition client_read :: "WireGuardClientConfig \<Rightarrow> wgClientConfig" where
  "client_read c =
     \<lparr>wc_PrivateKey = cl_PrivateKey c, wc_Address = cl_Address c, wc_PeerPubKey = cl_ServerPublicKey c,
      wc_Endpoint = cl_ServerEndpoint c, wc_AllowedIPs = cl_AllowedIPs c\<rparr>"

lemma client_MarshalINI_iff:
  "client_MarshalINI c = Inr text \<longleftrightarrow> text = unlines (client_lines c) \<and> [] \<notin> set (client_values c)"
  by (auto simp: client_MarshalINI_def client_values_def)

lemma drop_CR_kv:
  assumes "line_value v"
  shows "drop_CR (ini_kv k v) = ini_kv k v"
proof -
  have "last v \<noteq> CHR 0x0D"
  proof
    assume "last v = CHR 0x0D"
    with assms have "v = butlast v @ [CHR 0x0D]" by (metis append_butlast_last_id line_value_def)
    moreover have "space_end (butlast v @ [CHR 0x0D]) = Some [CHR 0x0D]"
      by (rule space_end_ascii) (simp add: ascii_spaces_def)
    ultimately show False using assms by (simp add: line_value_def trimmed_def)
  qed
  then have "\<not> has_suffix (ini_kv k v) [CHR 0x0D]"
    using assms by (cases v rule: rev_cases) (auto simp: ini_kv_def has_suffix_iff line_value_def)
  then show ?thesis by (simp add: drop_CR_def trim_suffix_def)
qed

lemma drop_CR_other:
  "drop_CR ''[Interface]'' = ''[Interface]''" "drop_CR [] = []" "drop_CR ''[Peer]'' = ''[Peer]''"
  "drop_CR ''PersistentKeepalive = 25'' = ''PersistentKeepalive = 25''"
  by code_simp+

lemma client_lines_short:
  "list_all line_value (client_values c) \<Longrightarrow>
     \<forall>l\<in>set (client_lines c). nl \<notin> set l \<and> length l < max_token"
  by (simp add: client_lines_def client_values_def ini_kv_def max_token_def line_value_def)

lemma parseWGText_written:
  assumes "list_all line_value (client_values c)"
  shows "parseWGText (unlines (client_lines c)) = Inr (client_read c)"
proof -
  have v: "line_value (cl_PrivateKey c)" "line_value (cl_Address c)" "line_value (cl_ServerPublicKey c)"
    "line_value (cl_ServerEndpoint c)" "line_value (cl_AllowedIPs c)"
    using assms by (simp_all add: client_values_def)
  have "scan_lines (unlines (client_lines c)) = Some (map drop_CR (client_lines c))"
    by (rule scan_unlines) (rule client_lines_short [OF assms])
  moreover have "map drop_CR (client_lines c) = client_lines c"
    by (simp add: client_lines_def drop_CR_other drop_CR_kv v)
  moreover have "fold (\<lambda>l. applyWGLine (trim_space l)) (client_lines c) wg_empty = client_read c"
    by (simp add: client_lines_def applyWGLine_written v applyWGLine_other wg_empty_def client_read_def)
  moreover have "validateWGConfig (client_read c) = Inr ()"
    using v by (simp add: validateWGConfig_def client_read_def require_all_simps line_value_def)
  ultimately show ?thesis by (simp add: parseWGText_def)
qed

lemma parseWGText_client:
  "list_all ini_value (client_values c) \<Longrightarrow> parseWGText (unlines (client_lines c)) = Inr (client_read c)"
  by (rule parseWGText_written) (auto simp: list_all_iff ini_line_value)

section \<open>The last setting of a field wins\<close>

definition last_setting :: "string \<Rightarrow> string list \<Rightarrow> string" where
  "last_setting k ls =
     (let kvs = filter (\<lambda>(k', v). k' = k) (List.map_filter wg_setting ls)
      in if kvs = [] then [] else snd (last kvs))"

lemma last_setting_snoc:
  "last_setting k (ls @ [l]) =
     (case wg_setting l of Some (k', v) \<Rightarrow> if k' = k then v else last_setting k ls | None \<Rightarrow> last_setting k ls)"
  by (simp add: last_setting_def List.map_filter_def Let_def split: option.split)

lemma fold_applyWGLine:
  "fold applyWGLine ls wg_empty =
     \<lparr>wc_PrivateKey = last_setting ''privatekey'' ls, wc_Address = last_setting ''address'' ls,
      wc_PeerPubKey = last_setting ''publickey'' ls, wc_Endpoint = last_setting ''endpoint'' ls,
      wc_AllowedIPs = last_setting ''allowedips'' ls\<rparr>"
proof (induction ls rule: rev_induct)
  case Nil
  then show ?case by (simp add: wg_empty_def last_setting_def List.map_filter_def)
next
  case (snoc l ls)
  then show ?case
    by (auto simp: applyWGLine_setting last_setting_snoc wgFieldSetters_def split: option.split)
qed

lemma parseWGText_fields:
  "parseWGText data = Inr cfg \<longleftrightarrow>
     (\<exists>ls. scan_lines data = Some ls \<and> cfg = fold applyWGLine (map trim_space ls) wg_empty \<and>
        (\<forall>v\<in>{wc_PrivateKey cfg, wc_Address cfg, wc_PeerPubKey cfg, wc_Endpoint cfg, wc_AllowedIPs cfg}. v \<noteq> []))"
  by (auto simp: parseWGText_def fold_map comp_def validateWGConfig_def require_all_ok res_simps Let_def
      split: option.split)

text \<open>A field that is read is trimmed.\<close>

lemma last_setting_trimmed: "trimmed (last_setting k ls)"
proof (induction ls rule: rev_induct)
  case Nil
  then show ?case by (simp add: last_setting_def List.map_filter_def trimmed_def)
next
  case (snoc l ls)
  have "trimmed v" if "wg_setting l = Some (k', v)" for k' v
    using that by (auto simp: wg_setting_def split: if_splits)
  with snoc show ?case by (auto simp: last_setting_snoc split: option.split)
qed

section \<open>Properties\<close>

definition sample_client :: WireGuardClientConfig where
  "sample_client =
     \<lparr>cl_PrivateKey = ''a2V5=='', cl_Address = ''10.42.0.2/32'', cl_ServerPublicKey = ''cHVi=='',
      cl_ServerEndpoint = ''192.168.1.100:51820'', cl_AllowedIPs = ''10.42.0.1/32''\<rparr>"

lemma sample_values: "list_all ini_value (client_values sample_client)"
proof -
  have "list_all (\<lambda>v. v \<noteq> [] \<and> list_all plain v) (client_values sample_client)" by code_simp
  then show ?thesis by (simp add: client_values_def sample_client_def ini_value_def list_all_iff)
qed

text \<open>C25: The client file that \<open>ubo run\<close> writes is read back by \<open>ubo unlock\<close>. When its values are on one
  line each and shorter than 65000 bytes, which the reader can take on a line, \<open>parseWGConfig\<close>
  returns exactly the values that were written, base64 padding included, if and only if none of
  them begins or ends with white space; white space at the ends, which \<open>MarshalINI\<close> accepts, is
  lost.\<close>

theorem client_conf_round_trip:
  assumes "client_MarshalINI c = Inr text" "node_at w path = Some (File text m)" "healthy w"
    and "\<forall>v\<in>{cl_PrivateKey c, cl_Address c, cl_ServerPublicKey c, cl_ServerEndpoint c, cl_AllowedIPs c}.
      nl \<notin> set v \<and> length v < 65000"
  shows "fst (parseWGConfig path w) =
      Inr \<lparr>wc_PrivateKey = cl_PrivateKey c, wc_Address = cl_Address c, wc_PeerPubKey = cl_ServerPublicKey c,
           wc_Endpoint = cl_ServerEndpoint c, wc_AllowedIPs = cl_AllowedIPs c\<rparr> \<longleftrightarrow>
    (\<forall>v\<in>{cl_PrivateKey c, cl_Address c, cl_ServerPublicKey c, cl_ServerEndpoint c, cl_AllowedIPs c}.
       trim_space v = v)"
proof -
  have vals: "{cl_PrivateKey c, cl_Address c, cl_ServerPublicKey c, cl_ServerEndpoint c, cl_AllowedIPs c} =
      set (client_values c)" by (simp add: client_values_def)
  have conf: "text = unlines (client_lines c)" "[] \<notin> set (client_values c)"
    using assms(1) by (simp_all add: client_MarshalINI_iff)
  have "os_Open path w = (Inr (), passed w)" "os_ReadFile path (passed w) = (Inr text, passed (passed w))"
    using assms(2,3) by (simp_all add: os_Open_def os_Stat_def os_ReadFile_def healthy_next)
  then have parse: "fst (parseWGConfig path w) = parseWGText text" by (simp add: parseWGConfig_def)
  have "parseWGText text = Inr (client_read c) \<longleftrightarrow> (\<forall>v\<in>set (client_values c). trim_space v = v)"
  proof
    assume "parseWGText text = Inr (client_read c)"
    then obtain ls where "client_read c = fold applyWGLine ls wg_empty" unfolding parseWGText_fields by blast
    then have "\<exists>k. v = last_setting k ls" if "v \<in> set (client_values c)" for v
      using that by (auto simp: fold_applyWGLine client_read_def client_values_def)
    then show "\<forall>v\<in>set (client_values c). trim_space v = v" using last_setting_trimmed by fastforce
  next
    assume trim: "\<forall>v\<in>set (client_values c). trim_space v = v"
    have "line_value v" if "v \<in> set (client_values c)" for v
      using that trim conf(2) assms(4) trimmed_trim_space [of v] unfolding vals by (auto simp: line_value_def)
    then show "parseWGText text = Inr (client_read c)"
      unfolding conf(1) by (intro parseWGText_written) (simp add: list_all_iff)
  qed
  then show ?thesis unfolding parse vals client_read_def .
qed

lemma client_conf_round_trip_witness:
  "fst (parseWGConfig ''c'' (set_node ''c'' (Some (File (unlines (client_lines sample_client)) 0x180)) clean_world))
     = Inr (client_read sample_client)"
proof -
  let ?w = "set_node ''c'' (Some (File (unlines (client_lines sample_client)) 0x180)) clean_world"
  have values_ok: "\<forall>v\<in>set (client_values sample_client). line_value v"
    using sample_values ini_line_value by (simp add: list_all_iff)
  then have vals: "\<forall>v\<in>{cl_PrivateKey sample_client, cl_Address sample_client, cl_ServerPublicKey sample_client,
      cl_ServerEndpoint sample_client, cl_AllowedIPs sample_client}. nl \<notin> set v \<and> length v < 65000"
    "\<forall>v\<in>{cl_PrivateKey sample_client, cl_Address sample_client, cl_ServerPublicKey sample_client,
      cl_ServerEndpoint sample_client, cl_AllowedIPs sample_client}. trim_space v = v"
    by (simp_all add: client_values_def line_value_def)
  have written: "client_MarshalINI sample_client = Inr (unlines (client_lines sample_client))"
    using values_ok by (auto simp: client_MarshalINI_iff line_value_def)
  have there: "node_at ?w ''c'' = Some (File (unlines (client_lines sample_client)) 0x180)" "healthy ?w" by simp_all
  from client_conf_round_trip [OF written there vals(1)] vals(2) show ?thesis unfolding client_read_def by blast
qed

text \<open>C36: \<open>parseWGConfig\<close> accepts a text exactly when no line is too long and each of the five
  fields ends up not empty; a field's value is the one of the last line that sets it, whatever
  the case of the key, and sections and comments do not matter.\<close>

theorem parseWGText_last_wins:
  "parseWGText data = Inr cfg \<longleftrightarrow>
     (\<exists>ls. scan_lines data = Some ls \<and>
        cfg = (let f = (\<lambda>k. last_setting k (map trim_space ls))
               in \<lparr>wc_PrivateKey = f ''privatekey'', wc_Address = f ''address'', wc_PeerPubKey = f ''publickey'',
                   wc_Endpoint = f ''endpoint'', wc_AllowedIPs = f ''allowedips''\<rparr>) \<and>
        [] \<notin> {wc_PrivateKey cfg, wc_Address cfg, wc_PeerPubKey cfg, wc_Endpoint cfg, wc_AllowedIPs cfg})"
  unfolding parseWGText_fields fold_applyWGLine Let_def by auto

end
