(* ===== verification/Go_Encoding.thy ===== *)
theory Go_Encoding
  imports Go_Net
begin

text \<open>
  \<open>encoding/base64\<close> (\<open>StdEncoding\<close>) and \<open>encoding/hex\<close>, as key generation, the templates and the
  WireGuard device use them.
\<close>

section \<open>Base64\<close>

definition b64_alphabet :: string where
  "b64_alphabet = ''ABCDEFGHIJKLMNOPQRSTUVWXYZabcdefghijklmnopqrstuvwxyz0123456789+/''"

definition b64_char :: "nat \<Rightarrow> char" where
  "b64_char n = b64_alphabet ! n"

definition b64_val :: "char \<Rightarrow> nat option" where
  "b64_val c =
     (let i = length (takeWhile (\<lambda>x. x \<noteq> c) b64_alphabet) in if i < 64 then Some i else None)"

text \<open>The four digits to base 64 of a number below \<open>2 ^ 24\<close>.\<close>

definition b64_digits :: "nat \<Rightarrow> string" where
  "b64_digits n =
     [b64_char (n div 262144), b64_char (n div 4096 mod 64), b64_char (n div 64 mod 64), b64_char (n mod 64)]"

fun b64_encode :: "byte list \<Rightarrow> string" where
  "b64_encode [] = []"
| "b64_encode [a] = take 2 (b64_digits (unat a * 65536)) @ ''==''"
| "b64_encode [a, b] = take 3 (b64_digits (unat a * 65536 + unat b * 256)) @ ''=''"
| "b64_encode (a # b # c # bs) =
     b64_digits (unat a * 65536 + unat b * 256 + unat c) @ b64_encode bs"

text \<open>
  The decoder, on text without line breaks: quanta of four characters; padding only where the
  last quantum lacks one or two bytes. The unused low bits of a padded quantum are ignored.
\<close>

definition quantum :: "nat \<Rightarrow> nat \<Rightarrow> nat \<Rightarrow> nat \<Rightarrow> byte list" where
  "quantum p q r s =
     (let n = p * 262144 + q * 4096 + r * 64 + s
      in [of_nat (n div 65536), of_nat (n div 256 mod 256), of_nat (n mod 256)])"

fun b64_quanta :: "string \<Rightarrow> byte list option" where
  "b64_quanta [] = Some []"
| "b64_quanta (a # b # c # d # s) =
     (case (b64_val a, b64_val b) of
        (Some p, Some q) \<Rightarrow>
          (if c = CHR ''='' then
             (if d = CHR ''='' \<and> s = [] then Some (take 1 (quantum p q 0 0)) else None)
           else case b64_val c of
                  None \<Rightarrow> None
                | Some r \<Rightarrow>
                    if d = CHR ''='' then (if s = [] then Some (take 2 (quantum p q r 0)) else None)
                    else case b64_val d of
                           None \<Rightarrow> None
                         | Some t \<Rightarrow> map_option ((@) (quantum p q r t)) (b64_quanta s))
      | _ \<Rightarrow> None)"
| "b64_quanta _ = None"

definition b64_decode :: "string \<Rightarrow> byte list option" where
  "b64_decode s = b64_quanta (filter (\<lambda>c. c \<noteq> CHR 0x0A \<and> c \<noteq> CHR 0x0D) s)"

text \<open>The bytes of a string, \<open>[]byte(s)\<close>.\<close>

definition bytes_of :: "string \<Rightarrow> byte list" where
  "bytes_of s = map (\<lambda>c. of_nat (of_char c)) s"

definition string_of :: "byte list \<Rightarrow> string" where
  "string_of bs = map (\<lambda>b. char_of (unat b)) bs"

section \<open>Hex\<close>

definition hex_encode :: "byte list \<Rightarrow> string" where
  "hex_encode bs = concat (map (\<lambda>b. [digit_char (unat b div 16), digit_char (unat b mod 16)]) bs)"

section \<open>The alphabet\<close>

lemma b64_table:
  "list_all (\<lambda>n. b64_val (b64_char n) = Some n \<and> plain (b64_char n) \<and> b64_char n \<noteq> CHR ''='' \<and>
     b64_char n \<noteq> sq \<and> b64_char n \<noteq> bslash \<and> b64_char n \<noteq> CHR ''|'') [0..<64]"
  by code_simp

lemma b64_char_facts:
  assumes "n < 64"
  shows "b64_val (b64_char n) = Some n" "plain (b64_char n)" "b64_char n \<noteq> CHR ''=''"
    "b64_char n \<noteq> sq" "b64_char n \<noteq> bslash" "b64_char n \<noteq> CHR ''|''"
  using b64_table assms by (auto simp: list_all_iff)

lemma plain_not_eol: "plain c \<Longrightarrow> c \<noteq> CHR 0x0A \<and> c \<noteq> CHR 0x0D"
  by (auto simp: plain_def ascii_spaces_def)

lemma unat_byte: "unat (b :: byte) < 256"
  using unsigned_less [of b, where ?'a = nat] by simp

section \<open>Decoding what was encoded\<close>

lemma digits_bound: "n < 16777216 \<Longrightarrow> n div 262144 < 64" for n :: nat
  by (simp add: less_mult_imp_div_less)

lemma digits_recombine:
  "n div 262144 * 262144 + n div 4096 mod 64 * 4096 + n div 64 mod 64 * 64 + n mod 64 = (n :: nat)"
proof -
  have "n div 4096 = n div 262144 * 64 + n div 4096 mod 64"
    using div_mult_mod_eq [of "n div 4096" 64] by (simp add: div_mult2_eq [symmetric])
  moreover have "n div 64 = n div 4096 * 64 + n div 64 mod 64"
    using div_mult_mod_eq [of "n div 64" 64] by (simp add: div_mult2_eq [symmetric])
  moreover have "n = n div 64 * 64 + n mod 64" by simp
  ultimately show ?thesis by linarith
qed

lemma bytes_of_sum:
  fixes x y z :: nat
  assumes "y < 256" "z < 256"
  shows "(x * 65536 + y * 256 + z) div 65536 = x" "(x * 65536 + y * 256 + z) div 256 mod 256 = y"
    "(x * 65536 + y * 256 + z) mod 256 = z"
proof -
  let ?n = "x * 65536 + y * 256 + z"
  have n: "?n = z + (x * 256 + y) * 256" by simp
  have d: "?n div 256 = x * 256 + y" unfolding n using assms(2) by (subst div_mult_self1) simp_all
  have "?n div 65536 = ?n div 256 div 256" by (simp add: div_mult2_eq [symmetric])
  then show "?n div 65536 = x" unfolding d using assms(1) by simp
  show "?n div 256 mod 256 = y" unfolding d using assms(1) by simp
  show "?n mod 256 = z" unfolding n using assms(2) by (subst mod_mult_self1) simp
qed

lemma quantum_digits:
  fixes a b c :: byte
  defines "n \<equiv> unat a * 65536 + unat b * 256 + unat c"
  shows "quantum (n div 262144) (n div 4096 mod 64) (n div 64 mod 64) (n mod 64) = [a, b, c]"
  using bytes_of_sum [OF unat_byte [of b] unat_byte [of c], of "unat a"] unfolding n_def [symmetric]
  by (simp add: quantum_def digits_recombine Let_def)

lemma low_digits:
  "(x * 65536) div 64 mod 64 = (0 :: nat)" "(x * 65536) mod 64 = (0 :: nat)"
  "(x * 65536 + y * 256) mod 64 = (0 :: nat)"
proof -
  have a: "x * 65536 = x * 1024 * 64" "x * 65536 + y * 256 = (x * 1024 + y * 4) * 64" by simp_all
  show "(x * 65536) mod 64 = 0" unfolding a(1) by (rule mod_mult_self2_is_0)
  show "(x * 65536 + y * 256) mod 64 = 0" unfolding a(2) by (rule mod_mult_self2_is_0)
  have "x * 65536 div 64 = x * 16 * 64" by simp
  then show "(x * 65536) div 64 mod 64 = 0" by (metis mod_mult_self2_is_0)
qed

lemma three_bytes_bound: "unat (a :: byte) * 65536 + unat (b :: byte) * 256 + unat (c :: byte) < 16777216"
  using unat_byte [of a] unat_byte [of b] unat_byte [of c] by linarith

lemmas char_digits = b64_char_facts digits_bound

lemma b64_quanta_encode: "b64_quanta (b64_encode bs) = Some bs"
proof (induction bs rule: b64_encode.induct)
  case (2 a)
  define n where "n = unat a * 65536"
  have n: "n < 16777216" "n div 64 mod 64 = 0" "n mod 64 = 0"
    using three_bytes_bound [of a 0 0] low_digits unfolding n_def by simp_all
  have "quantum (n div 262144) (n div 4096 mod 64) (n div 64 mod 64) (n mod 64) = [a, 0, 0]"
    using quantum_digits [of a 0 0] by (simp only: n_def unsigned_0 mult_zero_left add_0_right)
  moreover have "b64_encode [a] = take 2 (b64_digits n) @ ''==''" by (simp only: n_def b64_encode.simps)
  ultimately show ?case using n by (simp add: b64_digits_def char_digits del: b64_encode.simps)
next
  case (3 a b)
  define n where "n = unat a * 65536 + unat b * 256"
  have n: "n < 16777216" "n mod 64 = 0"
    using three_bytes_bound [of a b 0] low_digits unfolding n_def by simp_all
  have "quantum (n div 262144) (n div 4096 mod 64) (n div 64 mod 64) (n mod 64) = [a, b, 0]"
    using quantum_digits [of a b 0] by (simp only: n_def unsigned_0 add_0_right)
  moreover have "b64_encode [a, b] = take 3 (b64_digits n) @ ''=''" by (simp only: n_def b64_encode.simps)
  ultimately show ?case using n by (simp add: b64_digits_def char_digits del: b64_encode.simps)
next
  case (4 a b c bs)
  define n where "n = unat a * 65536 + unat b * 256 + unat c"
  have n: "n < 16777216" unfolding n_def by (rule three_bytes_bound)
  have "quantum (n div 262144) (n div 4096 mod 64) (n div 64 mod 64) (n mod 64) = [a, b, c]"
    using quantum_digits [of a b c] by (simp only: n_def)
  moreover have "b64_encode (a # b # c # bs) = b64_digits n @ b64_encode bs"
    by (simp only: n_def b64_encode.simps)
  ultimately show ?case using n 4 by (simp add: b64_digits_def char_digits del: b64_encode.simps)
qed simp

lemma b64_encode_chars:
  "x \<in> set (b64_encode bs) \<Longrightarrow> plain x \<and> x \<noteq> sq \<and> x \<noteq> bslash \<and> x \<noteq> CHR ''|''"
proof (induction bs rule: b64_encode.induct)
  case (2 a)
  have "unat a * 65536 < 16777216" using three_bytes_bound [of a 0 0] by simp
  with 2 show ?case
    by (auto simp: b64_digits_def char_digits plain_def [of "CHR ''=''"] ascii_spaces_def)
next
  case (3 a b)
  have "unat a * 65536 + unat b * 256 < 16777216" using three_bytes_bound [of a b 0] by simp
  with 3 show ?case
    by (auto simp: b64_digits_def char_digits plain_def [of "CHR ''=''"] ascii_spaces_def)
next
  case (4 a b c bs)
  then show ?case
    using three_bytes_bound [of a b c] by (auto simp: b64_digits_def char_digits)
qed simp

lemma b64_encode_plain: "\<forall>x\<in>set (b64_encode bs). plain x"
  using b64_encode_chars by blast

lemma filter_encode: "filter (\<lambda>c. c \<noteq> CHR 0x0A \<and> c \<noteq> CHR 0x0D) (b64_encode bs) = b64_encode bs"
  using b64_encode_plain plain_not_eol by (intro filter_True) blast

lemma b64_decode_encode [simp]: "b64_decode (b64_encode bs) = Some bs"
  unfolding b64_decode_def filter_encode by (rule b64_quanta_encode)

lemma b64_encode_Nil_iff [simp]: "b64_encode bs = [] \<longleftrightarrow> bs = []"
  by (cases bs rule: b64_encode.cases) (simp_all add: b64_digits_def)

lemma length_b64_encode: "length (b64_encode bs) = 4 * ((length bs + 2) div 3)"
proof (induction bs rule: b64_encode.induct)
  case (4 a b c bs)
  have "(length bs + 2 + 3) div 3 = (length bs + 2) div 3 + 1" by simp
  with 4 show ?case by (simp add: b64_digits_def add.commute)
qed (simp_all add: b64_digits_def)

lemma b64_encode_inject: "b64_encode xs = b64_encode ys \<longleftrightarrow> xs = ys"
  by (metis b64_decode_encode option.inject)

lemma trimmed_b64: "trimmed (b64_encode bs)"
  by (rule trimmed_all_plain) (rule b64_encode_plain)

lemma length_hex_encode: "length (hex_encode bs) = 2 * length bs"
  by (induction bs) (simp_all add: hex_encode_def)

lemma string_of_bytes_of [simp]: "string_of (bytes_of s) = s"
proof -
  have "char_of (unat (of_nat (of_char c) :: byte)) = c" for c
  proof -
    have "(of_char c :: nat) < 256" by simp
    then have "unat (of_nat (of_char c) :: byte) = of_char c" by (simp add: unat_of_nat take_bit_eq_mod)
    then show ?thesis by simp
  qed
  then show ?thesis by (simp add: string_of_def bytes_of_def comp_def)
qed

lemma bytes_of_Nil_iff [simp]: "bytes_of s = [] \<longleftrightarrow> s = []"
  by (simp add: bytes_of_def)

end
