(* ===== verification/Templates.thy ===== *)
theory Templates
  imports WG_Conf Go_Encoding Go_Net_Text Shell
begin

text \<open>
  The files ubo writes for the server: \<open>internal/templates/templates.go\<close>. A \<open>text/template\<close> is the
  list of its lines, with the fields in their places; a conditional action is an \<open>if\<close> over the
  groups of lines it chooses from (the trim marker \<open>{{-\<close> removes the newline before an action).
\<close>

section \<open>The hook and the permissions of the image\<close>

definition InitramfsHookTmpl_lines :: "string list" where
  "InitramfsHookTmpl_lines =
     [''#!/bin/sh'',
      ''PREREQ='' @ [dq, dq],
      ''prereqs() { echo '' @ [dq] @ ''$PREREQ'' @ [dq] @ ''; }'',
      ''case '' @ [dq] @ ''$1'' @ [dq] @ '' in prereqs) prereqs; exit 0;; esac'',
      ''. /usr/share/initramfs-tools/hook-functions'',
      ''copy_exec /usr/bin/wg'',
      ''manual_add_modules wireguard'',
      ''copy_exec /usr/sbin/mdadm'',
      ''manual_add_modules md_mod raid1'',
      ''if command -v lvm >/dev/null 2>&1; then'',
      ''    copy_exec /sbin/lvm'',
      ''    manual_add_modules dm-mod'',
      ''fi'',
      ''mkdir -p '' @ [dq] @ ''${DESTDIR}/etc/wireguard'' @ [dq],
      ''cp /etc/wireguard/wg-initramfs.conf '' @ [dq] @ ''${DESTDIR}/etc/wireguard/'' @ [dq]]"

definition InitramfsHookTmpl :: string where
  "InitramfsHookTmpl = unlines InitramfsHookTmpl_lines"

definition InitramfsUMASKConf_lines :: "string list" where
  "InitramfsUMASKConf_lines =
     [''# Written by ubo: initramfs images embed the WireGuard private key, so restrict'',
      ''# them to root only (otherwise /boot exposes the key to local users).'',
      ''UMASK=0077'']"

definition InitramfsUMASKConf :: string where
  "InitramfsUMASKConf = unlines InitramfsUMASKConf_lines"

section \<open>The script that brings up the tunnel\<close>

record InitramfsScriptData =
  sd_ServerIP :: string
  sd_StaticIP :: string
  sd_GatewayIP :: string
  sd_Interface :: string
  sd_VLANPhysdev :: string
  sd_VLANID :: int
  sd_BondSlaves :: string
  sd_BondMode :: string

definition script_head :: "string list" where
  "script_head =
     [''#!/bin/sh'',
      ''PREREQ='' @ [dq] @ ''udev'' @ [dq],
      ''prereqs() { echo '' @ [dq] @ ''$PREREQ'' @ [dq] @ ''; }'',
      ''case '' @ [dq] @ ''$1'' @ [dq] @ '' in prereqs) prereqs; exit 0;; esac'',
      ''set -e'']"

definition script_vlan_bond :: "InitramfsScriptData \<Rightarrow> string list" where
  "script_vlan_bond d =
     [''# VLAN on top of a bond: create bond, set mode, enslave NICs, then add VLAN.'',
      ''modprobe bonding 2>/dev/null || true'',
      ''modprobe 8021q 2>/dev/null || true'',
      ''ip link add name '' @ [dq] @ sd_VLANPhysdev d @ [dq] @ '' type bond 2>/dev/null || true''] @
     (if sd_BondMode d = [] then [] else
     [''echo '' @ [dq] @ sd_BondMode d @ [dq] @ '' > /sys/class/net/'' @ [dq] @ sd_VLANPhysdev d @
        [dq] @ ''/bonding/mode 2>/dev/null || true'']) @
     [''for _slave in '' @ sd_BondSlaves d @ ''; do'',
      ''    ip link set dev '' @ [dq] @ ''$_slave'' @ [dq] @ '' down 2>/dev/null || true'',
      ''    ip link set dev '' @ [dq] @ ''$_slave'' @ [dq] @ '' master '' @ [dq] @
        sd_VLANPhysdev d @ [dq] @ '' 2>/dev/null || true'',
      ''done'',
      ''ip link set dev '' @ [dq] @ sd_VLANPhysdev d @ [dq] @ '' up'',
      ''ip link add link '' @ [dq] @ sd_VLANPhysdev d @ [dq] @ '' name '' @ [dq] @ sd_Interface d @
        [dq] @ '' type vlan id '' @ itoa (sd_VLANID d) @ '' 2>/dev/null || true'',
      ''IFACE='' @ [dq] @ sd_Interface d @ [dq]]"

definition script_vlan :: "InitramfsScriptData \<Rightarrow> string list" where
  "script_vlan d =
     [''# VLAN interface: bring up the physical NIC, flush its IP (may have been set by'',
      ''# the kernel'' @ [sq] @ ''s ip= GRUB param to the same CIDR as the VLAN interface, which'',
      ''# would conflict), then create the VLAN on top.'',
      ''modprobe 8021q 2>/dev/null || true'',
      ''ip link set dev '' @ [dq] @ sd_VLANPhysdev d @ [dq] @ '' up'',
      ''ip addr flush dev '' @ [dq] @ sd_VLANPhysdev d @ [dq] @ '' 2>/dev/null || true'',
      ''ip link add link '' @ [dq] @ sd_VLANPhysdev d @ [dq] @ '' name '' @ [dq] @ sd_Interface d @
        [dq] @ '' type vlan id '' @ itoa (sd_VLANID d) @ '' 2>/dev/null || true'',
      ''IFACE='' @ [dq] @ sd_Interface d @ [dq]]"

definition script_bond :: "InitramfsScriptData \<Rightarrow> string list" where
  "script_bond d =
     [''# Bond interface: create bond, set mode, then enslave the physical NICs.'',
      ''modprobe bonding 2>/dev/null || true'',
      ''ip link add name '' @ [dq] @ sd_Interface d @ [dq] @ '' type bond 2>/dev/null || true''] @
     (if sd_BondMode d = [] then [] else
     [''echo '' @ [dq] @ sd_BondMode d @ [dq] @ '' > /sys/class/net/'' @ [dq] @ sd_Interface d @
        [dq] @ ''/bonding/mode 2>/dev/null || true'']) @
     [''for _slave in '' @ sd_BondSlaves d @ ''; do'',
      ''    ip link set dev '' @ [dq] @ ''$_slave'' @ [dq] @ '' down 2>/dev/null || true'',
      ''    ip link set dev '' @ [dq] @ ''$_slave'' @ [dq] @ '' master '' @ [dq] @ sd_Interface d @
        [dq] @ '' 2>/dev/null || true'',
      ''done'',
      ''IFACE='' @ [dq] @ sd_Interface d @ [dq]]"

definition script_plain :: "InitramfsScriptData \<Rightarrow> string list" where
  "script_plain d =
     [''# Plain NIC. Predictable names (e.g. enp1s0) need udev rules that may not be'',
      ''# present in initramfs; fall back to the first non-loopback Ethernet interface'',
      ''# found in /sys/class/net if the configured name is not visible.'',
      ''IFACE='' @ [dq] @ sd_Interface d @ [dq],
      ''if ! ip link show dev '' @ [dq] @ ''$IFACE'' @ [dq] @ '' >/dev/null 2>&1; then'',
      ''    for _dev in /sys/class/net/*; do'',
      ''        _n=$(basename '' @ [dq] @ ''$_dev'' @ [dq] @ '')'',
      ''        [ '' @ [dq] @ ''$_n'' @ [dq] @ '' = '' @ [dq] @ ''lo'' @ [dq] @ '' ] && continue'',
      ''        [ '' @ [dq] @ ''$(cat '' @ [dq] @ ''$_dev/type'' @ [dq] @ '' 2>/dev/null)'' @ [dq] @
        '' = '' @ [dq] @ ''1'' @ [dq] @ '' ] || continue'',
      ''        IFACE='' @ [dq] @ ''$_n'' @ [dq] @ ''; break'',
      ''    done'',
      ''fi'']"

definition script_tail :: "InitramfsScriptData \<Rightarrow> string list" where
  "script_tail d =
     [[],
      ''ip link set dev '' @ [dq] @ ''$IFACE'' @ [dq] @ '' up'',
      ''ip addr add '' @ sd_StaticIP d @ '' dev '' @ [dq] @ ''$IFACE'' @ [dq] @
        '' 2>/dev/null || true'',
      ''# Remove any stale default route installed by the kernel via the ip= GRUB'',
      ''# parameter (e.g. default via a slave NIC after bond creation, or via the'',
      ''# physical NIC for a VLAN). Then install the correct route via the initramfs'',
      ''# interface so WireGuard traffic reaches the gateway through the right device.'',
      ''ip route del default 2>/dev/null || true'',
      ''if ! ip route add default via '' @ sd_GatewayIP d @ '' dev '' @ [dq] @ ''$IFACE'' @ [dq] @
        '' 2>/dev/null; then'',
      ''    ip route add '' @ sd_GatewayIP d @ ''/32 dev '' @ [dq] @ ''$IFACE'' @ [dq] @
        '' onlink 2>/dev/null || true'',
      ''    ip route add default via '' @ sd_GatewayIP d @ '' dev '' @ [dq] @ ''$IFACE'' @ [dq] @
        '' 2>/dev/null || true'',
      ''fi'',
      [],
      ''modprobe wireguard 2>/dev/null || true'',
      ''ip link del dev wg0 2>/dev/null || true'',
      ''ip link add dev wg0 type wireguard'',
      ''ip addr add '' @ sd_ServerIP d @ '' dev wg0'',
      ''wg setconf wg0 /etc/wireguard/wg-initramfs.conf'',
      ''ip link set dev wg0 up'']"

definition InitramfsScript_lines :: "InitramfsScriptData \<Rightarrow> string list" where
  "InitramfsScript_lines d =
     script_head @
     (if sd_VLANPhysdev d \<noteq> [] \<and> sd_BondSlaves d \<noteq> [] then script_vlan_bond d
      else if sd_VLANPhysdev d \<noteq> [] then script_vlan d
      else if sd_BondSlaves d \<noteq> [] then script_bond d
      else script_plain d) @
     script_tail d"

datatype render_error = RenderRequired string | RenderInvalid string string

definition validateScriptCIDRs :: "InitramfsScriptData \<Rightarrow> render_error + unit" where
  "validateScriptCIDRs d =
     (if sd_ServerIP d = [] then Inl (RenderRequired ''ServerIP'')
      else if ParseCIDR (sd_ServerIP d) = None then Inl (RenderInvalid ''ServerIP'' (sd_ServerIP d))
      else if sd_StaticIP d = [] then Inl (RenderRequired ''StaticIP'')
      else if ParseCIDR (sd_StaticIP d) = None then Inl (RenderInvalid ''StaticIP'' (sd_StaticIP d))
      else Inr ())"

definition validateInitramfsScriptData :: "InitramfsScriptData \<Rightarrow> render_error + unit" where
  "validateInitramfsScriptData d =
     bindE (validateScriptCIDRs d) (\<lambda>_.
       if sd_GatewayIP d = [] then Inl (RenderRequired ''GatewayIP'')
       else if ParseIP (sd_GatewayIP d) = None then Inl (RenderInvalid ''GatewayIP'' (sd_GatewayIP d))
       else if sd_Interface d = [] then Inl (RenderRequired ''Interface'')
       else Inr ())"

definition RenderInitramfsScript :: "InitramfsScriptData \<Rightarrow> render_error + string" where
  "RenderInitramfsScript d =
     bindE (validateInitramfsScriptData d) (\<lambda>_. Inr (unlines (InitramfsScript_lines d)))"

section \<open>Dropbear's configuration and the instructions\<close>

record DropbearConfigData =
  dd_ServerTunnelIP :: string
  dd_DropbearPort :: int

definition DropbearConfigTmpl_lines :: "DropbearConfigData \<Rightarrow> string list" where
  "DropbearConfigTmpl_lines d =
     [''DROPBEAR_OPTIONS='' @ [dq] @ ''-p '' @ dd_ServerTunnelIP d @ '':'' @
        itoa (dd_DropbearPort d) @ '' -s -j -k'' @ [dq]]"

definition RenderDropbearConfig :: "DropbearConfigData \<Rightarrow> render_error + string" where
  "RenderDropbearConfig d =
     (if dd_ServerTunnelIP d = [] then Inl (RenderRequired ''ServerTunnelIP'')
      else if dd_DropbearPort d = 0 then Inl (RenderRequired ''DropbearPort'')
      else Inr (unlines (DropbearConfigTmpl_lines d)))"

record ReadmeTmplData =
  rd_ServerTunnelIP :: string
  rd_DropbearPort :: int
  rd_ConfigPath :: string

definition ReadmeTmpl_lines :: "ReadmeTmplData \<Rightarrow> string list" where
  "ReadmeTmpl_lines d =
     [''Remote LUKS Unlock Instructions'',
      ''================================'',
      [],
      ''Generated by ubo (Unlock Before Operation).'',
      [],
      ''Files in this directory:'',
      ''  client_wg.conf         '' @ mdash @ '' WireGuard client config'',
      ''  client_auth_ed25519    '' @ mdash @ '' SSH key for Dropbear'',
      ''  dropbear_host_key.pub  '' @ mdash @ '' Pinned Dropbear host key'',
      [],
      ''Unlock procedure'',
      ''----------------'',
      [],
      ''1. Reboot the remote server.'',
      [],
      ''2. When the server is in the initramfs stage, run:'',
      [],
      ''   ubo unlock --config '' @ rd_ConfigPath d,
      [],
      ''   ubo will bring up the WireGuard tunnel automatically (no root required),'',
      ''   SSH to Dropbear, and run cryptroot-unlock.'',
      [],
      ''3. Enter the LUKS passphrase when prompted.'',
      ''   The server will continue booting automatically.'',
      [],
      ''Change LUKS passphrase'',
      ''----------------------'',
      [],
      ''   ubo unlock change --config '' @ rd_ConfigPath d,
      [],
      ''This connects via WireGuard + Dropbear and runs:'',
      ''  cryptsetup luksChangeKey <device>'',
      ''Then prompts whether to unlock and boot immediately.'']"

definition RenderReadme :: "ReadmeTmplData \<Rightarrow> string" where
  "RenderReadme d = unlines (ReadmeTmpl_lines d)"

section \<open>The setup script\<close>

record SetupScriptData =
  ss_WGServerConf :: string
  ss_InitramfsHook :: string
  ss_InitramfsScript :: string
  ss_AuthorizedKeys :: string
  ss_DropbearConf :: string
  ss_UMASKConf :: string
  ss_NetIP :: string
  ss_NetGateway :: string
  ss_NetMask :: string
  ss_NetHostname :: string
  ss_NetInterface :: string
  ss_GrubInterface :: string

record setupScriptRendered =
  sr_WGServerConf :: string
  sr_InitramfsHook :: string
  sr_InitramfsScript :: string
  sr_AuthorizedKeys :: string
  sr_DropbearConf :: string
  sr_UMASKConf :: string
  sr_NetIP :: string
  sr_NetGateway :: string
  sr_NetMask :: string
  sr_NetHostname :: string
  sr_NetInterface :: string
  sr_GrubInterface :: string

definition setup_head :: "string list" where
  "setup_head =
     [''#!/bin/sh'',
      ''set -e'',
      [],
      ''# '' @ (repeat 2 bar) @ '' Step 2: Install packages '' @ (repeat 50 bar),
      ''echo '' @ [dq] @ ''[ubo-setup] step 2/11: installing packages'' @ [dq] @ '' >&2'',
      ''DEBIAN_FRONTEND=noninteractive apt-get update -qq'',
      ''DEBIAN_FRONTEND=noninteractive apt-get install -y -qq dropbear-initramfs wireguard-tools mdadm'',
      [],
      ''# '' @ (repeat 2 bar) @ '' Step 2b: Preflight checks '' @ (repeat 48 bar),
      ''# Abort if /boot is on an encrypted volume: the initramfs would embed the WireGuard'',
      ''# private key inside the very image that can'' @ [sq] @
        ''t be read without unlocking first.'',
      ''_boot_dev=$(df /boot 2>/dev/null | awk '' @ [sq] @ ''NR==2{print $1}'' @ [sq] @ '')'',
      ''if [ -n '' @ [dq] @ ''$_boot_dev'' @ [dq] @ '' ] && cryptsetup isLuks '' @ [dq] @
        ''$_boot_dev'' @ [dq] @ '' 2>/dev/null; then'',
      ''    echo '' @ [dq] @
        ''[ubo-setup] ERROR: /boot is on an encrypted device ($boot_dev); cannot embed keys in initramfs'' @
        [dq] @ '' >&2'',
      ''    exit 1'',
      ''fi'',
      [],
      ''# Warn if Secure Boot is enabled '' @ mdash @ '' our initramfs hook is unsigned.'',
      ''if [ -d /sys/firmware/efi/efivars ]; then'',
      ''    _sb_file=$(ls /sys/firmware/efi/efivars/SecureBoot-* 2>/dev/null | head -1)'',
      ''    if [ -n '' @ [dq] @ ''$_sb_file'' @ [dq] @ '' ]; then'',
      ''        _sb=$(od -An -j4 -N1 -t u1 < '' @ [dq] @ ''$_sb_file'' @ [dq] @
        '' 2>/dev/null | tr -d '' @ [sq] @ '' '' @ [bslash] @ ''n'' @ [sq] @ '')'',
      ''        if [ '' @ [dq] @ ''$_sb'' @ [dq] @ '' = '' @ [dq] @ ''1'' @ [dq] @ '' ]; then'',
      ''            echo '' @ [dq] @
        ''[ubo-setup] WARNING: Secure Boot is enabled; the initramfs WireGuard hook is unsigned and may be blocked at boot'' @
        [dq] @ '' >&2'',
      ''        fi'',
      ''    fi'',
      ''fi'',
      [],
      ''# Warn if the WireGuard kernel module is not available.'',
      ''if ! modinfo wireguard >/dev/null 2>&1; then'',
      ''    echo '' @ [dq] @
        ''[ubo-setup] WARNING: wireguard kernel module not found; ensure linux-headers or linux-image-extra is installed'' @
        [dq] @ '' >&2'',
      ''fi'',
      [],
      ''# '' @ (repeat 2 bar) @ '' Step 3: Detect dropbear path and regenerate host key '' @
        (repeat 21 bar),
      ''echo '' @ [dq] @ ''[ubo-setup] step 3/11: generating dropbear host key'' @ [dq] @ '' >&2'',
      ''if [ -d /etc/dropbear/initramfs ]; then'',
      ''    DROPBEAR_DIR=/etc/dropbear/initramfs'',
      ''elif [ -d /etc/dropbear-initramfs ]; then'',
      ''    DROPBEAR_DIR=/etc/dropbear-initramfs'',
      ''else'',
      ''    echo '' @ [dq] @ ''[ubo-setup] error: dropbear-initramfs config directory not found'' @
        [dq] @ '' >&2'',
      ''    exit 1'',
      ''fi'',
      ''DROPBEAR_KEY='' @ [dq] @ ''$DROPBEAR_DIR/dropbear_ed25519_host_key'' @ [dq],
      ''rm -f '' @ [dq] @ ''$DROPBEAR_KEY'' @ [dq],
      ''dropbearkey -t ed25519 -f '' @ [dq] @ ''$DROPBEAR_KEY'' @ [dq] @ '' >&2'',
      ''DROPBEAR_PUB=$(dropbearkey -y -f '' @ [dq] @ ''$DROPBEAR_KEY'' @ [dq] @
        '' 2>/dev/null | grep '' @ [sq] @ ''^ssh-'' @ [sq] @ '')'',
      [],
      ''# '' @ (repeat 2 bar) @ '' Steps 4-9: Write config files '' @ (repeat 45 bar),
      ''echo '' @ [dq] @ ''[ubo-setup] steps 4-9/11: writing config files'' @ [dq] @ '' >&2'',
      [],
      ''mkdir -p /etc/wireguard'']"

text \<open>A line that decodes a file's content, and the lines for the six files.\<close>

definition payload :: "string \<Rightarrow> string \<Rightarrow> string" where
  "payload b64 file = ''printf '' @ [sq] @ ''%s'' @ [sq] @ '' '' @ [sq] @ b64 @ [sq] @ '' | base64 -d > '' @ file"

definition setup_files :: "setupScriptRendered \<Rightarrow> string list" where
  "setup_files r =
     [payload (sr_WGServerConf r) ''/etc/wireguard/wg-initramfs.conf'',
      ''chmod 600 /etc/wireguard/wg-initramfs.conf'',
      [],
      ''mkdir -p /etc/initramfs-tools/hooks'',
      payload (sr_InitramfsHook r) ''/etc/initramfs-tools/hooks/wireguard'',
      ''chmod 755 /etc/initramfs-tools/hooks/wireguard'',
      [],
      ''mkdir -p /etc/initramfs-tools/scripts/init-premount'',
      payload (sr_InitramfsScript r) ''/etc/initramfs-tools/scripts/init-premount/wireguard'',
      ''chmod 755 /etc/initramfs-tools/scripts/init-premount/wireguard'',
      [],
      payload (sr_AuthorizedKeys r) ([dq] @ ''$DROPBEAR_DIR/authorized_keys'' @ [dq]),
      ''chmod 600 '' @ [dq] @ ''$DROPBEAR_DIR/authorized_keys'' @ [dq],
      [],
      payload (sr_DropbearConf r) ([dq] @ ''$DROPBEAR_DIR/dropbear.conf'' @ [dq]),
      [],
      ''mkdir -p /etc/initramfs-tools/conf.d'',
      payload (sr_UMASKConf r) ''/etc/initramfs-tools/conf.d/ubo'']"

definition setup_drivers :: "string list" where
  "setup_drivers =
     [[],
      ''# '' @ (repeat 2 bar) @ '' Step 9b: Ensure NIC driver(s) are included in initramfs '' @
        (repeat 18 bar),
      ''# update-initramfs includes storage drivers for LUKS but skips NIC drivers on'',
      ''# systems where the root filesystem is local (not NFS). Detect and add each'',
      ''# required module (handles plain NIC, bond, bridge, and VLAN topologies).'',
      ''_add_mod() {'',
      ''    [ -z '' @ [dq] @ ''$1'' @ [dq] @ '' ] && return'',
      ''    grep -qxF '' @ [dq] @ ''$1'' @ [dq] @
        '' /etc/initramfs-tools/modules 2>/dev/null || '' @ [bslash],
      ''        echo '' @ [dq] @ ''$1'' @ [dq] @ '' >> /etc/initramfs-tools/modules'',
      ''    echo '' @ [dq] @ ''[ubo-setup] initramfs module: $1'' @ [dq] @ '' >&2'',
      ''}'',
      ''_drv_for() {'',
      ''    basename '' @ [dq] @ ''$(readlink /sys/class/net/'' @ [dq] @ ''$1'' @ [dq] @
        ''/device/driver 2>/dev/null)'' @ [dq] @ '' 2>/dev/null || true'',
      ''}'']"

definition setup_nic :: "setupScriptRendered \<Rightarrow> string list" where
  "setup_nic r =
     [''_NIC='' @ [dq] @ sr_NetInterface r @ [dq]]"

definition setup_modules :: "string list" where
  "setup_modules =
     [''if [ -f /sys/class/net/'' @ [dq] @ ''$_NIC'' @ [dq] @ ''/bonding/slaves ]; then'',
      ''    _add_mod bonding'',
      ''    for _sl in $(cat /sys/class/net/'' @ [dq] @ ''$_NIC'' @ [dq] @
        ''/bonding/slaves); do _add_mod '' @ [dq] @ ''$(_drv_for '' @ [dq] @ ''$_sl'' @ [dq] @ '')'' @
        [dq] @ ''; done'',
      ''elif ls /sys/class/net/'' @ [dq] @ ''$_NIC'' @ [dq] @ ''/brif/ >/dev/null 2>&1; then'',
      ''    _add_mod bridge'',
      ''    for _pt in $(ls /sys/class/net/'' @ [dq] @ ''$_NIC'' @ [dq] @
        ''/brif/); do _add_mod '' @ [dq] @ ''$(_drv_for '' @ [dq] @ ''$_pt'' @ [dq] @ '')'' @ [dq] @
        ''; done'',
      ''elif ls /sys/class/net/'' @ [dq] @ ''$_NIC'' @ [dq] @ ''/lower_* >/dev/null 2>&1; then'',
      ''    _add_mod 8021q'',
      ''    for _lw in /sys/class/net/'' @ [dq] @ ''$_NIC'' @ [dq] @ ''/lower_*; do'',
      ''        _pd=$(basename '' @ [dq] @ ''$(readlink '' @ [dq] @ ''$_lw'' @ [dq] @
        '' 2>/dev/null)'' @ [dq] @ '' 2>/dev/null || true)'',
      ''        [ -n '' @ [dq] @ ''$_pd'' @ [dq] @ '' ] || continue'',
      ''        if [ -f /sys/class/net/'' @ [dq] @ ''$_pd'' @ [dq] @ ''/bonding/slaves ]; then'',
      ''            _add_mod bonding'',
      ''            for _sl in $(cat /sys/class/net/'' @ [dq] @ ''$_pd'' @ [dq] @
        ''/bonding/slaves 2>/dev/null); do'',
      ''                _add_mod '' @ [dq] @ ''$(_drv_for '' @ [dq] @ ''$_sl'' @ [dq] @ '')'' @
        [dq],
      ''            done'',
      ''        else'',
      ''            _add_mod '' @ [dq] @ ''$(_drv_for '' @ [dq] @ ''$_pd'' @ [dq] @ '')'' @ [dq],
      ''        fi'',
      ''    done'',
      ''else'',
      ''    _add_mod '' @ [dq] @ ''$(_drv_for '' @ [dq] @ ''$_NIC'' @ [dq] @ '')'' @ [dq],
      ''fi'',
      [],
      ''# '' @ (repeat 2 bar) @ '' Step 10: Configure bootloader '' @ (repeat 45 bar),
      ''echo '' @ [dq] @ ''[ubo-setup] step 10/11: configuring bootloader'' @ [dq] @ '' >&2'']"

definition setup_ip_param :: "setupScriptRendered \<Rightarrow> string list" where
  "setup_ip_param r =
     [''IP_PARAM='' @ [dq] @ ''ip='' @ sr_NetIP r @ ''::'' @ sr_NetGateway r @ '':'' @
        sr_NetMask r @ '':'' @ sr_NetHostname r @ '':'' @ sr_GrubInterface r @ '':none'' @ [dq]]"

definition setup_tail :: "string list" where
  "setup_tail =
     [''if [ -f /etc/default/grub ]; then'',
      ''    GRUB_FILE=/etc/default/grub'',
      ''    if grep -qE '' @ [sq] @ ''^GRUB_CMDLINE_LINUX='' @ [dq] @ ''[^'' @ [dq] @ '']*ip='' @
        [sq] @ '' '' @ [dq] @ ''$GRUB_FILE'' @ [dq] @ '' 2>/dev/null; then'',
      ''        echo '' @ [dq] @ ''[ubo-setup] GRUB_CMDLINE_LINUX already contains ip=; skipping'' @
        [dq] @ '' >&2'',
      ''    elif grep -qE '' @ [sq] @ ''^GRUB_CMDLINE_LINUX='' @ [dq, sq] @ '' '' @ [dq] @
        ''$GRUB_FILE'' @ [dq] @ '' 2>/dev/null; then'',
      ''        sed -i '' @ [dq] @ ''s|^GRUB_CMDLINE_LINUX='' @ [bslash, dq, bslash] @ ''(.*'' @
        [bslash] @ '')'' @ [bslash, dq] @ ''|GRUB_CMDLINE_LINUX='' @ [bslash, dq, bslash] @
        ''1 $IP_PARAM'' @ [bslash, dq] @ ''|'' @ [dq] @ '' '' @ [dq] @ ''$GRUB_FILE'' @ [dq],
      ''        update-grub 2>&1 >&2'',
      ''    else'',
      ''        printf '' @ [sq, bslash] @ ''nGRUB_CMDLINE_LINUX='' @ [dq] @ ''%s'' @ [dq, bslash] @
        ''n'' @ [sq] @ '' '' @ [dq] @ ''$IP_PARAM'' @ [dq] @ '' >> '' @ [dq] @ ''$GRUB_FILE'' @ [dq],
      ''        update-grub 2>&1 >&2'',
      ''    fi'',
      ''else'',
      ''    _updated=0'',
      ''    for _efi_dir in /boot/loader/entries /efi/loader/entries /boot/efi/loader/entries; do'',
      ''        [ -d '' @ [dq] @ ''$_efi_dir'' @ [dq] @ '' ] || continue'',
      ''        for _entry in '' @ [dq] @ ''$_efi_dir'' @ [dq] @ ''/*.conf; do'',
      ''            [ -f '' @ [dq] @ ''$_entry'' @ [dq] @ '' ] || continue'',
      ''            grep -q '' @ [sq] @ '' ip='' @ [sq] @ '' '' @ [dq] @ ''$_entry'' @ [dq] @
        '' && continue'',
      ''            grep -q '' @ [sq] @ ''^options '' @ [sq] @ '' '' @ [dq] @ ''$_entry'' @ [dq] @
        '' || continue'',
      ''            sed -i '' @ [dq] @ ''s|^'' @ [bslash] @ ''(options .*'' @ [bslash] @ '')$|'' @
        [bslash] @ ''1 $IP_PARAM|'' @ [dq] @ '' '' @ [dq] @ ''$_entry'' @ [dq] @ '' && _updated=1'',
      ''        done'',
      ''    done'',
      ''    if [ '' @ [dq] @ ''$_updated'' @ [dq] @ '' = '' @ [dq] @ ''1'' @ [dq] @ '' ]; then'',
      ''        echo '' @ [dq] @ ''[ubo-setup] added $IP_PARAM to systemd-boot entries'' @ [dq] @
        '' >&2'',
      ''    elif ls /boot/loader/entries/*.conf /efi/loader/entries/*.conf /boot/efi/loader/entries/*.conf >/dev/null 2>&1; then'',
      ''        echo '' @ [dq] @
        ''[ubo-setup] systemd-boot entries already contain ip=; skipping'' @ [dq] @ '' >&2'',
      ''    else'',
      ''        echo '' @ [dq] @
        ''[ubo-setup] WARNING: no GRUB or systemd-boot config found; add manually: $IP_PARAM'' @
        [dq] @ '' >&2'',
      ''    fi'',
      ''fi'',
      [],
      ''# '' @ (repeat 2 bar) @ '' Step 11: Rebuild initramfs '' @ (repeat 48 bar),
      ''echo '' @ [dq] @ ''[ubo-setup] step 11/11: rebuilding initramfs'' @ [dq] @ '' >&2'',
      ''update-initramfs -u -k all >&2'',
      [],
      ''# '' @ (repeat 2 bar) @ '' Output JSON result '' @ (repeat 56 bar),
      ''printf '' @ [sq] @ ''{'' @ [dq] @ ''dropbear_pub_key'' @ [dq] @ '':'' @ [dq] @ ''%s'' @
        [dq] @ ''}'' @ [bslash] @ ''n'' @ [sq] @ '' '' @ [dq] @ ''$DROPBEAR_PUB'' @ [dq]]"

definition SetupScript_lines :: "setupScriptRendered \<Rightarrow> string list" where
  "SetupScript_lines r =
     setup_head @ setup_files r @ setup_drivers @ setup_nic r @ setup_modules @ setup_ip_param r @ setup_tail"

definition validateSetupScriptData :: "SetupScriptData \<Rightarrow> render_error + unit" where
  "validateSetupScriptData d =
     require_all RenderRequired
       [(''WGServerConf'', ss_WGServerConf d), (''InitramfsHook'', ss_InitramfsHook d),
        (''InitramfsScript'', ss_InitramfsScript d), (''AuthorizedKeys'', ss_AuthorizedKeys d),
        (''DropbearConf'', ss_DropbearConf d), (''UMASKConf'', ss_UMASKConf d),
        (''NetIP'', ss_NetIP d), (''NetGateway'', ss_NetGateway d), (''NetMask'', ss_NetMask d),
        (''NetHostname'', ss_NetHostname d), (''NetInterface'', ss_NetInterface d),
        (''GrubInterface'', ss_GrubInterface d)]"

definition b64_text :: "string \<Rightarrow> string" where
  "b64_text s = b64_encode (bytes_of s)"

definition rendered :: "SetupScriptData \<Rightarrow> setupScriptRendered" where
  "rendered d =
     \<lparr>sr_WGServerConf = b64_text (ss_WGServerConf d), sr_InitramfsHook = b64_text (ss_InitramfsHook d),
      sr_InitramfsScript = b64_text (ss_InitramfsScript d),
      sr_AuthorizedKeys = b64_text (ss_AuthorizedKeys d), sr_DropbearConf = b64_text (ss_DropbearConf d),
      sr_UMASKConf = b64_text (ss_UMASKConf d), sr_NetIP = ss_NetIP d, sr_NetGateway = ss_NetGateway d,
      sr_NetMask = ss_NetMask d, sr_NetHostname = ss_NetHostname d, sr_NetInterface = ss_NetInterface d,
      sr_GrubInterface = ss_GrubInterface d\<rparr>"

definition RenderSetupScript :: "SetupScriptData \<Rightarrow> render_error + string" where
  "RenderSetupScript d =
     bindE (validateSetupScriptData d) (\<lambda>_. Inr (unlines (SetupScript_lines (rendered d))))"

section \<open>The tunnel script: what is accepted, and what the fields can do\<close>

lemma no_address: "ParseCIDR [] = None" "ParseIP [] = None"
  by code_simp+

lemma RenderInitramfsScript_iff:
  "RenderInitramfsScript d = Inr s \<longleftrightarrow>
     s = unlines (InitramfsScript_lines d) \<and> ParseCIDR (sd_ServerIP d) \<noteq> None \<and>
     ParseCIDR (sd_StaticIP d) \<noteq> None \<and> ParseIP (sd_GatewayIP d) \<noteq> None \<and> sd_Interface d \<noteq> []"
  using no_address
  by (auto simp: RenderInitramfsScript_def validateInitramfsScriptData_def validateScriptCIDRs_def res_simps
      split: if_splits)

lemma script_addresses_safe:
  assumes "RenderInitramfsScript d = Inr s"
  shows "set (sd_ServerIP d) \<inter> set shell_special = {}" "set (sd_StaticIP d) \<inter> set shell_special = {}"
    "set (sd_GatewayIP d) \<inter> set shell_special = {}"
  using assms ParseCIDR_safe ParseIP_safe unfolding RenderInitramfsScript_iff by blast+

lemma nl_special: "nl \<in> set shell_special"
  by (simp add: shell_special_def)

lemma safe_no_nl: "set s \<inter> set shell_special = {} \<Longrightarrow> nl \<notin> set s"
  using nl_special by blast

text \<open>The fields without a check of their own that the interface part embeds.\<close>

definition one_line :: "string \<Rightarrow> bool" where
  "one_line s \<longleftrightarrow> nl \<notin> set s"

definition interface_fields :: "InitramfsScriptData \<Rightarrow> string list" where
  "interface_fields d = [sd_Interface d, sd_VLANPhysdev d, sd_BondSlaves d, sd_BondMode d]"

lemma one_line_append [simp]: "one_line (s @ t) \<longleftrightarrow> one_line s \<and> one_line t" "one_line []"
  "one_line (c # s) \<longleftrightarrow> c \<noteq> nl \<and> one_line s"
  by (auto simp: one_line_def)

lemma one_line_itoa [simp]: "one_line (itoa n)"
  using itoa_chars [of nl n] by (auto simp: one_line_def)

lemma head_one_line: "list_all one_line script_head"
  by code_simp

lemma interface_part_one_line:
  assumes "list_all one_line (interface_fields d)"
  shows "list_all one_line (script_vlan_bond d)" "list_all one_line (script_vlan d)"
    "list_all one_line (script_bond d)" "list_all one_line (script_plain d)"
  using assms
  by (simp_all add: interface_fields_def script_vlan_bond_def script_vlan_def script_bond_def script_plain_def)

lemma tail_one_line:
  assumes "RenderInitramfsScript d = Inr s"
  shows "list_all one_line (script_tail d)"
  using script_addresses_safe [OF assms, THEN safe_no_nl]
  by (simp add: script_tail_def one_line_def [of "sd_ServerIP d"] one_line_def [of "sd_StaticIP d"]
      one_line_def [of "sd_GatewayIP d"])

lemma script_lines:
  assumes "RenderInitramfsScript d = Inr s" "list_all one_line (interface_fields d)"
  shows "split_char nl s = InitramfsScript_lines d @ [[]]"
proof -
  have "list_all one_line (InitramfsScript_lines d)"
    using head_one_line interface_part_one_line [OF assms(2)] tail_one_line [OF assms(1)]
    by (simp add: InitramfsScript_lines_def)
  then have "\<forall>l\<in>set (InitramfsScript_lines d). nl \<notin> set l" by (auto simp: list_all_iff one_line_def)
  then show ?thesis using assms(1) by (simp add: RenderInitramfsScript_iff split_unlines)
qed

section \<open>The setup script writes the files it was given\<close>

text \<open>
  What a shell makes of the lines that write files, on a map from the target, as it is written in the
  script, to the content and the mode that was set last. A line is a pipe into a decoder, with the
  words of the first command as a shell reads them, or a \<open>chmod\<close>; other lines are not interpreted.
\<close>

type_synonym written = "string \<rightharpoonup> string \<times> string"

definition decoded_line :: "string \<Rightarrow> (string \<times> string) option" where
  "decoded_line l =
     (case cut_byte l CHR ''|'' of
        None \<Rightarrow> None
      | Some (left, right) \<Rightarrow>
          (case sh_words left of
             Some [cmd, fmt, text] \<Rightarrow>
               if cmd = ''printf'' \<and> fmt = ''%s'' \<and> has_prefix right '' base64 -d > ''
               then map_option (\<lambda>bs. (drop 13 right, string_of bs)) (b64_decode text) else None
           | _ \<Rightarrow> None))"

definition chmod_line :: "string \<Rightarrow> (string \<times> string) option" where
  "chmod_line l = (if has_prefix l ''chmod '' then cut_byte (drop 6 l) CHR '' '' else None)"

definition file_line :: "string \<Rightarrow> written \<Rightarrow> written" where
  "file_line l fs =
     (case decoded_line l of
        Some (target, content) \<Rightarrow> fs(target \<mapsto> (content, []))
      | None \<Rightarrow>
          (case chmod_line l of
             None \<Rightarrow> fs
           | Some (mode, target) \<Rightarrow>
               (case fs target of None \<Rightarrow> fs | Some (content, m) \<Rightarrow> fs(target \<mapsto> (content, mode)))))"

lemma b64_text_no: "sq \<notin> set (b64_text s)" "CHR ''|'' \<notin> set (b64_text s)"
  using b64_encode_chars [of sq "bytes_of s"] b64_encode_chars [of "CHR ''|''" "bytes_of s"]
  by (auto simp: b64_text_def)

lemma sh_single_plain: "sq \<notin> set v \<Longrightarrow> sh_single w (v @ sq # s) = sh_bare True (w @ v) s"
  by (induction v arbitrary: w) auto

lemma decoded_payload: "decoded_line (payload (b64_text s) target) = Some (target, s)"
proof -
  let ?left = "''printf '' @ [sq] @ ''%s'' @ [sq] @ '' '' @ [sq] @ b64_text s @ [sq] @ '' ''"
  have "CHR ''|'' \<notin> set ?left" using b64_text_no(2) by simp
  moreover have "payload (b64_text s) target = ?left @ CHR ''|'' # ('' base64 -d > '' @ target)"
    by (simp add: payload_def)
  ultimately have "cut_byte (payload (b64_text s) target) CHR ''|'' = Some (?left, '' base64 -d > '' @ target)"
    by (metis cut_byte_append)
  moreover have "sh_words ?left = Some [''printf'', ''%s'', b64_text s]"
    by (simp add: sh_words_def shell_operators_def sh_single_plain b64_text_no(1))
  ultimately show ?thesis
    by (simp add: decoded_line_def str_simps b64_text_def)
qed

lemma chmod_line_eq: "CHR '' '' \<notin> set mode \<Longrightarrow> chmod_line (''chmod '' @ mode @ CHR '' '' # target) = Some (mode, target)"
  by (simp add: chmod_line_def str_simps cut_byte_append)

text \<open>No other line of the script is of one of the two kinds.\<close>

definition writes_nothing :: "string \<Rightarrow> bool" where
  "writes_nothing l \<longleftrightarrow> decoded_line l = None \<and> chmod_line l = None"

lemma writes_nothing_fixed:
  "list_all writes_nothing setup_head" "list_all writes_nothing setup_drivers"
  "list_all writes_nothing setup_modules" "list_all writes_nothing setup_tail"
  by code_simp+

lemma writes_nothing_quoted:
  assumes "sh_plain v" "hd v \<noteq> CHR ''c''" "CHR ''|'' \<notin> set v"
  shows "writes_nothing (v @ dq # w)"
proof -
  have "CHR ''|'' \<notin> set (v @ [dq])" using assms(3) by simp
  have none: "sh_words (v @ dq # x) = None" for x
    using assms(1) sh_bare_plain [of v False "[]" "dq # x"]
    by (simp add: sh_words_def sh_plain_def shell_operators_def)
  have "decoded_line (v @ dq # w) = None"
  proof (cases "CHR ''|'' \<in> set w")
    case True
    then obtain a b where w: "w = a @ CHR ''|'' # b" "CHR ''|'' \<notin> set a" by (meson split_list_first)
    have "cut_byte (v @ dq # w) CHR ''|'' = Some (v @ dq # a, b)"
      using cut_byte_append [of "CHR ''|''" "v @ dq # a" b] w assms(3) by simp
    then show ?thesis by (simp add: decoded_line_def none)
  next
    case False
    then have "cut_byte (v @ dq # w) CHR ''|'' = None" using assms(3) by (simp add: cut_byte_None)
    then show ?thesis by (simp add: decoded_line_def)
  qed
  moreover have "chmod_line (v @ dq # w) = None"
  proof -
    have "\<not> has_prefix (v @ dq # w) ''chmod ''"
      using assms(1,2) by (cases v) (auto simp: sh_plain_def has_prefix_def)
    then show ?thesis by (simp add: chmod_line_def)
  qed
  ultimately show ?thesis by (simp add: writes_nothing_def)
qed

lemma writes_nothing_fields:
  "list_all writes_nothing (setup_nic r)" "list_all writes_nothing (setup_ip_param r)"
proof -
  have "sh_plain ''_NIC=''" "sh_plain ''IP_PARAM=''"
    by code_simp+
  then have "writes_nothing (''_NIC='' @ dq # x)" "writes_nothing (''IP_PARAM='' @ dq # x)" for x
    by (intro writes_nothing_quoted; simp)+
  then show "list_all writes_nothing (setup_nic r)" "list_all writes_nothing (setup_ip_param r)"
    by (simp_all add: setup_nic_def setup_ip_param_def)
qed

lemma fold_writes_nothing: "list_all writes_nothing ls \<Longrightarrow> fold file_line ls fs = fs"
  by (induction ls) (simp_all add: file_line_def writes_nothing_def)

text \<open>The part of the script that writes them.\<close>

definition conf_file :: string where "conf_file = ''/etc/wireguard/wg-initramfs.conf''"
definition hook_file :: string where "hook_file = ''/etc/initramfs-tools/hooks/wireguard''"
definition script_file :: string where "script_file = ''/etc/initramfs-tools/scripts/init-premount/wireguard''"
definition keys_file :: string where "keys_file = [dq] @ ''$DROPBEAR_DIR/authorized_keys'' @ [dq]"
definition dropbear_file :: string where "dropbear_file = [dq] @ ''$DROPBEAR_DIR/dropbear.conf'' @ [dq]"
definition umask_file :: string where "umask_file = ''/etc/initramfs-tools/conf.d/ubo''"

lemmas file_defs = conf_file_def hook_file_def script_file_def keys_file_def dropbear_file_def umask_file_def

definition written_files :: "SetupScriptData \<Rightarrow> written" where
  "written_files d =
     [conf_file \<mapsto> (ss_WGServerConf d, ''600''), hook_file \<mapsto> (ss_InitramfsHook d, ''755''),
      script_file \<mapsto> (ss_InitramfsScript d, ''755''), keys_file \<mapsto> (ss_AuthorizedKeys d, ''600''),
      dropbear_file \<mapsto> (ss_DropbearConf d, []), umask_file \<mapsto> (ss_UMASKConf d, [])]"

definition chmod_cmd :: "string \<Rightarrow> string \<Rightarrow> string" where
  "chmod_cmd mode target = ''chmod '' @ mode @ CHR '' '' # target"

lemma setup_files_shape:
  "setup_files r =
     [payload (sr_WGServerConf r) conf_file, chmod_cmd ''600'' conf_file, [],
      ''mkdir -p /etc/initramfs-tools/hooks'',
      payload (sr_InitramfsHook r) hook_file, chmod_cmd ''755'' hook_file, [],
      ''mkdir -p /etc/initramfs-tools/scripts/init-premount'',
      payload (sr_InitramfsScript r) script_file, chmod_cmd ''755'' script_file, [],
      payload (sr_AuthorizedKeys r) keys_file, chmod_cmd ''600'' keys_file, [],
      payload (sr_DropbearConf r) dropbear_file, [],
      ''mkdir -p /etc/initramfs-tools/conf.d'',
      payload (sr_UMASKConf r) umask_file]"
  by (simp add: setup_files_def file_defs chmod_cmd_def)

lemma file_line_payload: "file_line (payload (b64_text s) target) fs = fs(target \<mapsto> (s, []))"
  by (simp add: file_line_def decoded_payload)

lemma file_line_chmod:
  assumes "CHR '' '' \<notin> set mode" "CHR ''|'' \<notin> set mode" "CHR ''|'' \<notin> set target" "fs target = Some (content, m)"
  shows "file_line (chmod_cmd mode target) fs = fs(target \<mapsto> (content, mode))"
proof -
  have "cut_byte (chmod_cmd mode target) CHR ''|'' = None"
    using assms(2,3) by (simp add: cut_byte_None chmod_cmd_def)
  then have "decoded_line (chmod_cmd mode target) = None" by (simp add: decoded_line_def)
  moreover have "chmod_line (chmod_cmd mode target) = Some (mode, target)"
    unfolding chmod_cmd_def by (rule chmod_line_eq [OF assms(1)])
  ultimately show ?thesis using assms(4) by (simp add: file_line_def)
qed

lemma no_bar: "CHR ''|'' \<notin> set conf_file" "CHR ''|'' \<notin> set hook_file" "CHR ''|'' \<notin> set script_file" "CHR ''|'' \<notin> set keys_file"
  by (simp_all add: file_defs)

lemma distinct_files: "distinct [conf_file, hook_file, script_file, keys_file, dropbear_file, umask_file]"
  "distinct [umask_file, dropbear_file, keys_file, script_file, hook_file, conf_file]"
  by code_simp+

lemma file_line_other:
  "file_line [] fs = fs" "file_line ''mkdir -p /etc/initramfs-tools/hooks'' fs = fs"
  "file_line ''mkdir -p /etc/initramfs-tools/scripts/init-premount'' fs = fs"
  "file_line ''mkdir -p /etc/initramfs-tools/conf.d'' fs = fs"
proof -
  have "list_all writes_nothing [[], ''mkdir -p /etc/initramfs-tools/hooks'',
      ''mkdir -p /etc/initramfs-tools/scripts/init-premount'', ''mkdir -p /etc/initramfs-tools/conf.d'']"
    by code_simp
  then show "file_line [] fs = fs" "file_line ''mkdir -p /etc/initramfs-tools/hooks'' fs = fs"
    "file_line ''mkdir -p /etc/initramfs-tools/scripts/init-premount'' fs = fs"
    "file_line ''mkdir -p /etc/initramfs-tools/conf.d'' fs = fs"
    by (simp_all add: file_line_def writes_nothing_def)
qed

lemma fold_setup_files: "fold file_line (setup_files (rendered d)) Map.empty = written_files d"
  using distinct_files no_bar
  unfolding setup_files_shape written_files_def rendered_def fold_simps o_apply
  by (simp add: file_line_payload file_line_other file_line_chmod)

lemma fold_setup_script: "fold file_line (SetupScript_lines (rendered d)) Map.empty = written_files d"
  unfolding SetupScript_lines_def fold_append o_apply
  by (simp add: fold_writes_nothing writes_nothing_fixed writes_nothing_fields fold_setup_files)

definition net_fields :: "SetupScriptData \<Rightarrow> string list" where
  "net_fields d =
     [ss_NetIP d, ss_NetGateway d, ss_NetMask d, ss_NetHostname d, ss_NetInterface d, ss_GrubInterface d]"

lemma setup_one_line:
  "list_all one_line setup_head" "list_all one_line setup_drivers" "list_all one_line setup_modules"
  "list_all one_line setup_tail"
  by code_simp+

lemma b64_text_one_line [simp]: "one_line (b64_text s)"
  using b64_encode_plain [of "bytes_of s"] plain_not_eol by (auto simp: one_line_def b64_text_def)

lemma SetupScript_one_line:
  assumes "list_all one_line (net_fields d)"
  shows "list_all one_line (SetupScript_lines (rendered d))"
proof -
  have "list_all one_line (setup_files (rendered d))"
    by (simp add: setup_files_def rendered_def payload_def)
  moreover have "list_all one_line (setup_nic (rendered d))" "list_all one_line (setup_ip_param (rendered d))"
    using assms by (simp_all add: setup_nic_def setup_ip_param_def rendered_def net_fields_def)
  ultimately show ?thesis
    using setup_one_line by (simp add: SetupScript_lines_def)
qed

lemma RenderSetupScript_iff:
  "RenderSetupScript d = Inr s \<longleftrightarrow>
     s = unlines (SetupScript_lines (rendered d)) \<and>
     (\<forall>v\<in>set ([ss_WGServerConf d, ss_InitramfsHook d, ss_InitramfsScript d, ss_AuthorizedKeys d,
        ss_DropbearConf d, ss_UMASKConf d] @ net_fields d). v \<noteq> [])"
  by (auto simp: RenderSetupScript_def validateSetupScriptData_def require_all_ok net_fields_def res_simps)

lemma special_covers: "set (CHR '' '' # sq # bslash # shell_operators) \<subseteq> set shell_special"
  by code_simp

section \<open>Properties\<close>

definition sample_script :: InitramfsScriptData where
  "sample_script =
     \<lparr>sd_ServerIP = ''10.42.0.1/24'', sd_StaticIP = ''192.168.1.10/24'', sd_GatewayIP = ''192.168.1.1'',
      sd_Interface = ''eth0'', sd_VLANPhysdev = [], sd_VLANID = 0, sd_BondSlaves = [], sd_BondMode = []\<rparr>"

lemma sample_script_renders:
  "RenderInitramfsScript sample_script = Inr (unlines (InitramfsScript_lines sample_script))"
proof -
  have c: "''10.42.0.1/24'' = cidr4 [10, 42, 0, 1] 24" "''192.168.1.10/24'' = cidr4 [192, 168, 1, 10] 24"
    "''192.168.1.1'' = dotted [192, 168, 1, 1]" by code_simp+
  show ?thesis
    unfolding RenderInitramfsScript_iff
    by (simp add: sample_script_def c ParseCIDR_cidr4 ParseIP_dotted)
qed

text \<open>C23: The boot script is rendered exactly for data with two addresses in CIDR notation, a
  gateway address and the name of an interface, and then it is the template with these data. The
  two addresses and the gateway, which it embeds without quotes, hold no character with a meaning
  in a shell, so each stays the one word it is meant to be; the line that gives the tunnel its
  address, for one, is these six words. The other fields are not checked here: of the interface
  it is only asked that there is one, and of the VLAN's parent, the bond's slaves and its mode
  nothing.\<close>

theorem boot_script_addresses_safe:
  "(RenderInitramfsScript d = Inr s \<longleftrightarrow>
      s = unlines (InitramfsScript_lines d) \<and> ParseCIDR (sd_ServerIP d) \<noteq> None \<and>
      ParseCIDR (sd_StaticIP d) \<noteq> None \<and> ParseIP (sd_GatewayIP d) \<noteq> None \<and> sd_Interface d \<noteq> []) \<and>
   (RenderInitramfsScript d = Inr s \<longrightarrow>
      (\<forall>v\<in>{sd_ServerIP d, sd_StaticIP d, sd_GatewayIP d}. sh_plain v \<and> set v \<inter> set shell_special = {}) \<and>
      ''ip addr add '' @ sd_ServerIP d @ '' dev wg0'' \<in> set (InitramfsScript_lines d) \<and>
      sh_words (''ip addr add '' @ sd_ServerIP d @ '' dev wg0'') =
        Some [''ip'', ''addr'', ''add'', sd_ServerIP d, ''dev'', ''wg0''])"
proof -
  have "sh_plain v" if "set v \<inter> set shell_special = {}" "v \<noteq> []" for v
    using that special_covers by (auto simp: sh_plain_def list_all_iff)
  moreover have "sd_ServerIP d \<noteq> [] \<and> sd_StaticIP d \<noteq> [] \<and> sd_GatewayIP d \<noteq> []" if "RenderInitramfsScript d = Inr s"
    using that no_address by (auto simp: RenderInitramfsScript_iff)
  ultimately have plain: "\<forall>v\<in>{sd_ServerIP d, sd_StaticIP d, sd_GatewayIP d}. sh_plain v \<and> set v \<inter> set shell_special = {}"
    if "RenderInitramfsScript d = Inr s"
    using that script_addresses_safe [OF that] by simp
  have "sh_words (''ip addr add '' @ v @ '' dev wg0'') = Some [''ip'', ''addr'', ''add'', v, ''dev'', ''wg0'']"
    if "sh_plain v" for v
    using sh_bare_word [OF that, of "''dev wg0''"] by (simp add: sh_words_def shell_operators_def)
  moreover have "''ip addr add '' @ sd_ServerIP d @ '' dev wg0'' \<in> set (InitramfsScript_lines d)"
    by (simp add: InitramfsScript_lines_def script_tail_def)
  ultimately show ?thesis using plain unfolding RenderInitramfsScript_iff by blast
qed

lemma boot_script_addresses_safe_witness:
  "set (sd_GatewayIP sample_script) \<inter> set shell_special = {} \<and>
   sh_words (''ip addr add '' @ sd_ServerIP sample_script @ '' dev wg0'') =
     Some [''ip'', ''addr'', ''add'', ''10.42.0.1/24'', ''dev'', ''wg0'']"
proof -
  note safe = boot_script_addresses_safe [of sample_script "unlines (InitramfsScript_lines sample_script)", THEN conjunct2,
      rule_format, OF sample_script_renders]
  have "sd_ServerIP sample_script = ''10.42.0.1/24''" by (simp add: sample_script_def)
  with safe show ?thesis by simp
qed

text \<open>When the interface fields are on one line, the rendered boot script has exactly the lines
  of the template branch that the interface kind selects: no field can add a line.\<close>

lemma boot_script_lines:
  assumes "RenderInitramfsScript d = Inr s" "list_all one_line (interface_fields d)"
  shows "split_char nl s =
    script_head @
    (if sd_VLANPhysdev d \<noteq> [] \<and> sd_BondSlaves d \<noteq> [] then script_vlan_bond d
     else if sd_VLANPhysdev d \<noteq> [] then script_vlan d
     else if sd_BondSlaves d \<noteq> [] then script_bond d else script_plain d) @
    script_tail d @ [[]]"
  using script_lines [OF assms] by (simp add: InitramfsScript_lines_def)

lemma boot_script_lines_witness:
  "split_char nl (unlines (InitramfsScript_lines sample_script))
    = script_head @ script_plain sample_script @ script_tail sample_script @ [[]]"
  using boot_script_lines [OF sample_script_renders]
  by (simp add: interface_fields_def) (simp add: sample_script_def)

definition sample_setup :: SetupScriptData where
  "sample_setup =
     \<lparr>ss_WGServerConf = ''a'' @ [sq, nl], ss_InitramfsHook = ''b'', ss_InitramfsScript = ''c'',
      ss_AuthorizedKeys = ''d'', ss_DropbearConf = ''e'', ss_UMASKConf = ''f'', ss_NetIP = ''192.168.1.10'',
      ss_NetGateway = ''192.168.1.1'', ss_NetMask = ''255.255.255.0'', ss_NetHostname = ''server'',
      ss_NetInterface = ''eth0'', ss_GrubInterface = ''eth0''\<rparr>"

text \<open>C24: Of the lines of the rendered setup script, those that a shell reads as
  \<open>printf '%s' TEXT | base64 -d > FILE\<close> and as \<open>chmod MODE FILE\<close> leave, run in their order, six
  files: the WireGuard configuration and the authorized keys, which only the owner may read, the
  hook and the boot script, which can be executed, Dropbear's configuration and the umask. Each
  is at its own path and holds exactly the content it was given, whatever bytes that is: a quote
  or a newline in a content neither ends the shell word nor adds a line. The values of the
  network, which the script holds as they are, must each be on one line. The other lines, which
  make the host key, add kernel modules and edit the boot loader, are not interpreted.\<close>

theorem setup_script_writes_files:
  assumes "RenderSetupScript d = Inr s"
    and "\<forall>v\<in>{ss_NetIP d, ss_NetGateway d, ss_NetMask d, ss_NetHostname d, ss_NetInterface d, ss_GrubInterface d}.
      nl \<notin> set v"
  shows "fold file_line (split_char nl s) Map.empty =
    [''/etc/wireguard/wg-initramfs.conf'' \<mapsto> (ss_WGServerConf d, ''600''),
     ''/etc/initramfs-tools/hooks/wireguard'' \<mapsto> (ss_InitramfsHook d, ''755''),
     ''/etc/initramfs-tools/scripts/init-premount/wireguard'' \<mapsto> (ss_InitramfsScript d, ''755''),
     [dq] @ ''$DROPBEAR_DIR/authorized_keys'' @ [dq] \<mapsto> (ss_AuthorizedKeys d, ''600''),
     [dq] @ ''$DROPBEAR_DIR/dropbear.conf'' @ [dq] \<mapsto> (ss_DropbearConf d, []),
     ''/etc/initramfs-tools/conf.d/ubo'' \<mapsto> (ss_UMASKConf d, [])]"
proof -
  have "list_all one_line (net_fields d)" using assms(2) by (simp add: net_fields_def one_line_def)
  then have "\<forall>l\<in>set (SetupScript_lines (rendered d)). nl \<notin> set l"
    using SetupScript_one_line by (simp add: list_all_iff one_line_def)
  moreover have "s = unlines (SetupScript_lines (rendered d))"
    using assms(1) by (auto simp: RenderSetupScript_def res_simps)
  ultimately have "split_char nl s = SetupScript_lines (rendered d) @ [[]]" by (simp add: split_unlines)
  then have "fold file_line (split_char nl s) Map.empty = written_files d"
    by (simp add: fold_setup_script file_line_other)
  then show ?thesis unfolding written_files_def file_defs .
qed

lemma setup_script_writes_files_witness:
  "fold file_line (split_char nl (unlines (SetupScript_lines (rendered sample_setup)))) Map.empty
     ''/etc/wireguard/wg-initramfs.conf'' = Some (''a'' @ [sq, nl], ''600'')"
proof -
  have "RenderSetupScript sample_setup = Inr (unlines (SetupScript_lines (rendered sample_setup)))"
    unfolding RenderSetupScript_iff by (simp add: sample_setup_def net_fields_def)
  moreover have "\<forall>v\<in>{ss_NetIP sample_setup, ss_NetGateway sample_setup, ss_NetMask sample_setup,
      ss_NetHostname sample_setup, ss_NetInterface sample_setup, ss_GrubInterface sample_setup}. nl \<notin> set v"
    by (simp add: sample_setup_def)
  moreover have "ss_WGServerConf sample_setup = ''a'' @ [sq, nl]" by (simp add: sample_setup_def)
  ultimately show ?thesis using setup_script_writes_files by simp
qed

end
