(* ===== verification/Keygen.thy ===== *)
theory Keygen
  imports Go_Encoding Go_FS
begin

text \<open>
  Key generation of \<open>internal/keygen/keygen.go\<close>. The cryptographic libraries are arguments: a
  record of the functions the code calls, with randomness drawn at the current moment of the
  world. Progress messages on the terminal are left out.
\<close>

unbundle bit_operations_syntax

record crypto =
  rand_Read :: "nat \<Rightarrow> byte list option"
  X25519_Basepoint :: "byte list \<Rightarrow> byte list option"
  ed25519_GenerateKey :: "nat \<Rightarrow> (byte list \<times> byte list) option"
  ssh_MarshalPrivateKey :: "byte list \<Rightarrow> string option"
  ssh_NewPublicKey :: "byte list \<Rightarrow> byte list option"
  ssh_MarshalAuthorizedKey :: "byte list \<Rightarrow> string"

record Keys =
  ServerWGPrivate :: string
  ServerWGPublic :: string
  ClientWGPrivate :: string
  ClientWGPublic :: string
  ClientSSHKeyPath :: string
  ClientSSHPubKey :: string

datatype key_error =
    KeyRead os_error
  | KeyRandom
  | KeyDecode
  | KeyDerive
  | KeyWrite string os_error
  | KeyEd25519
  | KeyMarshalPrivate
  | KeyMarshalPublic
  | KeyFor string key_error

section \<open>WireGuard keys\<close>

text \<open>\<open>key[0] &= 248; key[31] = (key[31] & 127) | 64\<close>\<close>

definition clamp :: "byte list \<Rightarrow> byte list" where
  "clamp key =
     (let k = key[0 := key ! 0 AND 248]
      in k[31 := (k ! 31 AND 127) OR 64])"

definition generateWGPrivateKey :: "crypto \<Rightarrow> (world, key_error, string) step" where
  "generateWGPrivateKey cr w =
     (case rand_Read cr (tick w) of
        None \<Rightarrow> (Inl KeyRandom, passed w)
      | Some key \<Rightarrow> (Inr (b64_encode (clamp key)), passed w))"

definition deriveWGPublicKey :: "crypto \<Rightarrow> string \<Rightarrow> key_error + string" where
  "deriveWGPublicKey cr privateB64 =
     (case b64_decode privateB64 of
        None \<Rightarrow> Inl KeyDecode
      | Some priv \<Rightarrow>
          (case X25519_Basepoint cr priv of
             None \<Rightarrow> Inl KeyDerive
           | Some pub \<Rightarrow> Inr (b64_encode pub)))"

definition rm :: "string \<Rightarrow> world \<Rightarrow> world" where
  "rm p w = snd (os_Remove p w)"

definition GenerateWireGuardKeypair ::
    "crypto \<Rightarrow> string \<Rightarrow> string \<Rightarrow> (world, key_error, string \<times> string) step" where
  "GenerateWireGuardKeypair cr name outputDir =
     (let privPath = Join [outputDir, name @ ''_private.key''];
          pubPath = Join [outputDir, name @ ''_public.key'']
      in thenS (generateWGPrivateKey cr) (\<lambda>privateKey.
         thenS (wrapS (KeyWrite privPath) (os_WriteFile privPath (privateKey @ [nl]) 0x180)) (\<lambda>_.
         undoS
           (thenS (liftS (deriveWGPublicKey cr privateKey)) (\<lambda>publicKey.
            thenS (wrapS (KeyWrite pubPath) (os_WriteFile pubPath (publicKey @ [nl]) 0x1A4)) (\<lambda>_.
            returnS (privateKey, publicKey))))
           (rm privPath))))"

section \<open>The SSH key\<close>

definition ed25519_key :: "crypto \<Rightarrow> (world, key_error, byte list \<times> byte list) step" where
  "ed25519_key cr w =
     (case ed25519_GenerateKey cr (tick w) of
        None \<Rightarrow> (Inl KeyEd25519, passed w) | Some k \<Rightarrow> (Inr k, passed w))"

definition GenerateSSHKeypair ::
    "crypto \<Rightarrow> string \<Rightarrow> string \<Rightarrow> (world, key_error, string \<times> string) step" where
  "GenerateSSHKeypair cr name outputDir =
     (let keyPath = Join [outputDir, name];
          pubPath = keyPath @ ''.pub''
      in thenS (ed25519_key cr) (\<lambda>(edPub, edPriv).
         thenS (liftS (case ssh_MarshalPrivateKey cr edPriv of
                         None \<Rightarrow> Inl KeyMarshalPrivate | Some pem \<Rightarrow> Inr pem)) (\<lambda>pem.
         thenS (wrapS (KeyWrite keyPath) (os_WriteFile keyPath pem 0x180)) (\<lambda>_.
         undoS
           (thenS (liftS (case ssh_NewPublicKey cr edPub of
                            None \<Rightarrow> Inl KeyMarshalPublic | Some k \<Rightarrow> Inr k)) (\<lambda>sshPub.
            let pubKey = trim_suffix (ssh_MarshalAuthorizedKey cr sshPub) [nl] @ '' ubo-client''
            in thenS (wrapS (KeyWrite pubPath) (os_WriteFile pubPath (pubKey @ [nl]) 0x1A4)) (\<lambda>_.
               returnS (keyPath, pubKey))))
           (rm keyPath)))))"

section \<open>All keys\<close>

fun readTrimmedFiles :: "string \<Rightarrow> string list \<Rightarrow> (world, key_error, string list) step" where
  "readTrimmedFiles outputDir [] w = (Inr [], w)"
| "readTrimmedFiles outputDir (name # names) w =
     thenS (wrapS KeyRead (os_ReadFile (Join [outputDir, name]))) (\<lambda>b.
     thenS (readTrimmedFiles outputDir names) (\<lambda>vals.
     returnS (trim_space b # vals))) w"

definition key_files :: "string list" where
  "key_files =
     [''server_wg_private.key'', ''server_wg_public.key'', ''client_wg_private.key'',
      ''client_wg_public.key'', ''client_auth_ed25519.pub'']"

definition loadExisting :: "string \<Rightarrow> (world, key_error, Keys) step" where
  "loadExisting outputDir =
     (let sshKeyPath = Join [outputDir, ''client_auth_ed25519'']
      in thenS (readTrimmedFiles outputDir key_files) (\<lambda>vals.
         thenS (wrapS KeyRead (os_Stat sshKeyPath)) (\<lambda>_.
         returnS
           \<lparr>ServerWGPrivate = vals ! 0, ServerWGPublic = vals ! 1, ClientWGPrivate = vals ! 2,
            ClientWGPublic = vals ! 3, ClientSSHKeyPath = sshKeyPath, ClientSSHPubKey = vals ! 4\<rparr>)))"

definition generateFresh :: "crypto \<Rightarrow> string \<Rightarrow> (world, key_error, Keys) step" where
  "generateFresh cr outputDir =
     thenS (wrapS (KeyFor ''server WireGuard keypair'')
              (GenerateWireGuardKeypair cr ''server_wg'' outputDir)) (\<lambda>(serverPriv, serverPub).
     thenS (wrapS (KeyFor ''client WireGuard keypair'')
              (GenerateWireGuardKeypair cr ''client_wg'' outputDir)) (\<lambda>(clientPriv, clientPub).
     thenS (wrapS (KeyFor ''client SSH keypair'')
              (GenerateSSHKeypair cr ''client_auth_ed25519'' outputDir)) (\<lambda>(keyPath, pubKey).
     returnS
       \<lparr>ServerWGPrivate = serverPriv, ServerWGPublic = serverPub, ClientWGPrivate = clientPriv,
        ClientWGPublic = clientPub, ClientSSHKeyPath = keyPath, ClientSSHPubKey = pubKey\<rparr>)))"

definition GenerateAll :: "crypto \<Rightarrow> string \<Rightarrow> (world, key_error, Keys) step" where
  "GenerateAll cr outputDir w =
     (case loadExisting outputDir w of
        (Inr keys, w1) \<Rightarrow> (Inr keys, w1)
      | (Inl _, w1) \<Rightarrow> generateFresh cr outputDir w1)"

section \<open>Private keys\<close>

text \<open>Clamping keeps the length and fixes five bits of the scalar.\<close>

lemma length_clamp [simp]: "length (clamp k) = length k"
  by (simp add: clamp_def Let_def)

lemma clamp_bits:
  assumes "length k = 32"
  shows "clamp k ! 0 AND 7 = 0" "bit (clamp k ! 31) 6" "\<not> bit (clamp k ! 31) 7"
    "\<forall>i. 0 < i \<and> i < 31 \<longrightarrow> clamp k ! i = k ! i"
proof -
  have "(x AND 248) AND 7 = (0 :: byte)" for x
  proof -
    have "(248 :: byte) AND 7 = 0" by simp
    then show ?thesis by (simp add: and.assoc)
  qed
  then show "clamp k ! 0 AND 7 = 0" using assms by (simp add: clamp_def Let_def)
  have "bit (64 :: byte) 6" "\<not> bit (64 :: byte) 7" "\<not> bit (127 :: byte) 7"
    by (simp_all add: bit_numeral_rec)
  then show "bit (clamp k ! 31) 6" "\<not> bit (clamp k ! 31) 7"
    using assms by (simp_all add: clamp_def Let_def bit_or_iff bit_and_iff)
  show "\<forall>i. 0 < i \<and> i < 31 \<longrightarrow> clamp k ! i = k ! i"
    using assms by (auto simp: clamp_def Let_def nth_list_update)
qed

lemma clamp_idem: "length k = 32 \<Longrightarrow> clamp (clamp k) = clamp k"
proof -
  assume k: "length k = 32"
  have "((x AND 127) OR 64) AND 127 OR 64 = ((x AND 127) OR (64 :: byte))" for x
    by (rule bit_eqI) (auto simp: bit_simps)
  moreover have "(x AND 248) AND 248 = (x AND (248 :: byte))" for x by (simp add: and.assoc)
  ultimately show ?thesis
    using k by (simp add: clamp_def Let_def nth_list_update list_update_swap)
qed

section \<open>Files written are files read\<close>

text \<open>The paths of the six files are different: no name ends with another.\<close>

definition key_names :: "string list" where
  "key_names = ''client_auth_ed25519'' # key_files"

lemma key_names_table:
  "list_all (\<lambda>n. file_name n \<and> list_all (\<lambda>m. n = m \<or> \<not> has_suffix n m) key_names) key_names"
  by code_simp

lemma key_names_facts:
  "\<forall>n\<in>set key_names. file_name n \<and> (\<forall>m\<in>set key_names. n = m \<or> \<not> has_suffix n m)"
  using key_names_table unfolding list_all_iff .

lemma key_paths_distinct:
  assumes "n \<in> set key_names" "m \<in> set key_names" "n \<noteq> m"
  shows "Clean (Join [d, n]) \<noteq> Clean (Join [d, m])"
proof
  assume eq: "Clean (Join [d, n]) = Clean (Join [d, m])"
  note n = bspec [OF key_names_facts assms(1)] and m = bspec [OF key_names_facts assms(2)]
  have nm: "file_name n" "file_name m" "\<not> has_suffix n m" "\<not> has_suffix m n"
    using n m bspec [OF conjunct2 [OF n] assms(2)] bspec [OF conjunct2 [OF m] assms(1)] assms(3)
    by simp_all
  obtain r r' where "r @ n = r' @ m" using Clean_Join nm(1,2) eq by metis
  then have "(\<exists>us. n = us @ m) \<or> (\<exists>us. m = us @ n)"
    unfolding append_eq_append_conv2 by blast
  then have "has_suffix n m \<or> has_suffix m n"
    unfolding has_suffix_iff .
  with nm show False by blast
qed

lemma Join_pub: "Join [d, ''client_auth_ed25519''] @ ''.pub'' = Join [d, ''client_auth_ed25519.pub'']"
proof -
  have "file_name ''client_auth_ed25519''" "file_name (''client_auth_ed25519'' @ ''.pub'')" by code_simp+
  from Join_name_append [OF this] show ?thesis by simp
qed

text \<open>What a file holds, whatever its mode.\<close>

definition holds_data :: "world \<Rightarrow> string \<Rightarrow> string \<Rightarrow> bool" where
  "holds_data w p data \<longleftrightarrow> (\<exists>m. node_at w p = Some (File data m))"

lemma holds_data_set:
  "holds_data (set_node p (Some (File data m)) w) q d \<longleftrightarrow>
     (if Clean q = Clean p then d = data else holds_data w q d)"
  by (auto simp: holds_data_def node_at_set_node)

lemma holds_data_passed [simp]: "holds_data (passed w) = holds_data w"
  by (simp add: holds_data_def fun_eq_iff)

text \<open>A successful generation of a pair writes the two files and nothing else.\<close>

lemma GenerateWireGuardKeypair_ok:
  assumes "GenerateWireGuardKeypair cr name d w = (Inr (priv, pub), w')"
  defines "pr \<equiv> Join [d, name @ ''_private.key'']" and "pu \<equiv> Join [d, name @ ''_public.key'']"
  shows "\<exists>k q m. rand_Read cr (tick w) = Some k \<and> priv = b64_encode (clamp k) \<and>
    X25519_Basepoint cr (clamp k) = Some q \<and> pub = b64_encode q \<and>
    w' = set_node pu (Some (File (pub @ [nl]) m))
          (passed (set_node pr (Some (File (priv @ [nl]) (mode_after w pr 0x180))) (passed (passed w))))"
proof -
  obtain k w1 where k: "rand_Read cr (tick w) = Some k" "priv = b64_encode (clamp k)"
    and w1: "os_WriteFile pr (priv @ [nl]) 0x180 (passed w) = (Inr (), w1)"
    and pub: "deriveWGPublicKey cr priv = Inr pub"
    and w2: "os_WriteFile pu (pub @ [nl]) 0x1A4 w1 = (Inr (), w')"
    using assms(1) unfolding pr_def pu_def
    by (auto simp: GenerateWireGuardKeypair_def generateWGPrivateKey_def Let_def res_simps
        split: option.splits)
  from pub k obtain q where q: "X25519_Basepoint cr (clamp k) = Some q" "pub = b64_encode q"
    by (auto simp: deriveWGPublicKey_def split: option.splits)
  from WriteFile_Inr [OF w2] WriteFile_Inr [OF w1]
  have "w' = set_node pu (Some (File (pub @ [nl]) (mode_after w1 pu 0x1A4)))
      (passed (set_node pr (Some (File (priv @ [nl]) (mode_after w pr 0x180))) (passed (passed w))))"
    by simp
  with k q show ?thesis by blast
qed

lemma GenerateSSHKeypair_ok:
  assumes "GenerateSSHKeypair cr name d w = (Inr (path, pub), w')"
  shows "\<exists>edp eds pem k m. ed25519_GenerateKey cr (tick w) = Some (edp, eds) \<and>
    ssh_MarshalPrivateKey cr eds = Some pem \<and> ssh_NewPublicKey cr edp = Some k \<and>
    path = Join [d, name] \<and> pub = trim_suffix (ssh_MarshalAuthorizedKey cr k) [nl] @ '' ubo-client'' \<and>
    w' = set_node (path @ ''.pub'') (Some (File (pub @ [nl]) m))
          (passed (set_node path (Some (File pem (mode_after w path 0x180))) (passed (passed w))))"
proof -
  obtain edp eds pem k w1 where k: "ed25519_GenerateKey cr (tick w) = Some (edp, eds)"
    "ssh_MarshalPrivateKey cr eds = Some pem" "ssh_NewPublicKey cr edp = Some k" "path = Join [d, name]"
    "pub = trim_suffix (ssh_MarshalAuthorizedKey cr k) [nl] @ '' ubo-client''"
    and w1: "os_WriteFile path pem 0x180 (passed w) = (Inr (), w1)"
    and w2: "os_WriteFile (path @ ''.pub'') (pub @ [nl]) 0x1A4 w1 = (Inr (), w')"
    using assms
    by (auto simp: GenerateSSHKeypair_def ed25519_key_def Let_def res_simps split: option.splits)
  from WriteFile_Inr [OF w2] WriteFile_Inr [OF w1]
  have "w' = set_node (path @ ''.pub'') (Some (File (pub @ [nl]) (mode_after w1 (path @ ''.pub'') 0x1A4)))
      (passed (set_node path (Some (File pem (mode_after w path 0x180))) (passed (passed w))))"
    by simp
  with k show ?thesis by blast
qed

section \<open>Generating again loads the same keys\<close>

text \<open>What \<open>loadExisting\<close> returns depends on the content of the six files.\<close>

definition keys_on_disk :: "world \<Rightarrow> string \<Rightarrow> Keys \<Rightarrow> bool" where
  "keys_on_disk w d ks \<longleftrightarrow>
     (\<exists>a b c e f.
        holds_data w (Join [d, ''server_wg_private.key'']) a \<and> ServerWGPrivate ks = trim_space a \<and>
        holds_data w (Join [d, ''server_wg_public.key'']) b \<and> ServerWGPublic ks = trim_space b \<and>
        holds_data w (Join [d, ''client_wg_private.key'']) c \<and> ClientWGPrivate ks = trim_space c \<and>
        holds_data w (Join [d, ''client_wg_public.key'']) e \<and> ClientWGPublic ks = trim_space e \<and>
        holds_data w (Join [d, ''client_auth_ed25519.pub'']) f \<and> ClientSSHPubKey ks = trim_space f \<and>
        (node_at w (Join [d, ''client_auth_ed25519'']) \<noteq> None \<or> is_dir w (Join [d, ''client_auth_ed25519''])) \<and>
        ClientSSHKeyPath ks = Join [d, ''client_auth_ed25519''])"

lemma ReadFile_holds: "healthy w \<Longrightarrow> holds_data w p data \<Longrightarrow> os_ReadFile p w = (Inr data, passed w)"
  by (auto simp: os_ReadFile_def holds_data_def healthy_next)

lemma passed_pow_simps [simp]:
  "healthy w \<Longrightarrow> healthy ((passed ^^ n) w)" "holds_data ((passed ^^ n) w) = holds_data w"
  "node_at ((passed ^^ n) w) p = node_at w p" "is_dir ((passed ^^ n) w) p = is_dir w p"
  by (induction n) simp_all

lemma loadExisting_disk:
  assumes "healthy w" "keys_on_disk w d ks"
  shows "loadExisting d w = (Inr ks, (passed ^^ 6) w)"
proof -
  have "os_Stat p v = (Inr (), passed v)" if "healthy v" "node_at v p \<noteq> None \<or> is_dir v p" for v p
    using that by (auto simp: os_Stat_def healthy_next)
  then show ?thesis
    using assms
    by (auto simp: keys_on_disk_def loadExisting_def key_files_def thenS_def wrapS_def Let_def
        ReadFile_holds numeral_eq_Suc)
qed

text \<open>What the code relies on in the cryptographic libraries.\<close>

definition crypto_ok :: "crypto \<Rightarrow> bool" where
  "crypto_ok cr \<longleftrightarrow>
     (\<forall>t k. rand_Read cr t = Some k \<longrightarrow> length k = 32) \<and>
     (\<forall>k q. X25519_Basepoint cr k = Some q \<longrightarrow> length q = 32) \<and>
     (\<forall>k. ssh_MarshalAuthorizedKey cr k \<noteq> [] \<and> plain (hd (ssh_MarshalAuthorizedKey cr k)))"

lemma trim_line: "s \<noteq> [] \<Longrightarrow> plain (hd s) \<Longrightarrow> plain (last s) \<Longrightarrow> trim_space (s @ [nl]) = s"
proof -
  assume s: "s \<noteq> []" "plain (hd s)" "plain (last s)"
  then have "space_at (s @ [nl]) = None" by (cases s) simp_all
  moreover have "trim_right (s @ [nl]) = trim_right s"
    by (rule trim_right_ascii) (simp add: ascii_spaces_def)
  moreover have "trimmed s" using s by (rule trimmed_plain)
  ultimately show ?thesis by (simp add: trim_space_def trim_left_id trimmed_def trim_right_id)
qed

lemma trim_b64_line: "bs \<noteq> [] \<Longrightarrow> trim_space (b64_encode bs @ [nl]) = b64_encode bs"
  using b64_encode_plain [of bs] by (intro trim_line) simp_all

lemma trim_ssh_line:
  assumes "s \<noteq> []" "plain (hd s)"
  shows "trim_space ((trim_suffix s [nl] @ '' ubo-client'') @ [nl]) = trim_suffix s [nl] @ '' ubo-client''"
proof (rule trim_line)
  obtain c r where s: "s = c # r" "plain c" using assms by (cases s) auto
  then have "c \<noteq> nl" using plain_not_eol by blast
  then have "trim_suffix s [nl] \<noteq> [] \<and> hd (trim_suffix s [nl]) = c"
    using s by (cases r rule: rev_cases) (auto simp: trim_suffix_def has_suffix_def)
  then show "plain (hd (trim_suffix s [nl] @ '' ubo-client''))" using s by simp
qed (simp_all add: plain_def ascii_spaces_def)

lemma clamp_Nil_iff: "length k = 32 \<Longrightarrow> clamp k \<noteq> []"
  by (metis length_clamp list.size(3) zero_neq_numeral)

lemma pair_on_disk:
  assumes "GenerateWireGuardKeypair cr name d w = (Inr (priv, pub), w')" "crypto_ok cr"
    "Clean (Join [d, name @ ''_private.key'']) \<noteq> Clean (Join [d, name @ ''_public.key''])"
  shows "holds_data w' (Join [d, name @ ''_private.key'']) (priv @ [nl]) \<and> trim_space (priv @ [nl]) = priv \<and>
    holds_data w' (Join [d, name @ ''_public.key'']) (pub @ [nl]) \<and> trim_space (pub @ [nl]) = pub \<and>
    (\<forall>q data. Clean q \<noteq> Clean (Join [d, name @ ''_private.key'']) \<longrightarrow>
       Clean q \<noteq> Clean (Join [d, name @ ''_public.key'']) \<longrightarrow> holds_data w' q data = holds_data w q data)"
proof -
  obtain k q m where k: "rand_Read cr (tick w) = Some k" "priv = b64_encode (clamp k)"
    "X25519_Basepoint cr (clamp k) = Some q" "pub = b64_encode q"
    and w': "w' = set_node (Join [d, name @ ''_public.key'']) (Some (File (pub @ [nl]) m))
      (passed (set_node (Join [d, name @ ''_private.key''])
        (Some (File (priv @ [nl]) (mode_after w (Join [d, name @ ''_private.key'']) 0x180))) (passed (passed w))))"
    using GenerateWireGuardKeypair_ok [OF assms(1)] by blast
  have "length k = 32" "length q = 32" using assms(2) k by (auto simp: crypto_ok_def)
  then have "clamp k \<noteq> []" "q \<noteq> []" using clamp_Nil_iff by auto
  then have "trim_space (priv @ [nl]) = priv" "trim_space (pub @ [nl]) = pub"
    using k by (simp_all add: trim_b64_line)
  then show ?thesis using assms(3) unfolding w' by (simp add: holds_data_set)
qed

lemma readTrimmedFiles_ok:
  "readTrimmedFiles d names w = (Inr vals, w') \<Longrightarrow>
     w' = (passed ^^ length names) w \<and>
     list_all2 (\<lambda>n v. \<exists>data. holds_data w (Join [d, n]) data \<and> v = trim_space data) names vals"
proof (induction names arbitrary: w vals w')
  case (Cons n ns)
  from Cons.prems obtain b vs where b: "os_ReadFile (Join [d, n]) w = (Inr b, passed w)"
    and vs: "readTrimmedFiles d ns (passed w) = (Inr vs, w')" "vals = trim_space b # vs"
    by (auto simp: res_simps) (metis ReadFile_world(1) snd_conv)
  from b have "holds_data w (Join [d, n]) b"
    by (auto simp: os_ReadFile_def holds_data_def split: if_splits option.splits node.splits)
  with Cons.IH [OF vs(1)] vs(2) show ?case by (auto simp: funpow_Suc_right simp del: funpow.simps)
qed simp

lemma key_paths_eq:
  "n \<in> set key_names \<Longrightarrow> m \<in> set key_names \<Longrightarrow>
     Clean (Join [d, n]) = Clean (Join [d, m]) \<longleftrightarrow> n = m"
  using key_paths_distinct by blast

lemma key_members:
  "''server_wg_private.key'' \<in> set key_names" "''server_wg_public.key'' \<in> set key_names"
  "''client_wg_private.key'' \<in> set key_names" "''client_wg_public.key'' \<in> set key_names"
  "''client_auth_ed25519.pub'' \<in> set key_names" "''client_auth_ed25519'' \<in> set key_names"
  by (simp_all add: key_names_def key_files_def)

lemmas key_path_simps = key_paths_eq [OF key_members(1)] key_paths_eq [OF key_members(2)]
  key_paths_eq [OF key_members(3)] key_paths_eq [OF key_members(4)] key_paths_eq [OF key_members(5)]
  key_paths_eq [OF key_members(6)]

lemma generateFresh_steps:
  assumes "generateFresh cr d w = (Inr ks, w')"
  obtains w1 w2 where
    "GenerateWireGuardKeypair cr ''server_wg'' d w = (Inr (ServerWGPrivate ks, ServerWGPublic ks), w1)"
    "GenerateWireGuardKeypair cr ''client_wg'' d w1 = (Inr (ClientWGPrivate ks, ClientWGPublic ks), w2)"
    "GenerateSSHKeypair cr ''client_auth_ed25519'' d w2 = (Inr (ClientSSHKeyPath ks, ClientSSHPubKey ks), w')"
  using assms unfolding generateFresh_def thenS_eq_Inr wrapS_eq_Inr
  by (elim exE conjE) (simp split: prod.splits add: thenS_eq_Inr wrapS_eq_Inr, fastforce)

lemma key_butlast:
  "''server_wg_private.key'' \<in> set (butlast key_files)" "''server_wg_public.key'' \<in> set (butlast key_files)"
  "''client_wg_private.key'' \<in> set (butlast key_files)" "''client_wg_public.key'' \<in> set (butlast key_files)"
  by (simp_all add: key_files_def)

lemma generateFresh_on_disk:
  assumes "generateFresh cr d w = (Inr ks, w')" "crypto_ok cr"
  shows "keys_on_disk w' d ks"
proof -
  obtain w1 w2 where
    g1: "GenerateWireGuardKeypair cr ''server_wg'' d w = (Inr (ServerWGPrivate ks, ServerWGPublic ks), w1)"
    and g2: "GenerateWireGuardKeypair cr ''client_wg'' d w1 = (Inr (ClientWGPrivate ks, ClientWGPublic ks), w2)"
    and g3: "GenerateSSHKeypair cr ''client_auth_ed25519'' d w2 = (Inr (ClientSSHKeyPath ks, ClientSSHPubKey ks), w')"
    by (rule generateFresh_steps [OF assms(1)])
  obtain pem k m m' where path: "ClientSSHKeyPath ks = Join [d, ''client_auth_ed25519'']"
    and pub: "ClientSSHPubKey ks = trim_suffix (ssh_MarshalAuthorizedKey cr k) [nl] @ '' ubo-client''"
    and w': "w' = set_node (ClientSSHKeyPath ks @ ''.pub'') (Some (File (ClientSSHPubKey ks @ [nl]) m))
      (passed (set_node (ClientSSHKeyPath ks) (Some (File pem m')) (passed (passed w2))))"
    using GenerateSSHKeypair_ok [OF g3] by blast
  have t: "trim_space (ClientSSHPubKey ks @ [nl]) = ClientSSHPubKey ks"
    unfolding pub using assms(2) by (intro trim_ssh_line) (simp_all add: crypto_ok_def)
  have ne: "Clean (Join [d, ''server_wg'' @ ''_private.key'']) \<noteq> Clean (Join [d, ''server_wg'' @ ''_public.key''])"
    "Clean (Join [d, ''client_wg'' @ ''_private.key'']) \<noteq> Clean (Join [d, ''client_wg'' @ ''_public.key''])"
    by (simp_all add: key_path_simps key_members)
  note p1 = pair_on_disk [OF g1 assms(2) ne(1)] and p2 = pair_on_disk [OF g2 assms(2) ne(2)]
  have s1: "holds_data w1 (Join [d, ''server_wg_private.key'']) (ServerWGPrivate ks @ [nl])"
    "holds_data w1 (Join [d, ''server_wg_public.key'']) (ServerWGPublic ks @ [nl])"
    "trim_space (ServerWGPrivate ks @ [nl]) = ServerWGPrivate ks"
    "trim_space (ServerWGPublic ks @ [nl]) = ServerWGPublic ks"
    using p1 by simp_all
  have s2: "holds_data w2 (Join [d, ''client_wg_private.key'']) (ClientWGPrivate ks @ [nl])"
    "holds_data w2 (Join [d, ''client_wg_public.key'']) (ClientWGPublic ks @ [nl])"
    "trim_space (ClientWGPrivate ks @ [nl]) = ClientWGPrivate ks"
    "trim_space (ClientWGPublic ks @ [nl]) = ClientWGPublic ks"
    using p2 by simp_all
  have "holds_data w2 (Join [d, n]) x = holds_data w1 (Join [d, n]) x"
    if "n \<in> {''server_wg_private.key'', ''server_wg_public.key''}" for n x
    using p2 that key_path_simps key_members by auto
  then have s3: "holds_data w2 (Join [d, ''server_wg_private.key'']) (ServerWGPrivate ks @ [nl])"
    "holds_data w2 (Join [d, ''server_wg_public.key'']) (ServerWGPublic ks @ [nl])"
    using s1 by simp_all
  have disk: "holds_data w' (Join [d, n]) x \<longleftrightarrow> holds_data w2 (Join [d, n]) x"
    if "n \<in> set (butlast key_files)" for n x
  proof -
    have "n \<in> set key_names" "n \<noteq> ''client_auth_ed25519''" "n \<noteq> ''client_auth_ed25519.pub''"
      using that by (auto simp: key_names_def key_files_def)
    then show ?thesis
      unfolding w' path Join_pub
      by (simp add: holds_data_set key_paths_eq key_members)
  qed
  have "node_at w' (Join [d, ''client_auth_ed25519'']) \<noteq> None"
    "holds_data w' (Join [d, ''client_auth_ed25519.pub'']) (ClientSSHPubKey ks @ [nl])"
    unfolding w' path Join_pub by (simp_all add: holds_data_set node_at_set_node)
  then show ?thesis
    unfolding keys_on_disk_def path
    using disk s1(3,4) s2 s3 t by (metis (no_types, lifting) key_butlast)
qed

lemma loadExisting_ok:
  assumes "loadExisting d w = (Inr ks, w')"
  shows "keys_on_disk w d ks \<and> w' = (passed ^^ 6) w"
proof -
  obtain vals w1 where vals: "readTrimmedFiles d key_files w = (Inr vals, w1)"
    and stat: "os_Stat (Join [d, ''client_auth_ed25519'']) w1 = (Inr (), w')"
    and ks: "ks = \<lparr>ServerWGPrivate = vals ! 0, ServerWGPublic = vals ! 1, ClientWGPrivate = vals ! 2,
            ClientWGPublic = vals ! 3, ClientSSHKeyPath = Join [d, ''client_auth_ed25519''],
            ClientSSHPubKey = vals ! 4\<rparr>"
    using assms by (auto simp: loadExisting_def Let_def res_simps)
  have "length key_files = 5" by (simp add: key_files_def)
  with readTrimmedFiles_ok [OF vals] have w1: "w1 = (passed ^^ 5) w"
    and l: "list_all2 (\<lambda>n v. \<exists>data. holds_data w (Join [d, n]) data \<and> v = trim_space data) key_files vals"
    by auto
  from stat have w': "w' = passed w1" by (metis ReadFile_world(2) snd_conv)
  from stat have "node_at w (Join [d, ''client_auth_ed25519'']) \<noteq> None \<or> is_dir w (Join [d, ''client_auth_ed25519''])"
    unfolding w1 by (auto simp: os_Stat_def split: if_splits)
  with l have "keys_on_disk w d ks"
    unfolding ks keys_on_disk_def key_files_def
    by (fastforce simp: list_all2_Cons1)
  moreover have "passed ((passed ^^ 5) w) = (passed ^^ 6) w" by (simp add: numeral_eq_Suc)
  ultimately show ?thesis unfolding w' w1 by simp
qed

lemma keys_on_disk_passed: "keys_on_disk ((passed ^^ n) w) d ks = keys_on_disk w d ks"
  by (simp add: keys_on_disk_def)

lemma GenerateAll_on_disk:
  assumes "GenerateAll cr d w = (Inr ks, w')" "crypto_ok cr"
  shows "keys_on_disk w' d ks"
proof -
  obtain r w1 where l: "loadExisting d w = (r, w1)" by fastforce
  show ?thesis
  proof (cases r)
    case (Inl e)
    with l assms(1) have "generateFresh cr d w1 = (Inr ks, w')" by (simp add: GenerateAll_def)
    then show ?thesis using assms(2) by (rule generateFresh_on_disk)
  next
    case (Inr ks')
    with l assms(1) have "loadExisting d w = (Inr ks, w')" by (simp add: GenerateAll_def)
    from loadExisting_ok [OF this] show ?thesis using keys_on_disk_passed [of 6] by simp
  qed
qed

lemma GenerateAll_reuses:
  "healthy w \<Longrightarrow> keys_on_disk w d ks \<Longrightarrow> GenerateAll cr d w = (Inr ks, (passed ^^ 6) w)"
  by (simp add: GenerateAll_def loadExisting_disk)

section \<open>Where private keys end up\<close>

text \<open>
  A new private key file is for the owner only; a file that was there before keeps its mode.
\<close>

lemma private_key_mode:
  assumes "GenerateWireGuardKeypair cr name d w = (Inr (priv, pub), w')"
    "Clean (Join [d, name @ ''_private.key'']) \<noteq> Clean (Join [d, name @ ''_public.key''])"
  shows "node_at w' (Join [d, name @ ''_private.key'']) =
    Some (File (priv @ [nl]) (mode_after w (Join [d, name @ ''_private.key'']) 0x180))"
  using GenerateWireGuardKeypair_ok [OF assms(1)] assms(2) by auto

text \<open>
  When generation fails after the private key was written, the file is removed, unless the
  system refuses the removal itself.
\<close>

lemma rm_removes: "next_fault w = NoFault \<Longrightarrow> node_at (rm p w) p = None"
  by (simp add: rm_def os_Remove_def split: option.split)

lemma tick_rm [simp]: "tick (rm p w) = Suc (tick w)" "faults (rm p w) = faults w"
  by (simp_all add: rm_def os_Remove_def split: option.split)

lemma failed_pair_removed:
  assumes "GenerateWireGuardKeypair cr name d w = (Inl e, w')"
    "e \<noteq> KeyRandom" "\<And>err. e \<noteq> KeyWrite (Join [d, name @ ''_private.key'']) err"
    "Clean (Join [d, name @ ''_private.key'']) \<noteq> Clean (Join [d, name @ ''_public.key''])"
    "faults w' (tick w' - 1) = NoFault"
  shows "node_at w' (Join [d, name @ ''_private.key'']) = None"
proof -
  obtain w1 where "w' = rm (Join [d, name @ ''_private.key'']) w1"
    using assms(1-3)
    by (auto simp: GenerateWireGuardKeypair_def generateWGPrivateKey_def Let_def thenS_eq_Inl wrapS_eq_Inl
        wrapS_eq_Inr undoS_eq_Inl split: option.splits)
  then show ?thesis using assms(5) by (simp add: rm_removes next_fault_def)
qed

text \<open>The private keys of a fresh generation are clamped scalars that decode to 32 bytes.\<close>

lemma generated_private:
  assumes "GenerateWireGuardKeypair cr name d w = (Inr (priv, pub), w')" "crypto_ok cr"
  shows "\<exists>k. b64_decode priv = Some (clamp k) \<and> length (clamp k) = 32 \<and>
    map_option b64_encode (X25519_Basepoint cr (clamp k)) = Some pub"
  using GenerateWireGuardKeypair_ok [OF assms(1)] assms(2) by (auto simp: crypto_ok_def)

section \<open>Properties\<close>

text \<open>Libraries of which only what the code relies on is true.\<close>

definition sample_crypto :: crypto where
  "sample_crypto =
     \<lparr>rand_Read = (\<lambda>t. Some (replicate 32 (of_nat t))), X25519_Basepoint = (\<lambda>k. Some (rev (take 32 (k @ replicate 32 0)))),
      ed25519_GenerateKey = (\<lambda>t. Some ([1], [2])), ssh_MarshalPrivateKey = (\<lambda>k. Some ''pem''),
      ssh_NewPublicKey = Some, ssh_MarshalAuthorizedKey = (\<lambda>k. ''ssh-ed25519 AAAA'' @ [nl])\<rparr>"

lemma sample_crypto_ok: "crypto_ok sample_crypto"
  by (auto simp: crypto_ok_def sample_crypto_def plain_def ascii_spaces_def)

text \<open>C20: Generating keys again in the same directory reuses them: after any successful
  \<open>GenerateAll\<close>, fresh or not, and while reads do not fail, \<open>GenerateAll\<close> returns the same keys
  and leaves every file as it is.\<close>

theorem GenerateAll_idempotent:
  assumes "GenerateAll cr d w = (Inr ks, w1)" "crypto_ok cr" "healthy w1"
    "GenerateAll cr d w1 = (r, w2)"
  shows "r = Inr ks \<and> (\<forall>p. node_at w2 p = node_at w1 p)"
  using GenerateAll_reuses [OF assms(3) GenerateAll_on_disk [OF assms(1,2)], of cr] assms(4) by auto

text \<open>The working directory with the six files.\<close>

definition sample_disk :: world where
  "sample_disk =
     fold (\<lambda>n. set_node (Join [''.'', n]) (Some (File (n @ [nl]) 0x180))) key_names clean_world"

definition sample_keys :: Keys where
  "sample_keys =
     \<lparr>ServerWGPrivate = trim_space (''server_wg_private.key'' @ [nl]), ServerWGPublic = trim_space (''server_wg_public.key'' @ [nl]),
      ClientWGPrivate = trim_space (''client_wg_private.key'' @ [nl]), ClientWGPublic = trim_space (''client_wg_public.key'' @ [nl]),
      ClientSSHKeyPath = Join [''.'', ''client_auth_ed25519''],
      ClientSSHPubKey = trim_space (''client_auth_ed25519.pub'' @ [nl])\<rparr>"

lemma sample_on_disk: "healthy sample_disk" "keys_on_disk sample_disk ''.'' sample_keys"
proof -
  show "healthy sample_disk" by (simp add: sample_disk_def key_names_def key_files_def)
  have "list_all (\<lambda>n. holds_data sample_disk (Join [''.'', n]) (n @ [nl])) key_names"
    unfolding sample_disk_def key_names_def key_files_def
    by (simp add: holds_data_set key_path_simps key_members)
  then have "holds_data sample_disk (Join [''.'', n]) (n @ [nl])" if "n \<in> set key_names" for n
    using that by (simp add: list_all_iff)
  moreover from this have "node_at sample_disk (Join [''.'', ''client_auth_ed25519'']) \<noteq> None"
    using key_members(6) unfolding holds_data_def by fastforce
  ultimately show "keys_on_disk sample_disk ''.'' sample_keys"
    unfolding keys_on_disk_def sample_keys_def Keys.simps using key_members by blast
qed

lemma GenerateAll_idempotent_witness:
  "fst (GenerateAll sample_crypto ''.'' ((passed ^^ 6) sample_disk)) = Inr sample_keys"
proof -
  have "GenerateAll sample_crypto ''.'' sample_disk = (Inr sample_keys, (passed ^^ 6) sample_disk)"
    by (rule GenerateAll_reuses) (rule sample_on_disk)+
  from GenerateAll_idempotent [OF this sample_crypto_ok] show ?thesis
    using sample_on_disk(1) by (metis passed_pow_simps(1) prod.collapse)
qed

text \<open>C37: The private key that is written and returned is the 32 random bytes with the bits that
  Curve25519 asks for set and cleared and no other bit changed, in base64; the public key is
  derived from exactly that key.\<close>

theorem generated_key_clamped:
  assumes "GenerateWireGuardKeypair cr name d w = (Inr (priv, pub), w')" "crypto_ok cr"
  shows "\<exists>k s. rand_Read cr (tick w) = Some k \<and> b64_decode priv = Some s \<and> length s = 32 \<and>
    s ! 0 AND 7 = 0 \<and> bit (s ! 31) 6 \<and> \<not> bit (s ! 31) 7 \<and> s ! 0 AND 248 = k ! 0 AND 248 \<and>
    s ! 31 AND 63 = k ! 31 AND 63 \<and> take 30 (tl s) = take 30 (tl k) \<and>
    map_option b64_encode (X25519_Basepoint cr s) = Some pub"
proof -
  obtain k where k: "rand_Read cr (tick w) = Some k" "b64_decode priv = Some (clamp k)"
    "map_option b64_encode (X25519_Basepoint cr (clamp k)) = Some pub"
    using GenerateWireGuardKeypair_ok [OF assms(1)] by auto
  then have len: "length k = 32" using assms(2) by (simp add: crypto_ok_def)
  have "(x AND 248) AND 248 = x AND (248 :: byte)" for x by (simp add: and.assoc)
  then have "clamp k ! 0 AND 248 = k ! 0 AND 248" using len by (simp add: clamp_def Let_def)
  moreover have "((x AND 127) OR 64) AND 63 = x AND (63 :: byte)" for x
    by (simp add: bit.conj_disj_distrib2 and.assoc)
  then have "clamp k ! 31 AND 63 = k ! 31 AND 63" using len by (simp add: clamp_def Let_def)
  moreover have "take 30 (tl (clamp k)) = take 30 (tl k)"
    using len clamp_bits(4) [OF len] by (intro nth_equalityI) (simp_all add: nth_tl)
  ultimately show ?thesis
    using k len clamp_bits(1-3) [OF len] by (intro exI [of _ k] exI [of _ "clamp k"]) simp
qed

lemma sample_pair:
  "\<exists>p w'. GenerateWireGuardKeypair sample_crypto ''server_wg'' [] clean_world = (Inr p, w')"
proof -
  have n: "file_name ''server_wg_private.key''" "file_name ''server_wg_public.key''" by code_simp+
  have d: "Clean (Dir ''server_wg_private.key'') = ''.''" "Clean (Dir ''server_wg_public.key'') = ''.''"
    "always_there ''.''" by code_simp+
  have nd: "\<not> always_there ''server_wg_private.key''" "\<not> always_there ''server_wg_public.key''"
    by code_simp+
  show ?thesis
    by (simp add: GenerateWireGuardKeypair_def generateWGPrivateKey_def deriveWGPublicKey_def thenS_def
        wrapS_def undoS_def Let_def Join_dir_name n sample_crypto_def os_WriteFile_def next_fault_def
        written_part_def is_dir_def Clean_name node_at_set_node passed_def set_node_def node_at_def
        clean_world_def d nd)
qed

lemma generated_key_clamped_witness:
  "\<exists>priv pub w' s. GenerateWireGuardKeypair sample_crypto ''server_wg'' [] clean_world = (Inr (priv, pub), w') \<and>
     b64_decode priv = Some s \<and> bit (s ! 31) 6"
proof -
  obtain priv pub w' where g: "GenerateWireGuardKeypair sample_crypto ''server_wg'' [] clean_world = (Inr (priv, pub), w')"
    using sample_pair by fast
  from generated_key_clamped [OF g sample_crypto_ok] g show ?thesis by blast
qed

text \<open>C38: A private key is never left behind by a generation that fails after it was written: the
  file is gone, unless the system refuses to remove it.\<close>

theorem failed_generation_removes_key:
  assumes "GenerateWireGuardKeypair cr name d w = (Inl e, w')" "name = ''server_wg'' \<or> name = ''client_wg''"
    "e \<noteq> KeyRandom" "\<And>err. e \<noteq> KeyWrite (Join [d, name @ ''_private.key'']) err"
    "faults w' (tick w' - 1) = NoFault"
  shows "node_at w' (Join [d, name @ ''_private.key'']) = None"
proof -
  have "Clean (Join [d, name @ ''_private.key'']) \<noteq> Clean (Join [d, name @ ''_public.key''])"
    using assms(2) by (auto simp: key_path_simps key_members)
  with assms show ?thesis by (intro failed_pair_removed)
qed

lemma failed_generation_removes_key_witness:
  "\<exists>w'. GenerateWireGuardKeypair (sample_crypto\<lparr>X25519_Basepoint := \<lambda>_. None\<rparr>) ''server_wg'' [] clean_world
     = (Inl KeyDerive, w') \<and> node_at w' ''server_wg_private.key'' = None"
proof -
  let ?cr = "sample_crypto\<lparr>X25519_Basepoint := \<lambda>_. None\<rparr>"
  have n: "file_name ''server_wg_private.key''" "file_name ''server_wg_public.key''" by code_simp+
  have d: "Clean (Dir ''server_wg_private.key'') = ''.''" "always_there ''.''"
    "\<not> always_there ''server_wg_private.key''" by code_simp+
  have w1: "os_WriteFile ''server_wg_private.key'' x 0x180 (passed clean_world) =
      (Inr (), set_node ''server_wg_private.key'' (Some (File x 0x180)) (passed (passed clean_world)))" for x
    by (simp add: os_WriteFile_def Let_def written_part_def is_dir_def Clean_name n next_fault_def d)
  have g: "GenerateWireGuardKeypair ?cr ''server_wg'' [] clean_world = (Inl KeyDerive,
      rm ''server_wg_private.key'' (set_node ''server_wg_private.key''
        (Some (File (b64_encode (clamp (replicate 32 0)) @ [nl]) 0x180)) (passed (passed clean_world))))"
    by (simp add: GenerateWireGuardKeypair_def generateWGPrivateKey_def deriveWGPublicKey_def thenS_def
        wrapS_def undoS_def Let_def Join_dir_name n w1 sample_crypto_def)
  have "Join [[], ''server_wg'' @ ''_private.key''] = ''server_wg_private.key''"
    by (simp add: Join_dir_name n)
  with failed_generation_removes_key [OF g] g show ?thesis by simp
qed

text \<open>The private key file has mode 0600 when it is new; a file that was there before keeps
  its mode, whatever that is.\<close>

lemma private_key_file_mode:
  assumes "GenerateWireGuardKeypair cr name d w = (Inr (priv, pub), w')"
    "name = ''server_wg'' \<or> name = ''client_wg''"
  shows "node_at w' (Join [d, name @ ''_private.key'']) =
    Some (File (priv @ [nl])
      (case node_at w (Join [d, name @ ''_private.key'']) of Some (File old m) \<Rightarrow> m | _ \<Rightarrow> 0x180))"
proof -
  have "Clean (Join [d, name @ ''_private.key'']) \<noteq> Clean (Join [d, name @ ''_public.key''])"
    using assms(2) by (auto simp: key_path_simps key_members)
  from private_key_mode [OF assms(1) this] show ?thesis by (simp add: mode_after_def)
qed

lemma private_key_file_mode_witness:
  "\<exists>priv pub w'. GenerateWireGuardKeypair sample_crypto ''server_wg'' [] clean_world = (Inr (priv, pub), w') \<and>
     node_at w' (Join [[], ''server_wg'' @ ''_private.key'']) = Some (File (priv @ [nl]) 0x180)"
proof -
  obtain priv pub w' where g: "GenerateWireGuardKeypair sample_crypto ''server_wg'' [] clean_world = (Inr (priv, pub), w')"
    using sample_pair by fast
  from private_key_file_mode [OF g] g show ?thesis by simp
qed

end
