(* ===== verification/Go_JSON.thy ===== *)
theory Go_JSON
  imports Go_Net
begin

text \<open>
  \<open>encoding/json\<close> as far as the setup uses it: \<open>json.Unmarshal\<close> of an object into a struct with one
  string field. The whole text must be valid JSON; the field is set by every member whose name
  is the field's, or folds to it, the last one winning; \<open>null\<close> leaves it; any other value is an
  error.
\<close>

section \<open>Strings\<close>

definition codepoint :: "char \<Rightarrow> nat" where "codepoint c = of_char c"

text \<open>The replacement character, and the encoding of a rune.\<close>

definition utf8_bad :: string where "utf8_bad = [CHR 0xEF, CHR 0xBF, CHR 0xBD]"

definition utf8_encode :: "nat \<Rightarrow> string" where
  "utf8_encode v =
     map char_of
       (if v < 0x80 then [v]
        else if v < 0x800 then [0xC0 + v div 64, 0x80 + v mod 64]
        else if v < 0x10000 then [0xE0 + v div 4096, 0x80 + v div 64 mod 64, 0x80 + v mod 64]
        else [0xF0 + v div 262144, 0x80 + v div 4096 mod 64, 0x80 + v div 64 mod 64, 0x80 + v mod 64])"

text \<open>The length of the rune a string starts with, 0 if its first byte does not start a valid one.\<close>

definition cont :: "nat \<Rightarrow> nat \<Rightarrow> char \<Rightarrow> bool" where
  "cont lo hi c \<longleftrightarrow> lo \<le> codepoint c \<and> codepoint c \<le> hi"

definition utf8_len :: "string \<Rightarrow> nat" where
  "utf8_len s =
     (case s of
        [] \<Rightarrow> 0
      | c # r \<Rightarrow>
          let n = codepoint c;
              lo = (if n = 0xE0 then 0xA0 else if n = 0xF0 then 0x90 else 0x80);
              hi = (if n = 0xED then 0x9F else if n = 0xF4 then 0x8F else 0xBF);
              k = (if n < 0x80 then 1 else if n < 0xC2 then 0 else if n < 0xE0 then 2
                   else if n < 0xF0 then 3 else if n < 0xF5 then 4 else 0)
          in if k \<le> 1 then k
             else if length r < k - 1 then 0
             else if cont lo hi (hd r) \<and> list_all (cont 0x80 0xBF) (take (k - 2) (tl r)) then k else 0)"

definition hex4 :: "string \<Rightarrow> (nat \<times> string) option" where
  "hex4 s =
     (case s of
        a # b # c # d # r \<Rightarrow>
          (case (hex_val a, hex_val b, hex_val c, hex_val d) of
             (Some w, Some x, Some y, Some z) \<Rightarrow> Some (((w * 16 + x) * 16 + y) * 16 + z, r)
           | _ \<Rightarrow> None)
      | _ \<Rightarrow> None)"

text \<open>The second half of a surrogate pair, written as another escape.\<close>

definition low_surrogate :: "string \<Rightarrow> (nat \<times> string) option" where
  "low_surrogate s =
     (case s of
        a # b # r \<Rightarrow> if a = bslash \<and> b = CHR ''u'' then hex4 r else None
      | _ \<Rightarrow> None)"

text \<open>An escape, given the text after the backslash: what it stands for, and the rest.\<close>

definition jescape :: "string \<Rightarrow> (string \<times> string) option" where
  "jescape s =
     (case s of
        [] \<Rightarrow> None
      | c # r \<Rightarrow>
          if c = dq \<or> c = bslash \<or> c = CHR ''/'' then Some ([c], r)
          else if c = CHR ''b'' then Some ([CHR 0x08], r)
          else if c = CHR ''f'' then Some ([CHR 0x0C], r)
          else if c = CHR ''n'' then Some ([CHR 0x0A], r)
          else if c = CHR ''r'' then Some ([CHR 0x0D], r)
          else if c = CHR ''t'' then Some ([CHR 0x09], r)
          else if c = CHR ''u'' then
            (case hex4 r of
               None \<Rightarrow> None
             | Some (v, r1) \<Rightarrow>
                 if v < 0xD800 \<or> 0xE000 \<le> v then Some (utf8_encode v, r1)
                 else (case low_surrogate r1 of
                         None \<Rightarrow> Some (utf8_bad, r1)
                       | Some (v2, r2) \<Rightarrow>
                           if v < 0xDC00 \<and> 0xDC00 \<le> v2 \<and> v2 < 0xE000
                           then Some (utf8_encode (0x10000 + (v - 0xD800) * 1024 + (v2 - 0xDC00)), r2)
                           else Some (utf8_bad, r1)))
          else None)"

lemma hex4_shorter: "hex4 s = Some (v, r) \<Longrightarrow> length r < length s"
  by (auto simp: hex4_def split: list.splits option.splits)

lemma low_surrogate_shorter: "low_surrogate s = Some (v, r) \<Longrightarrow> length r < length s"
  by (auto simp: low_surrogate_def dest: hex4_shorter split: list.splits if_splits)

lemma jescape_shorter: "jescape s = Some (t, r) \<Longrightarrow> length r < length s"
  by (auto simp: jescape_def dest!: hex4_shorter low_surrogate_shorter
      split: list.splits if_splits option.splits)

text \<open>The text after an opening quote.\<close>

function jstring :: "string \<Rightarrow> string \<Rightarrow> (string \<times> string) option" where
  "jstring b [] = None"
| "jstring b (c # r) =
     (if c = dq then Some (b, r)
      else if c = bslash then
        (case jescape r of None \<Rightarrow> None | Some (t, r') \<Rightarrow> jstring (b @ t) r')
      else if codepoint c < 0x20 then None
      else let n = utf8_len (c # r)
           in if n = 0 then jstring (b @ utf8_bad) r
              else jstring (b @ take n (c # r)) (drop n (c # r)))"
  by pat_completeness auto
termination
  by (relation "measure (\<lambda>(b, s). length s)") (auto dest: jescape_shorter)

declare jstring.simps [simp del]

section \<open>Values\<close>

datatype json = JNull | JBool bool | JNum | JStr string | JArr "json list" | JObj "(string \<times> json) list"

definition skip_ws :: "string \<Rightarrow> string" where
  "skip_ws s = dropWhile (\<lambda>c. c = CHR '' '' \<or> c = tab \<or> c = nl \<or> c = CHR 0x0D) s"

text \<open>The rest after a number: sign, integer part without leading zeros, fraction, exponent.\<close>

definition digits1 :: "string \<Rightarrow> string option" where
  "digits1 s = (if takeWhile is_digit s = [] then None else Some (dropWhile is_digit s))"

definition jnumber :: "string \<Rightarrow> string option" where
  "jnumber s =
     (let s1 = (if has_prefix s ''-'' then tl s else s);
          int_part = (if has_prefix s1 ''0'' then Some (tl s1) else digits1 s1);
          frac = (\<lambda>r. if has_prefix r ''.'' then digits1 (tl r) else Some r);
          expo = (\<lambda>r. if has_prefix r ''e'' \<or> has_prefix r ''E'' then
                        digits1 (if has_prefix (tl r) ''+'' \<or> has_prefix (tl r) ''-'' then tl (tl r) else tl r)
                      else Some r)
      in Option.bind (Option.bind int_part frac) expo)"

definition max_depth :: nat where "max_depth = 10000"

text \<open>
  The fuel bounds the number of calls; the length of the text is enough, since every call
  consumes a byte or is followed by one that does. \<open>d\<close> counts the open brackets.
\<close>

fun jvalue :: "nat \<Rightarrow> nat \<Rightarrow> string \<Rightarrow> (json \<times> string) option"
  and jmembers :: "nat \<Rightarrow> nat \<Rightarrow> (string \<times> json) list \<Rightarrow> string \<Rightarrow> (json \<times> string) option"
  and jelems :: "nat \<Rightarrow> nat \<Rightarrow> json list \<Rightarrow> string \<Rightarrow> (json \<times> string) option" where
  "jvalue 0 d s = None"
| "jvalue (Suc f) d s =
     (case skip_ws s of
        [] \<Rightarrow> None
      | c # r \<Rightarrow>
          if c = CHR ''{'' then
            (if max_depth \<le> d then None
             else if has_prefix (skip_ws r) ''}'' then Some (JObj [], tl (skip_ws r))
             else jmembers f (Suc d) [] r)
          else if c = CHR ''['' then
            (if max_depth \<le> d then None
             else if has_prefix (skip_ws r) '']'' then Some (JArr [], tl (skip_ws r))
             else jelems f (Suc d) [] r)
          else if c = dq then map_option (\<lambda>(t, r'). (JStr t, r')) (jstring [] r)
          else if has_prefix (c # r) ''true'' then Some (JBool True, drop 4 (c # r))
          else if has_prefix (c # r) ''false'' then Some (JBool False, drop 5 (c # r))
          else if has_prefix (c # r) ''null'' then Some (JNull, drop 4 (c # r))
          else map_option (\<lambda>r'. (JNum, r')) (jnumber (c # r)))"
| "jmembers 0 d ms s = None"
| "jmembers (Suc f) d ms s =
     (if \<not> has_prefix (skip_ws s) [dq] then None
      else case jstring [] (tl (skip_ws s)) of
             None \<Rightarrow> None
           | Some (k, r) \<Rightarrow>
               if \<not> has_prefix (skip_ws r) '':'' then None
               else case jvalue f d (tl (skip_ws r)) of
                      None \<Rightarrow> None
                    | Some (v, r') \<Rightarrow>
                        if has_prefix (skip_ws r') '','' then jmembers f d (ms @ [(k, v)]) (tl (skip_ws r'))
                        else if has_prefix (skip_ws r') ''}'' then Some (JObj (ms @ [(k, v)]), tl (skip_ws r'))
                        else None)"
| "jelems 0 d vs s = None"
| "jelems (Suc f) d vs s =
     (case jvalue f d s of
        None \<Rightarrow> None
      | Some (v, r') \<Rightarrow>
          if has_prefix (skip_ws r') '','' then jelems f d (vs @ [v]) (tl (skip_ws r'))
          else if has_prefix (skip_ws r') '']'' then Some (JArr (vs @ [v]), tl (skip_ws r'))
          else None)"

definition jparse :: "string \<Rightarrow> json option" where
  "jparse s =
     (case jvalue (2 * length s + 2) 0 s of
        None \<Rightarrow> None
      | Some (v, r) \<Rightarrow> if skip_ws r = [] then Some v else None)"

section \<open>Unmarshalling into a struct with one string field\<close>

text \<open>Folding of names: ASCII case, the Kelvin sign and the long s.\<close>

fun fold_name :: "string \<Rightarrow> string" where
  "fold_name [] = []"
| "fold_name (c # s) =
     (if c = CHR 0xE2 \<and> has_prefix s [CHR 0x84, CHR 0xAA] then CHR ''k'' # fold_name (drop 2 s)
      else if c = CHR 0xC5 \<and> has_prefix s [CHR 0xBF] then CHR ''s'' # fold_name (drop 1 s)
      else lower_char c # fold_name s)"

definition set_member :: "string \<Rightarrow> string \<times> json \<Rightarrow> string option \<Rightarrow> string option" where
  "set_member name m acc =
     (let (k, v) = m
      in if fold_name k \<noteq> fold_name name then acc
         else case v of JStr t \<Rightarrow> map_option (\<lambda>_. t) acc | JNull \<Rightarrow> acc | _ \<Rightarrow> None)"

text \<open>The field's value afterwards, \<open>None\<close> for an error.\<close>

definition unmarshal_field :: "string \<Rightarrow> string \<Rightarrow> string option" where
  "unmarshal_field name s =
     (case jparse s of
        Some (JObj ms) \<Rightarrow> fold (set_member name) ms (Some [])
      | Some JNull \<Rightarrow> Some []
      | _ \<Rightarrow> None)"

section \<open>Printing and reading one member\<close>

text \<open>A string JSON writes without escapes: printable ASCII but the quote and the backslash.\<close>

definition json_plain :: "string \<Rightarrow> bool" where
  "json_plain s \<longleftrightarrow> list_all (\<lambda>c. 0x20 \<le> codepoint c \<and> codepoint c < 0x80 \<and> c \<noteq> dq \<and> c \<noteq> bslash) s"

lemma jstring_plain: "json_plain s \<Longrightarrow> jstring b (s @ dq # r) = Some (b @ s, r)"
proof (induction s arbitrary: b)
  case Nil
  then show ?case by (simp add: jstring.simps)
next
  case (Cons c s)
  then have c: "0x20 \<le> codepoint c" "codepoint c < 0x80" "c \<noteq> dq" "c \<noteq> bslash" "json_plain s"
    by (simp_all add: json_plain_def)
  then have "utf8_len (c # s @ dq # r) = 1" by (simp add: utf8_len_def Let_def)
  with c Cons.IH [of "b @ [c]"] show ?case by (simp add: jstring.simps)
qed

definition json_member :: "string \<Rightarrow> string \<Rightarrow> string" where
  "json_member k v = ''{'' @ [dq] @ k @ [dq] @ '':'' @ [dq] @ v @ [dq] @ ''}''"

lemma skip_ws_code [simp]:
  "skip_ws [] = []"
  "skip_ws (c # s) = (if c = CHR '' '' \<or> c = tab \<or> c = nl \<or> c = CHR 0x0D then skip_ws s else c # s)"
  by (simp_all add: skip_ws_def)

lemma jparse_member:
  assumes "json_plain k" "json_plain v"
  shows "jparse (json_member k v) = Some (JObj [(k, JStr v)])"
proof -
  have f: "\<exists>f. 2 * length (json_member k v) + 2 = Suc (Suc (Suc f))"
    by (intro exI [of _ "2 * length (json_member k v) - 1"]) (simp add: json_member_def)
  then obtain f where f: "2 * length (json_member k v) + 2 = Suc (Suc (Suc f))" by blast
  have k: "jstring [] (k @ dq # CHR '':'' # dq # v @ [dq, CHR ''}'']) = Some (k, CHR '':'' # dq # v @ [dq, CHR ''}''])"
    using jstring_plain [OF assms(1)] by simp
  have v: "jstring [] (v @ [dq, CHR ''}'']) = Some (v, ''}'')"
    using jstring_plain [OF assms(2), of "[]" "''}''"] by simp
  show ?thesis
    unfolding jparse_def f by (simp add: json_member_def max_depth_def str_simps k v)
qed

lemma unmarshal_member:
  "json_plain k \<Longrightarrow> json_plain v \<Longrightarrow> unmarshal_field k (json_member k v) = Some v"
  by (simp add: unmarshal_field_def jparse_member set_member_def)

end
