(* ===== verification/Setup.thy ===== *)
theory Setup
  imports Grub Templates Keygen Go_JSON
begin

text \<open>
  The setup of the remote host, \<open>internal/setup/setup.go\<close>: the script's data from the detected
  network, the run of the script, and its result. What is printed for the user is left out.
\<close>

section \<open>The data of the scripts\<close>

datatype net_field_error = BadIP string | BadGateway string | BadHostname string

datatype setup_error =
    DetectFailed detect_error
  | RenderWGFailed ini_error
  | RenderInitFailed render_error
  | RenderDropbearFailed render_error
  | NetFieldFailed net_field_error
  | SetupPanic
  | RenderSetupFailed render_error
  | UploadFailed remote_error
  | ScriptFailed remote_error
  | NoJSON string
  | BadJSON string
  | MissingPubKey string
  | SaveKeyFailed os_error

definition renderWGConfig :: "config \<Rightarrow> Keys \<Rightarrow> ini_error + string" where
  "renderWGConfig cfg keys =
     server_MarshalINI
       \<lparr>ws_Address = wg_ServerIP (WireGuard cfg), ws_PrivateKey = ServerWGPrivate keys,
        ws_ListenPort = wg_Port (WireGuard cfg), ws_PeerPublicKey = ClientWGPublic keys,
        ws_PeerAllowedIPs = WGClientTunnelIP cfg @ ''/32''\<rparr>"

definition validateGrubNetFields :: "NetworkInfo \<Rightarrow> net_field_error + unit" where
  "validateGrubNetFields info =
     (if ParseIP (ni_IP info) = None then Inl (BadIP (ni_IP info))
      else if ParseIP (ni_Gateway info) = None then Inl (BadGateway (ni_Gateway info))
      else if \<not> isValidHostname (ni_Hostname info) then Inl (BadHostname (ni_Hostname info))
      else Inr ())"

text \<open>The interface of the boot script, of the kernel parameter and of the driver detection.\<close>

definition initramfsIface :: "NetworkInfo \<Rightarrow> string" where
  "initramfsIface info = (case ni_BridgePorts info of [] \<Rightarrow> ni_Interface info | p # ps \<Rightarrow> p)"

definition grubIface :: "NetworkInfo \<Rightarrow> string" where
  "grubIface info =
     (case ni_BondSlaves info of
        slave # slaves \<Rightarrow> slave
      | [] \<Rightarrow> if ni_VLANPhysdev info \<noteq> [] then ni_VLANPhysdev info else initramfsIface info)"

text \<open>\<open>initramfsInterface\<close>, \<open>initramfsVLANPhysdev\<close> and \<open>initramfsBondSlaves\<close>.\<close>

definition initramfsOverrides :: "NetworkInfo \<Rightarrow> string \<times> string \<times> string" where
  "initramfsOverrides info =
     (case ni_BondSlaves info of
        [] \<Rightarrow> (initramfsIface info, ni_VLANPhysdev info, join (ni_BondSlaves info) '' '')
      | slaveNIC # slaves \<Rightarrow>
          if ni_VLANPhysdev info \<noteq> [] then (slaveNIC @ ''.'' @ itoa (ni_VLANID info), slaveNIC, [])
          else (slaveNIC, ni_VLANPhysdev info, []))"

definition netInterfaceForDetection :: "NetworkInfo \<Rightarrow> string" where
  "netInterfaceForDetection info =
     (if ni_BondSlaves info \<noteq> [] \<and> ni_VLANPhysdev info \<noteq> [] then ni_Interface info
      else fst (initramfsOverrides info))"

definition initramfsData :: "config \<Rightarrow> NetworkInfo \<Rightarrow> InitramfsScriptData" where
  "initramfsData cfg info =
     (let (iface, physdev, slaves) = initramfsOverrides info
      in \<lparr>sd_ServerIP = wg_ServerIP (WireGuard cfg),
          sd_StaticIP = ni_IP info @ ''/'' @ itoa (ni_Prefix info),
          sd_GatewayIP = ni_Gateway info, sd_Interface = iface, sd_VLANPhysdev = physdev,
          sd_VLANID = ni_VLANID info, sd_BondSlaves = slaves, sd_BondMode = ni_BondMode info\<rparr>)"

definition buildSetupScriptData :: "config \<Rightarrow> Keys \<Rightarrow> NetworkInfo \<Rightarrow> setup_error + SetupScriptData" where
  "buildSetupScriptData cfg keys info =
     bindE (wrapE RenderWGFailed (renderWGConfig cfg keys)) (\<lambda>wgServerINI.
     bindE (wrapE RenderInitFailed (RenderInitramfsScript (initramfsData cfg info))) (\<lambda>initScript.
     bindE (wrapE RenderDropbearFailed
       (RenderDropbearConfig
          \<lparr>dd_ServerTunnelIP = WGServerTunnelIP cfg, dd_DropbearPort = db_Port (Dropbear cfg)\<rparr>)) (\<lambda>dbConf.
     bindE (wrapE NetFieldFailed (validateGrubNetFields info)) (\<lambda>_.
     case prefixToNetmask (ni_Prefix info) of
       None \<Rightarrow> Inl SetupPanic
     | Some netmask \<Rightarrow>
         Inr \<lparr>ss_WGServerConf = wgServerINI, ss_InitramfsHook = InitramfsHookTmpl,
              ss_InitramfsScript = initScript, ss_AuthorizedKeys = ClientSSHPubKey keys @ [nl],
              ss_DropbearConf = dbConf, ss_UMASKConf = InitramfsUMASKConf,
              ss_NetIP = ni_IP info, ss_NetGateway = ni_Gateway info, ss_NetMask = netmask,
              ss_NetHostname = ni_Hostname info, ss_NetInterface = netInterfaceForDetection info,
              ss_GrubInterface = grubIface info\<rparr>))))"

section \<open>Running the script\<close>

definition scriptPath :: string where "scriptPath = ''/tmp/ubo-setup.sh''"

definition runSetupScript :: "Client \<Rightarrow> string \<Rightarrow> (system, setup_error, string) step" where
  "runSetupScript c script =
     thenS (wrapS UploadFailed (WriteFile c scriptPath script 0x1C0)) (\<lambda>_ s.
     let ((out, err), s') = RunCommand c (''sh '' @ scriptPath) s
     in case err of Some e \<Rightarrow> (Inl (ScriptFailed e), s') | None \<Rightarrow> (Inr out, s'))"

definition lastJSONLine :: "string \<Rightarrow> string" where
  "lastJSONLine out =
     fold (\<lambda>l jsonLine. let line = trim_space l in if has_prefix line ''{'' then line else jsonLine)
       (split_char nl out) []"

definition parseSetupResult :: "string \<Rightarrow> setup_error + string" where
  "parseSetupResult out =
     (if lastJSONLine out = [] then Inl (NoJSON out)
      else case unmarshal_field ''dropbear_pub_key'' (lastJSONLine out) of
             None \<Rightarrow> Inl (BadJSON (lastJSONLine out))
           | Some key \<Rightarrow> if key = [] then Inl (MissingPubKey (lastJSONLine out)) else Inr key)"

definition savePinnedKey :: "string \<Rightarrow> string \<Rightarrow> (system, setup_error, unit) step" where
  "savePinnedKey outputDir pubKey =
     wrapS SaveKeyFailed
       (onDisk (os_WriteFile (Join [outputDir, ''dropbear_host_key.pub'']) (pubKey @ [nl]) 0x1A4))"

definition stepDetectNetwork :: "Client \<Rightarrow> config \<Rightarrow> (system, setup_error, NetworkInfo) step" where
  "stepDetectNetwork c cfg = wrapS DetectFailed (detectNetwork c cfg)"

definition Configure :: "Client \<Rightarrow> config \<Rightarrow> Keys \<Rightarrow> string \<Rightarrow> (system, setup_error, unit) step" where
  "Configure c cfg keys outputDir =
     thenS (stepDetectNetwork c cfg) (\<lambda>netInfo.
     thenS (liftS (buildSetupScriptData cfg keys netInfo)) (\<lambda>scriptData.
     thenS (liftS (wrapE RenderSetupFailed (RenderSetupScript scriptData))) (\<lambda>script.
     thenS (runSetupScript c script) (\<lambda>out.
     thenS (liftS (parseSetupResult out)) (\<lambda>pubKey.
     savePinnedKey outputDir pubKey)))))"

section \<open>The steps of the script as single commands\<close>

record dropbearPaths =
  db_ConfigDir :: string
  db_HostKeyFile :: string

datatype dropbear_error = PathsFailed remote_error | NoDropbearDir | KeygenFailed remote_error
  | ReadKeyFailed remote_error | NoPublicKey

definition dropbear_dir_cmd :: string where
  "dropbear_dir_cmd =
     ''if [ -d /etc/dropbear/initramfs ]; then echo /etc/dropbear/initramfs; '' @
     ''elif [ -d /etc/dropbear-initramfs ]; then echo /etc/dropbear-initramfs; '' @
     ''else echo NOTFOUND; fi''"

definition detectDropbearPaths :: "Client \<Rightarrow> (system, dropbear_error, dropbearPaths) step" where
  "detectDropbearPaths c s =
     (let ((out, err), s') = RunCommand c dropbear_dir_cmd s; dir = trim_space out
      in case err of
           Some e \<Rightarrow> (Inl (PathsFailed e), s')
         | None \<Rightarrow>
             if dir = ''NOTFOUND'' then (Inl NoDropbearDir, s')
             else (Inr \<lparr>db_ConfigDir = dir, db_HostKeyFile = dir @ ''/dropbear_ed25519_host_key''\<rparr>, s'))"

definition firstSSHLine :: "string \<Rightarrow> string option" where
  "firstSSHLine out = find (\<lambda>line. has_prefix line ''ssh-'') (map trim_space (split_char nl out))"

definition generateDropbearHostKey :: "Client \<Rightarrow> string \<Rightarrow> (system, dropbear_error, string) step" where
  "generateDropbearHostKey c keyFile s0 =
     (let (_, s1) = RunCommand c (''rm -f '' @ keyFile) s0;
          ((_, err2), s2) = RunCommand c (''dropbearkey -t ed25519 -f '' @ keyFile @ '' >/dev/null 2>&1'') s1
      in case err2 of
           Some e \<Rightarrow> (Inl (KeygenFailed e), s2)
         | None \<Rightarrow>
             let ((out, err3), s3) = RunCommand c (''dropbearkey -y -f '' @ keyFile @ '' 2>/dev/null'') s2
             in case err3 of
                  Some e \<Rightarrow> (Inl (ReadKeyFailed e), s3)
                | None \<Rightarrow>
                    (case firstSSHLine out of None \<Rightarrow> Inl NoPublicKey | Some line \<Rightarrow> Inr line, s3))"

section \<open>The result of the script\<close>

lemma lastJSONLine_snoc:
  assumes "\<forall>l\<in>set (ls @ j # after). nl \<notin> set l" "has_prefix j ''{''" "trimmed j"
    and "\<forall>l\<in>set after. \<not> has_prefix (trim_space l) ''{''"
  shows "lastJSONLine (lines_text (ls @ j # after)) = j"
proof -
  let ?f = "\<lambda>l jsonLine. let line = trim_space l in if has_prefix line ''{'' then line else jsonLine"
  have "fold ?f after j = j" using assms(4) by (induction after) (simp_all add: Let_def)
  with assms(2,3) have "fold ?f (ls @ j # after) [] = j" by simp
  then show ?thesis using split_lines_text [of "ls @ j # after"] assms(1) by (simp add: lastJSONLine_def)
qed

lemma lastJSONLine_none:
  assumes "\<forall>l\<in>set (split_char nl out). \<not> has_prefix (trim_space l) ''{''"
  shows "lastJSONLine out = []"
proof -
  have "fold (\<lambda>l j. let line = trim_space l in if has_prefix line ''{'' then line else j) ls [] = []"
    if "\<forall>l\<in>set ls. \<not> has_prefix (trim_space l) ''{''" for ls
    using that by (induction ls) (simp_all add: Let_def)
  with assms show ?thesis by (simp add: lastJSONLine_def)
qed

lemma json_member_line:
  assumes "json_plain k" "json_plain v"
  shows "nl \<notin> set (json_member k v)" "has_prefix (json_member k v) ''{''" "trimmed (json_member k v)"
proof -
  have "nl \<notin> set s" if "json_plain s" for s
  proof
    assume "nl \<in> set s"
    with that have "0x20 \<le> codepoint nl" unfolding json_plain_def list_all_iff by blast
    then show False by (simp add: codepoint_def)
  qed
  with assms show "nl \<notin> set (json_member k v)" by (simp add: json_member_def)
  show "has_prefix (json_member k v) ''{''" by (simp add: json_member_def str_simps)
  show "trimmed (json_member k v)"
    by (rule trimmed_plain) (simp_all add: json_member_def plain_def ascii_spaces_def)
qed

lemma setup_key_line:
  assumes "json_plain key" "key \<noteq> []"
    and "\<forall>l\<in>set (ls @ after). nl \<notin> set l" "\<forall>l\<in>set after. \<not> has_prefix (trim_space l) ''{''"
  shows "parseSetupResult (lines_text (ls @ json_member ''dropbear_pub_key'' key # after)) = Inr key \<and>
    parseSetupResult (lines_text after) = Inl (NoJSON (lines_text after))"
proof -
  have name: "json_plain ''dropbear_pub_key''" by (simp add: json_plain_def codepoint_def)
  note j = json_member_line [OF name assms(1)]
  have "lastJSONLine (lines_text (ls @ json_member ''dropbear_pub_key'' key # after)) =
      json_member ''dropbear_pub_key'' key"
    by (rule lastJSONLine_snoc) (use j assms in auto)
  moreover have "lastJSONLine (lines_text after) = []"
  proof (rule lastJSONLine_none)
    show "\<forall>l\<in>set (split_char nl (lines_text after)). \<not> has_prefix (trim_space l) ''{''"
      using assms(3,4) split_lines_text [of after] by (cases "after = []") (auto simp: str_simps)
  qed
  moreover have "json_member ''dropbear_pub_key'' key \<noteq> []" by (simp add: json_member_def)
  ultimately show ?thesis
    using unmarshal_member [OF name assms(1)] assms(2) by (simp add: parseSetupResult_def)
qed

text \<open>C22: The result of the setup script is read back: whatever lines come before, and whatever lines
  that are no JSON come after, the key that the script's last command prints in its JSON object
  is the result; output without a JSON line is an error.\<close>

theorem setup_result_round_trip:
  assumes "json_plain key" "key \<noteq> []"
    and "\<forall>l\<in>set (ls @ after). nl \<notin> set l" "\<forall>l\<in>set after. \<not> has_prefix (trim_space l) ''{''"
  shows "parseSetupResult (lines_text (ls @ json_member ''dropbear_pub_key'' key # after)) = Inr key \<and>
    parseSetupResult (lines_text after) = Inl (NoJSON (lines_text after))"
  using assms by (rule setup_key_line)

lemma setup_result_round_trip_witness:
  "parseSetupResult (lines_text [''{x'', json_member ''dropbear_pub_key'' ''ssh-ed25519 A'', ''y'']) = Inr ''ssh-ed25519 A''"
proof -
  have "json_plain ''ssh-ed25519 A''" by (simp add: json_plain_def codepoint_def)
  from setup_result_round_trip [OF this, of "[''{x'']" "[''y'']"] show ?thesis
    by (simp add: trimmed_all_plain plain_def ascii_spaces_def str_simps)
qed

section \<open>What the scripts are given\<close>

lemma prefixToNetmask_Some: "0 \<le> p \<Longrightarrow> p \<le> 32 \<Longrightarrow> prefixToNetmask p = Some (dotted (maskBytes 4 (nat p)))"
  by (simp add: prefixToNetmask_def CIDRMask_def)

lemma build_ok:
  "buildSetupScriptData cfg keys info = Inr d \<longleftrightarrow>
     (\<exists>ini script db netmask. renderWGConfig cfg keys = Inr ini \<and>
        RenderInitramfsScript (initramfsData cfg info) = Inr script \<and>
        RenderDropbearConfig \<lparr>dd_ServerTunnelIP = WGServerTunnelIP cfg, dd_DropbearPort = db_Port (Dropbear cfg)\<rparr> = Inr db \<and>
        validateGrubNetFields info = Inr () \<and> prefixToNetmask (ni_Prefix info) = Some netmask \<and>
        d = \<lparr>ss_WGServerConf = ini, ss_InitramfsHook = InitramfsHookTmpl, ss_InitramfsScript = script,
             ss_AuthorizedKeys = ClientSSHPubKey keys @ [nl], ss_DropbearConf = db,
             ss_UMASKConf = InitramfsUMASKConf, ss_NetIP = ni_IP info, ss_NetGateway = ni_Gateway info,
             ss_NetMask = netmask, ss_NetHostname = ni_Hostname info,
             ss_NetInterface = netInterfaceForDetection info, ss_GrubInterface = grubIface info\<rparr>)"
  by (auto simp: buildSetupScriptData_def res_simps split: option.splits)

lemma build_panic:
  "buildSetupScriptData cfg keys info = Inl SetupPanic \<Longrightarrow> prefixToNetmask (ni_Prefix info) = None"
  by (auto simp: buildSetupScriptData_def res_simps split: option.splits)




text \<open>Which interface goes where: in the boot script a bond is replaced by its first slave and a
  bridge by its first port, a VLAN on a bond is created on the slave, and the slaves are never
  passed on, so the script takes its VLAN branch or its plain branch and never one that makes a
  bond; the kernel parameter names a real interface, the slave, the VLAN's parent or the port.\<close>

lemma boot_interfaces:
  "(let d = initramfsData cfg info; vlan = (ni_VLANPhysdev info \<noteq> [])
    in InitramfsScript_lines d = script_head @ (if sd_VLANPhysdev d \<noteq> [] then script_vlan d else script_plain d) @ script_tail d \<and>
       (sd_Interface d, sd_VLANPhysdev d, grubIface info, netInterfaceForDetection info) =
         (case (ni_BondSlaves info, ni_BridgePorts info) of
            (slave # _, _) \<Rightarrow>
              if vlan then (slave @ ''.'' @ itoa (ni_VLANID info), slave, slave, ni_Interface info)
              else (slave, [], slave, slave)
          | ([], port # _) \<Rightarrow> (port, ni_VLANPhysdev info, if vlan then ni_VLANPhysdev info else port, port)
          | ([], []) \<Rightarrow>
              (ni_Interface info, ni_VLANPhysdev info,
               if vlan then ni_VLANPhysdev info else ni_Interface info, ni_Interface info)))"
proof -
  have slaves: "sd_BondSlaves (initramfsData cfg info) = []"
    by (simp add: initramfsData_def initramfsOverrides_def split: list.split)
  then have "InitramfsScript_lines (initramfsData cfg info) =
      script_head @ (if sd_VLANPhysdev (initramfsData cfg info) \<noteq> [] then script_vlan (initramfsData cfg info)
        else script_plain (initramfsData cfg info)) @ script_tail (initramfsData cfg info)"
    by (simp add: InitramfsScript_lines_def)
  then show ?thesis
    by (simp add: Let_def)
      (simp add: initramfsData_def initramfsOverrides_def grubIface_def netInterfaceForDetection_def
        initramfsIface_def split: list.split)
qed

section \<open>The whole setup\<close>

lemma upload_calls:
  assumes "WriteFile c p content m s = (r, s')"
  shows "calls s' = calls s @ [write_call c (p, content, m)] \<and> disk s' = disk s"
  using writing.log_run [of c "(p, content, m)" s] WriteFile_disk [of c p content m s] assms by simp

lemma run_calls:
  assumes "RunCommand c cmd s = (r, s')"
  shows "calls s' = calls s @ [run_call c cmd] \<and> disk s' = disk s"
  using running.log_run [of c cmd s] RunCommand_disk(1) [of c cmd s] assms by simp

lemma runSetupScript_iff [res_simps]:
  "runSetupScript c script s = (Inr out, s') \<longleftrightarrow>
     (\<exists>s1. WriteFile c scriptPath script 0x1C0 s = (Inr (), s1) \<and>
       RunCommand c (''sh '' @ scriptPath) s1 = ((out, None), s'))"
  "runSetupScript c script s = (Inl e, s') \<longleftrightarrow>
     (\<exists>x. WriteFile c scriptPath script 0x1C0 s = (Inl x, s') \<and> e = UploadFailed x) \<or>
     (\<exists>s1 o' x. WriteFile c scriptPath script 0x1C0 s = (Inr (), s1) \<and>
       RunCommand c (''sh '' @ scriptPath) s1 = ((o', Some x), s') \<and> e = ScriptFailed x)"
proof -
  obtain r s1 where w: "WriteFile c scriptPath script 0x1C0 s = (r, s1)" by (cases "WriteFile c scriptPath script 0x1C0 s")
  obtain o' x s2 where r: "RunCommand c (''sh '' @ scriptPath) s1 = ((o', x), s2)" by (metis prod.collapse)
  have eq: "runSetupScript c script s =
      (case r of Inl e \<Rightarrow> (Inl (UploadFailed e), s1)
       | Inr u \<Rightarrow> (case x of None \<Rightarrow> (Inr o', s2) | Some e \<Rightarrow> (Inl (ScriptFailed e), s2)))"
    using r by (simp add: runSetupScript_def thenS_def wrapS_def w split: sum.split)
  show "runSetupScript c script s = (Inr out, s') \<longleftrightarrow>
     (\<exists>s1. WriteFile c scriptPath script 0x1C0 s = (Inr (), s1) \<and>
       RunCommand c (''sh '' @ scriptPath) s1 = ((out, None), s'))"
    unfolding eq using w r by (auto split: sum.split option.split)
  show "runSetupScript c script s = (Inl e, s') \<longleftrightarrow>
     (\<exists>x. WriteFile c scriptPath script 0x1C0 s = (Inl x, s') \<and> e = UploadFailed x) \<or>
     (\<exists>s1 o' x. WriteFile c scriptPath script 0x1C0 s = (Inr (), s1) \<and>
       RunCommand c (''sh '' @ scriptPath) s1 = ((o', Some x), s') \<and> e = ScriptFailed x)"
    unfolding eq using w r by (auto split: sum.split option.split)
qed

lemma runSetupScript_calls:
  "runSetupScript c script s = (Inr out, s') \<Longrightarrow>
     calls s' = calls s @ [write_call c (scriptPath, script, 0x1C0), run_call c (''sh '' @ scriptPath)] \<and>
     disk s' = disk s"
  "runSetupScript c script s = (Inl e, s') \<Longrightarrow>
     disk s' = disk s \<and>
     (calls s' = calls s @ [write_call c (scriptPath, script, 0x1C0)] \<or>
      calls s' = calls s @ [write_call c (scriptPath, script, 0x1C0), run_call c (''sh '' @ scriptPath)])"
  by (auto simp: runSetupScript_iff dest!: upload_calls run_calls)

definition detection_only :: "Client \<Rightarrow> system \<Rightarrow> system \<Rightarrow> bool" where
  "detection_only c =
     runs c (\<lambda>cmd. cmd = ''ip route show default'' \<or> (\<exists>i. isValidInterfaceName i \<and> detection_cmd i cmd))"

lemma stepDetect_only: "stepDetectNetwork c cfg s = (r, s1) \<Longrightarrow> detection_only c s s1"
  using detectNetwork_runs [of c s cfg]
  by (auto simp: stepDetectNetwork_def wrapS_def detection_only_def case_prod_beta)

lemma Configure_ok:
  assumes "Configure c cfg keys dir s = (Inr (), s')"
  shows "\<exists>info s1 d script s2 s3 out key m.
    detectNetwork c cfg s = (Inr info, s1) \<and> buildSetupScriptData cfg keys info = Inr d \<and>
    RenderSetupScript d = Inr script \<and> WriteFile c scriptPath script 0x1C0 s1 = (Inr (), s2) \<and>
    RunCommand c (''sh '' @ scriptPath) s2 = ((out, None), s3) \<and> parseSetupResult out = Inr key \<and>
    calls s' = calls s1 @ [write_call c (scriptPath, script, 0x1C0), run_call c (''sh '' @ scriptPath)] \<and>
    node_at (disk s') (Join [dir, ''dropbear_host_key.pub'']) = Some (File (key @ [nl]) m) \<and>
    (\<forall>p. Clean p \<noteq> Clean (Join [dir, ''dropbear_host_key.pub'']) \<longrightarrow> node_at (disk s') p = node_at (disk s) p)"
proof -
  let ?pin = "Join [dir, ''dropbear_host_key.pub'']"
  from assms obtain info s1 d script s2 out s3 key w where
    det: "detectNetwork c cfg s = (Inr info, s1)" and d: "buildSetupScriptData cfg keys info = Inr d"
    and scr: "RenderSetupScript d = Inr script" and up: "WriteFile c scriptPath script 0x1C0 s1 = (Inr (), s2)"
    and run: "RunCommand c (''sh '' @ scriptPath) s2 = ((out, None), s3)" and key: "parseSetupResult out = Inr key"
    and save: "os_WriteFile ?pin (key @ [nl]) 0x1A4 (disk s3) = (Inr (), w)" and s': "s' = s3\<lparr>disk := w\<rparr>"
    by (auto simp: Configure_def stepDetectNetwork_def savePinnedKey_def res_simps)
  have s3: "runSetupScript c script s1 = (Inr out, s3)"
    using up run by (auto simp: res_simps)
  have "disk s1 = disk s"
    using detectNetwork_runs [of c s cfg] det by (simp add: runs_def)
  then have disk: "disk s3 = disk s" using runSetupScript_calls(1) [OF s3] by simp
  have "calls s' = calls s1 @ [write_call c (scriptPath, script, 0x1C0), run_call c (''sh '' @ scriptPath)]"
    using runSetupScript_calls(1) [OF s3] s' by simp
  moreover have "\<exists>m. node_at (disk s') ?pin = Some (File (key @ [nl]) m)"
    and "\<forall>p. Clean p \<noteq> Clean ?pin \<longrightarrow> node_at (disk s') p = node_at (disk s) p"
    using WriteFile_Inr [OF save] s' disk by auto
  ultimately show ?thesis using det d scr up run key by blast
qed

lemma Configure_err:
  assumes "Configure c cfg keys dir s = (Inl e, s')"
  shows "(disk s' = disk s \<or> (\<exists>x. e = SaveKeyFailed x)) \<and>
    (\<exists>s1. detection_only c s s1 \<and>
       (calls s' = calls s1 \<or>
        (\<exists>info d script. buildSetupScriptData cfg keys info = Inr d \<and> RenderSetupScript d = Inr script \<and>
           (calls s' = calls s1 @ [write_call c (scriptPath, script, 0x1C0)] \<or>
            calls s' = calls s1 @ [write_call c (scriptPath, script, 0x1C0), run_call c (''sh '' @ scriptPath)]))))"
proof -
  obtain r s1 where det: "stepDetectNetwork c cfg s = (r, s1)" by (cases "stepDetectNetwork c cfg s")
  note only = stepDetect_only [OF det]
  then have disk: "disk s1 = disk s" by (simp add: detection_only_def runs_def)
  consider (early) "s' = s1"
    | (run) d script info e' where "buildSetupScriptData cfg keys info = Inr d" "RenderSetupScript d = Inr script"
        "runSetupScript c script s1 = (Inl e', s')"
    | (result) d script info out where "buildSetupScriptData cfg keys info = Inr d" "RenderSetupScript d = Inr script"
        "runSetupScript c script s1 = (Inr out, s')"
    | (save) d script info out key s2 where "buildSetupScriptData cfg keys info = Inr d"
        "RenderSetupScript d = Inr script" "runSetupScript c script s1 = (Inr out, s2)"
        "savePinnedKey dir key s2 = (Inl e, s')"
    using assms det by (auto simp: Configure_def res_simps)
  then show ?thesis
  proof cases
    case early
    with only disk show ?thesis by blast
  next
    case run
    with runSetupScript_calls(2) [OF run(3)] only disk show ?thesis by metis
  next
    case result
    with runSetupScript_calls(1) [OF result(3)] only disk show ?thesis by metis
  next
    case save
    then obtain x where "e = SaveKeyFailed x" "calls s' = calls s2"
      by (auto simp: savePinnedKey_def res_simps)
    with save runSetupScript_calls(1) [OF save(3)] only show ?thesis by metis
  qed
qed

text \<open>C10: A setup that succeeds has detected the network, rendered the script from checked data,
  uploaded exactly that script for the owner alone, run it, and saved the key from its output: the
  calls of \<open>ssh\<close> are those of the detection, then the upload and the run, and on the local disk
  one file has changed, the pinned key of the boot-time server.\<close>

theorem Configure_success:
  assumes "Configure c cfg keys dir s = (Inr (), s')"
  shows "\<exists>info s1 d script s2 s3 out key m.
    detectNetwork c cfg s = (Inr info, s1) \<and> buildSetupScriptData cfg keys info = Inr d \<and>
    RenderSetupScript d = Inr script \<and> WriteFile c scriptPath script 0x1C0 s1 = (Inr (), s2) \<and>
    RunCommand c (''sh '' @ scriptPath) s2 = ((out, None), s3) \<and> parseSetupResult out = Inr key \<and>
    calls s' = calls s1 @ [write_call c (scriptPath, script, 0x1C0), run_call c (''sh '' @ scriptPath)] \<and>
    node_at (disk s') (Join [dir, ''dropbear_host_key.pub'']) = Some (File (key @ [nl]) m) \<and>
    (\<forall>p. Clean p \<noteq> Clean (Join [dir, ''dropbear_host_key.pub'']) \<longrightarrow> node_at (disk s') p = node_at (disk s) p)"
  using assms by (rule Configure_ok)

text \<open>C11: A setup that fails before the key is saved leaves the local disk as it was; and the remote
  host has been asked only the detection's questions, unless a complete script from checked data
  was uploaded, after which it was run at most once.\<close>

theorem Configure_failure:
  assumes "Configure c cfg keys dir s = (Inl e, s')"
  shows "(disk s' = disk s \<or> (\<exists>x. e = SaveKeyFailed x)) \<and>
    (\<exists>s1. detection_only c s s1 \<and>
       (calls s' = calls s1 \<or>
        (\<exists>info d script. buildSetupScriptData cfg keys info = Inr d \<and> RenderSetupScript d = Inr script \<and>
           (calls s' = calls s1 @ [write_call c (scriptPath, script, 0x1C0)] \<or>
            calls s' = calls s1 @ [write_call c (scriptPath, script, 0x1C0), run_call c (''sh '' @ scriptPath)]))))"
  using assms by (rule Configure_err)

text \<open>C33: The netmask of the kernel parameter exists, so the setup does not crash, when the address is
  not configured or is configured in IPv4; with a prefix beyond 32, which an IPv6 address has,
  there is none.\<close>

theorem Configure_no_panic:
  assumes "CHR '':'' \<notin> set (net_IP (Network cfg))"
  shows "fst (Configure c cfg keys dir s) \<noteq> Inl SetupPanic \<and> (\<forall>p>32. prefixToNetmask p = None)"
proof -
  have "prefixToNetmask (ni_Prefix info) \<noteq> None" if "detectNetwork c cfg s = (Inr info, s1)" for info s1
    using detected_network [OF that] assms prefixToNetmask_Some by simp
  moreover have "parseSetupResult out \<noteq> Inl SetupPanic" for out
    by (simp add: parseSetupResult_def split: option.split)
  ultimately have "Configure c cfg keys dir s \<noteq> (Inl SetupPanic, s')" for s'
    by (auto simp: Configure_def stepDetectNetwork_def savePinnedKey_def res_simps dest: build_panic)
  moreover have "prefixToNetmask p = None" if "p > 32" for p
    using that by (simp add: prefixToNetmask_def CIDRMask_def)
  ultimately show ?thesis by (metis prod.collapse)
qed

section \<open>A setup that succeeds\<close>

definition setup_keys :: Keys where
  "setup_keys =
     \<lparr>ServerWGPrivate = ''a'', ServerWGPublic = ''b'', ClientWGPrivate = ''c'', ClientWGPublic = ''d'',
      ClientSSHKeyPath = ''e'', ClientSSHPubKey = ''f''\<rparr>"

lemma vlan_addresses:
  "''9.0.0.2'' @ ''/'' @ itoa 20 = cidr4 [9, 0, 0, 2] 20" "''9.0.0.1'' = dotted [9, 0, 0, 1]"
  "''9.0.0.2'' = dotted [9, 0, 0, 2]"
  by code_simp+

text \<open>Keys that are there.\<close>

definition keys_filled :: "Keys \<Rightarrow> bool" where
  "keys_filled k \<longleftrightarrow>
     ServerWGPrivate k \<noteq> [] \<and> ServerWGPublic k \<noteq> [] \<and> ClientWGPrivate k \<noteq> [] \<and> ClientWGPublic k \<noteq> []"

lemma setup_keys_filled: "keys_filled setup_keys"
  by (simp add: keys_filled_def setup_keys_def)

lemma vlan_builds:
  assumes "keys_filled k"
  shows "\<exists>d. buildSetupScriptData Default k vlan_info = Inr d"
proof -
  have "RenderInitramfsScript (initramfsData Default vlan_info) =
      Inr (unlines (InitramfsScript_lines (initramfsData Default vlan_info)))"
    unfolding RenderInitramfsScript_iff initramfsData_def initramfsOverrides_def
    by (simp add: vlan_info_def Default_def) (simp add: vlan_addresses [simplified] default_tunnel ParseCIDR_cidr4 ParseIP_dotted)
  moreover have "\<exists>ini. renderWGConfig Default k = Inr ini"
    using assms by (simp add: renderWGConfig_def server_MarshalINI_def keys_filled_def) (simp add: Default_def)
  moreover have "WGServerTunnelIP Default = dotted [10, 42, 0, 1]"
    by (rule WGServerTunnelIP_IPv4 [of _ _ 24]) (simp_all add: Default_def default_tunnel)
  then have "\<exists>db. RenderDropbearConfig
      \<lparr>dd_ServerTunnelIP = WGServerTunnelIP Default, dd_DropbearPort = db_Port (Dropbear Default)\<rparr> = Inr db"
    by (simp add: RenderDropbearConfig_def dotted_def) (simp add: Default_def)
  moreover have "validateGrubNetFields vlan_info = Inr ()"
  proof -
    have "isValidHostname ''x''" by code_simp
    then show ?thesis
      by (simp add: validateGrubNetFields_def vlan_info_def) (simp add: vlan_addresses ParseIP_dotted)
  qed
  moreover have "prefixToNetmask (ni_Prefix vlan_info) = Some (dotted (maskBytes 4 20))"
    by (simp add: vlan_info_def prefixToNetmask_Some)
  ultimately show ?thesis unfolding build_ok by blast
qed

lemma unlines_not_Nil: "ls \<noteq> [] \<Longrightarrow> unlines ls \<noteq> []"
  by (cases ls) (simp_all add: str_simps)

lemma vlan_renders:
  assumes "buildSetupScriptData Default k vlan_info = Inr d"
  shows "RenderSetupScript d = Inr (unlines (SetupScript_lines (rendered d)))"
proof -
  have script: "InitramfsScript_lines x \<noteq> []" for x by (simp add: InitramfsScript_lines_def script_head_def)
  have const: "InitramfsHookTmpl \<noteq> []" "InitramfsUMASKConf \<noteq> []" by code_simp+
  have mask: "dotted (maskBytes 4 20) \<noteq> []" by code_simp
  have "netInterfaceForDetection vlan_info = ''b.7''" "grubIface vlan_info = ''e''"
    "ni_IP vlan_info \<noteq> []" "ni_Gateway vlan_info \<noteq> []" "ni_Hostname vlan_info \<noteq> []" "ni_Prefix vlan_info = 20"
    by (simp_all add: vlan_info_def netInterfaceForDetection_def grubIface_def)
  with assms script const mask show ?thesis
    unfolding RenderSetupScript_iff build_ok
    by (auto simp: net_fields_def renderWGConfig_def server_MarshalINI_def server_lines_def unlines_not_Nil
        RenderDropbearConfig_def DropbearConfigTmpl_lines_def RenderInitramfsScript_iff prefixToNetmask_Some
        split: if_splits)
qed

lemma vlan_result: "parseSetupResult (trim_space (p_stdout (vlan_host 9 q))) = Inr ''ssh-ed25519 A''"
proof -
  have "p_stdout (vlan_host 9 q) = lines_text ([] @ json_member ''dropbear_pub_key'' ''ssh-ed25519 A'' # [])"
    by (simp add: vlan_host_def json_member_def)
  moreover have p: "json_plain ''ssh-ed25519 A''" "json_plain ''dropbear_pub_key''"
    by (simp_all add: json_plain_def codepoint_def)
  moreover have "trimmed (json_member ''dropbear_pub_key'' ''ssh-ed25519 A'')"
    by (rule json_member_line) (rule p)+
  ultimately show ?thesis
    using setup_key_line [OF p(1), of "[]" "[]"] by simp
qed

lemma pin_path:
  "always_there (Clean (Dir (Join [''.'', ''dropbear_host_key.pub''])))"
  "\<not> always_there (Clean (Join [''.'', ''dropbear_host_key.pub'']))"
  by code_simp+

text \<open>A setup on the host \<open>vlan_host\<close>, with any client and any keys.\<close>

lemma vlan_setup_run:
  assumes "detectNetwork c Default s = (Inr vlan_info, s1)" "length (calls s1) = 8" "ssh_reply s1 = vlan_host"
    and "keys_filled k"
    and "os_WriteFile (Join [dir, ''dropbear_host_key.pub'']) (''ssh-ed25519 A'' @ [nl]) 0x1A4 (disk s1) = (Inr (), w)"
  shows "\<exists>s'. Configure c Default k dir s = (Inr (), s') \<and> disk s' = w"
proof -
  obtain d where d: "buildSetupScriptData Default k vlan_info = Inr d" using vlan_builds [OF assms(4)] by blast
  let ?script = "unlines (SetupScript_lines (rendered d))"
  have ok: "p_err (vlan_host n q) = None" for n q by (simp add: vlan_host_def)
  define s2 where "s2 = s1\<lparr>calls := calls s1 @ [write_call c (scriptPath, ?script, 0x1C0)]\<rparr>"
  have up: "WriteFile c scriptPath ?script 0x1C0 s1 = (Inr (), s2)"
    by (simp add: WriteFile_def case_prod_beta Let_def assms(2,3) ok s2_def write_call_def)
  obtain out s3 where run: "RunCommand c (''sh '' @ scriptPath) s2 = ((out, None), s3)"
    and res: "parseSetupResult out = Inr ''ssh-ed25519 A''" and s3: "disk s3 = disk s1"
    using vlan_result by (auto simp: RunCommand_def case_prod_beta Let_def assms(2,3) ok s2_def)
  have script: "runSetupScript c ?script s1 = (Inr out, s3)"
    unfolding runSetupScript_iff using up run by blast
  have save: "savePinnedKey dir ''ssh-ed25519 A'' s3 = (Inr (), s3\<lparr>disk := w\<rparr>)"
    using assms(5) by (simp add: savePinnedKey_def wrapS_def onDisk_def s3)
  have "Configure c Default k dir s = (Inr (), s3\<lparr>disk := w\<rparr>)"
    using assms(1) d vlan_renders [OF d] res script save
    by (auto simp: Configure_def stepDetectNetwork_def res_simps)
  then show ?thesis by simp
qed

lemma vlan_setup: "\<exists>s'. Configure vlan_client Default setup_keys ''.'' vlan_system = (Inr (), s')"
proof -
  obtain s1 where s1: "detectNetwork vlan_client Default vlan_system = (Inr vlan_info, s1)"
    "length (calls s1) = 8" "disk s1 = clean_world" "ssh_reply s1 = vlan_host"
    using vlan_system_detected by blast
  have "\<exists>w. os_WriteFile (Join [''.'', ''dropbear_host_key.pub'']) (''ssh-ed25519 A'' @ [nl]) 0x1A4 (disk s1) = (Inr (), w)"
    using pin_path by (simp add: os_WriteFile_def is_dir_def s1(3) Let_def)
  with vlan_setup_run [OF s1(1,2,4) setup_keys_filled] show ?thesis by blast
qed


lemma Configure_success_witness:
  "\<exists>s' key m. Configure vlan_client Default setup_keys ''.'' vlan_system = (Inr (), s') \<and>
     node_at (disk s') (Join [''.'', ''dropbear_host_key.pub'']) = Some (File (key @ [nl]) m)"
proof -
  obtain s' where s': "Configure vlan_client Default setup_keys ''.'' vlan_system = (Inr (), s')"
    using vlan_setup by blast
  from Configure_success [OF s'] s' show ?thesis by blast
qed

text \<open>Without keys there is nothing to render.\<close>

lemma Configure_failure_witness:
  "\<exists>e s'. Configure vlan_client Default (setup_keys\<lparr>ServerWGPrivate := []\<rparr>) ''.'' vlan_system = (Inl e, s') \<and>
     disk s' = disk vlan_system"
proof -
  let ?keys = "setup_keys\<lparr>ServerWGPrivate := []\<rparr>"
  obtain s1 where s1: "detectNetwork vlan_client Default vlan_system = (Inr vlan_info, s1)"
    using vlan_system_detected by blast
  have "renderWGConfig Default ?keys = Inl (IniRequired ''PrivateKey'')"
    by (simp add: renderWGConfig_def server_MarshalINI_def) (simp add: Default_def)
  then have "buildSetupScriptData Default ?keys vlan_info = Inl (RenderWGFailed (IniRequired ''PrivateKey''))"
    by (simp add: buildSetupScriptData_def)
  with s1 have f: "Configure vlan_client Default ?keys ''.'' vlan_system =
      (Inl (RenderWGFailed (IniRequired ''PrivateKey'')), s1)"
    by (auto simp: Configure_def stepDetectNetwork_def res_simps)
  from Configure_failure [OF this] f show ?thesis by blast
qed

lemma Configure_no_panic_witness:
  "fst (Configure vlan_client Default setup_keys ''.'' vlan_system) \<noteq> Inl SetupPanic"
proof -
  have "CHR '':'' \<notin> set (net_IP (Network Default))" by (simp add: Default_def)
  from Configure_no_panic [OF this] show ?thesis by blast
qed

text \<open>A configured address with which it panics.\<close>

lemma configured_IPv6_prefix:
  "\<exists>i. applyConfigIP ''::/64'' (newInfo f) = Inr i \<and> ni_Prefix i = 64 \<and> prefixToNetmask 64 = None"
proof -
  have "ParseAddr ''::'' = Some (Addr6 (replicate 16 0) [])" by code_simp
  moreover have "dtoi ''64'' = Some (64, [])" by code_simp
  ultimately have "\<exists>ip n. ParseCIDR ''::/64'' = Some (ip, n) \<and> Mask_Size (net_mask n) = 64"
    by (simp add: ParseCIDR_def cut_byte_def index_byte_def CIDRMask_def Mask_Size_def simpleMaskLength_maskBytes)
  then show ?thesis by (auto simp: applyConfigIP_ok prefixToNetmask_def CIDRMask_def)
qed

end
