(* ===== verification/Checker.thy ===== *)
theory Checker
  imports System
begin

text \<open>
  The check for programs on the path, \<open>internal/checker/checker.go\<close>. The set of packages is a Go
  map, whose order is not fixed, so it is a set here too.
\<close>

record toolDef =
  tool_name :: string
  tool_pkg :: string

definition runTools :: "toolDef list" where
  "runTools = [\<lparr>tool_name = ''ssh'', tool_pkg = ''openssh-client''\<rparr>]"

text \<open>The loop of \<open>findMissingTools\<close>; \<open>found\<close> is \<open>exec.LookPath\<close>.\<close>

definition findMissingTools :: "(string \<Rightarrow> bool) \<Rightarrow> toolDef list \<Rightarrow> string list \<times> string set" where
  "findMissingTools found tools =
     fold (\<lambda>t (missing, pkgSet).
             if \<not> found (tool_name t) then (missing @ [tool_name t], insert (tool_pkg t) pkgSet)
             else (missing, pkgSet))
       tools ([], {})"

datatype tool_error = MissingTools "string list" "string set"

definition CheckTools :: "string \<Rightarrow> system \<Rightarrow> tool_error + unit" where
  "CheckTools subcommand s =
     (if subcommand \<noteq> ''run'' then Inr ()
      else let (missing, pkgSet) = findMissingTools (on_path s) runTools
           in if missing = [] then Inr () else Inl (MissingTools missing pkgSet))"

lemma findMissingTools_eq:
  "findMissingTools found tools =
     (map tool_name (filter (\<lambda>t. \<not> found (tool_name t)) tools),
      tool_pkg ` {t \<in> set tools. \<not> found (tool_name t)})"
proof -
  have "fold (\<lambda>t (missing, pkgSet).
             if \<not> found (tool_name t) then (missing @ [tool_name t], insert (tool_pkg t) pkgSet)
             else (missing, pkgSet)) tools (ms, ps) =
     (ms @ map tool_name (filter (\<lambda>t. \<not> found (tool_name t)) tools),
      ps \<union> tool_pkg ` {t \<in> set tools. \<not> found (tool_name t)})" for ms ps
    by (induction tools arbitrary: ms ps) auto
  then show ?thesis by (simp add: findMissingTools_def)
qed

lemma CheckTools_iff:
  "CheckTools sub s = Inr () \<longleftrightarrow> sub \<noteq> ''run'' \<or> on_path s ''ssh''"
  by (simp add: CheckTools_def findMissingTools_eq runTools_def)

lemma CheckTools_message:
  "CheckTools sub s = Inl e \<longleftrightarrow>
     sub = ''run'' \<and> \<not> on_path s ''ssh'' \<and> e = MissingTools [''ssh''] {''openssh-client''}"
  by (auto simp: CheckTools_def findMissingTools_eq runTools_def)

end
