(* ===== verification/Tunnel.thy ===== *)
theory Tunnel
  imports Remote WG_Conf Go_Encoding Go_Net
begin

text \<open>
  The userspace tunnel of \<open>contrib/rootless/rootless.go\<close>: the device's configuration and the wait
  for the server. The WireGuard and SSH libraries, the network and the clock are parameters: a call
  that leaves the program is an event, and the environment answers an event from the events before
  it and says how long it took. A property proved for every environment holds for every network.
\<close>

section \<open>Addresses of package netip\<close>

type_synonym AddrPort = "Addr \<times> nat"

text \<open>The text before and after the last occurrence of a byte.\<close>

definition cut_last :: "string \<Rightarrow> char \<Rightarrow> (string \<times> string) option" where
  "cut_last s c = map_option (\<lambda>(a, b). (rev b, rev a)) (cut_byte (rev s) c)"

definition Is4 :: "Addr \<Rightarrow> bool" where
  "Is4 a = (case a of Addr4 b \<Rightarrow> True | Addr6 b z \<Rightarrow> False)"

definition ParsePrefix :: "string \<Rightarrow> (Addr \<times> int) option" where
  "ParsePrefix s =
     (case cut_last s CHR ''/'' of
        None \<Rightarrow> None
      | Some (addr, bitsStr) \<Rightarrow>
          (case ParseAddr addr of
             None \<Rightarrow> None
           | Some ip \<Rightarrow>
               if Zone ip \<noteq> [] then None
               else if length bitsStr > 1 \<and> (\<not> is_digit (hd bitsStr) \<or> hd bitsStr = CHR ''0'') then None
               else (case atoi bitsStr of
                       None \<Rightarrow> None
                     | Some bits \<Rightarrow> if bits < 0 \<or> bits > int (BitLen ip) then None else Some (ip, bits))))"

text \<open>\<open>netip.ParseAddrPort\<close>, whose port is a number of 16 bits without a sign.\<close>

definition parse_port :: "string \<Rightarrow> nat option" where
  "parse_port s =
     (if s = [] \<or> \<not> list_all is_digit s \<or> int (digits_val s) \<ge> 65536 then None else Some (digits_val s))"

definition ParseAddrPort :: "string \<Rightarrow> AddrPort option" where
  "ParseAddrPort s =
     (case cut_last s CHR '':'' of
        None \<Rightarrow> None
      | Some (ip, port) \<Rightarrow>
          if ip = [] \<or> port = [] then None
          else let v6 = (hd ip = CHR ''['')
               in if v6 \<and> (length ip < 2 \<or> last ip \<noteq> CHR '']'') then None
                  else (case (parse_port port, ParseAddr (if v6 then butlast (tl ip) else ip)) of
                          (Some p, Some a) \<Rightarrow> if v6 = Is4 a then None else Some (a, p)
                        | _ \<Rightarrow> None))"

section \<open>Events\<close>

datatype event =
    CreateTUN Addr
  | IpcSet string
  | DevUp
  | DevDown
  | DevClose
  | Dial AddrPort
  | ConnClose
  | Sleep nat
  | Handshake string string
  | ClientClose nat
  | NewSession nat
  | RequestPty nat nat
  | MakeRaw
  | Restore
  | StartCmd string
  | WaitCmd
  | SessionClose

text \<open>What has happened: the events, each with the error it ended with.\<close>

type_synonym history = "(event \<times> string option) list"

text \<open>The SSH clients made so far, one per handshake that succeeded; a client is its number.\<close>

definition clients :: "history \<Rightarrow> nat" where
  "clients h = length (filter (\<lambda>(e, x). x = None \<and> (case e of Handshake k s \<Rightarrow> True | _ \<Rightarrow> False)) h)"

lemma clients_simps [simp]:
  "clients [] = 0" "clients (h @ h') = clients h + clients h'"
  "clients ((e, x) # h) =
     (if x = None \<and> (case e of Handshake k s \<Rightarrow> True | _ \<Rightarrow> False) then Suc (clients h) else clients h)"
  by (simp_all add: clients_def)

text \<open>
  The environment: answers and durations in milliseconds, whether standard input is a terminal and
  its width and height, and the two parsers of package \<open>ssh\<close>, whose keys are opaque texts.
\<close>

record net_env =
  ne_answer :: "history \<Rightarrow> event \<Rightarrow> string option"
  ne_takes :: "history \<Rightarrow> event \<Rightarrow> nat"
  ne_isTerminal :: bool
  ne_size :: "nat \<times> nat"
  ne_ParsePrivateKey :: "string \<Rightarrow> string option"
  ne_ParseAuthorizedKey :: "string \<Rightarrow> string option"

record unlocker =
  u_sys :: system
  u_log :: history
  u_clock :: nat

datatype unlock_error =
    WGConfFailed wg_error
  | BadClientAddr string
  | TUNFailed string
  | BadPrivateKey
  | BadPeerKey
  | IpcFailed string
  | UpFailed string
  | BadServerAddr string
  | NotReachable AddrPort
  | DialError string
  | ReadSSHKey os_error
  | ParseSSHKey
  | PinUnreadable os_error
  | PinUnparsable
  | DialFailed string
  | HandshakeFailed string
  | ReconnectFailed unlock_error
  | CryptrootFailed unlock_error
  | ChangeKeyFailed unlock_error
  | NoSession string
  | PTYFailed string
  | StartFailed string
  | CommandEnded string
  | DirectSSHFailed remote_error
  | InteractiveFailed remote_error

definition attempt :: "net_env \<Rightarrow> event \<Rightarrow> (string \<Rightarrow> unlock_error) \<Rightarrow> (unlocker, unlock_error, unit) step" where
  "attempt env ev err st =
     (let ans = ne_answer env (u_log st) ev
      in (case ans of None \<Rightarrow> Inr () | Some e \<Rightarrow> Inl (err e),
          st\<lparr>u_log := u_log st @ [(ev, ans)], u_clock := u_clock st + ne_takes env (u_log st) ev\<rparr>))"

text \<open>A call whose error the program does not look at.\<close>

definition note_event :: "event \<Rightarrow> unlocker \<Rightarrow> unlocker" where
  "note_event ev st = st\<lparr>u_log := u_log st @ [(ev, None)]\<rparr>"

definition onSys :: "(system, 'e, 'a) step \<Rightarrow> (unlocker, 'e, 'a) step" where
  "onSys m st = (let (r, s) = m (u_sys st) in (r, st\<lparr>u_sys := s\<rparr>))"

section \<open>The device\<close>

definition parseFirstAddr :: "string \<Rightarrow> unlock_error + Addr" where
  "parseFirstAddr cidr =
     (case ParsePrefix cidr of
        Some (addr, _) \<Rightarrow> Inr addr
      | None \<Rightarrow> (case ParseAddr cidr of None \<Rightarrow> Inl (BadClientAddr cidr) | Some addr \<Rightarrow> Inr addr))"

definition b64ToHex :: "string \<Rightarrow> string option" where
  "b64ToHex b64key =
     (case b64_decode b64key of
        None \<Rightarrow> None
      | Some raw \<Rightarrow> if length raw \<noteq> 32 then None else Some (hex_encode raw))"

definition ipc_lines :: "string \<Rightarrow> string \<Rightarrow> wgClientConfig \<Rightarrow> string list" where
  "ipc_lines privHex pubHex wg =
     [''private_key='' @ privHex, ''public_key='' @ pubHex, ''endpoint='' @ wc_Endpoint wg,
      ''allowed_ip='' @ wc_AllowedIPs wg, ''persistent_keepalive_interval=25'']"

definition buildIPC :: "wgClientConfig \<Rightarrow> unlock_error + string" where
  "buildIPC wg =
     (case b64ToHex (wc_PrivateKey wg) of
        None \<Rightarrow> Inl BadPrivateKey
      | Some privHex \<Rightarrow>
          (case b64ToHex (wc_PeerPubKey wg) of
             None \<Rightarrow> Inl BadPeerKey
           | Some pubHex \<Rightarrow> Inr (unlines (ipc_lines privHex pubHex wg))))"

definition setupWGDevice :: "net_env \<Rightarrow> wgClientConfig \<Rightarrow> (unlocker, unlock_error, unit) step" where
  "setupWGDevice env wg =
     thenS (liftS (parseFirstAddr (wc_Address wg))) (\<lambda>clientIP.
     thenS (attempt env (CreateTUN clientIP) TUNFailed) (\<lambda>_.
     thenS (liftS (buildIPC wg)) (\<lambda>ipc.
     thenS (attempt env (IpcSet ipc) IpcFailed) (\<lambda>_.
     attempt env DevUp UpFailed))))"

section \<open>Waiting for the server\<close>

definition waitTunnelDuration :: nat where "waitTunnelDuration = 15000"
definition waitTunnelSleep :: nat where "waitTunnelSleep = 1000"

definition pause :: "nat \<Rightarrow> unlocker \<Rightarrow> unlocker" where
  "pause ms st = st\<lparr>u_log := u_log st @ [(Sleep ms, None)], u_clock := u_clock st + ms\<rparr>"

lemma attempt_clock: "attempt env ev err st = (r, st1) \<Longrightarrow> u_clock st \<le> u_clock st1"
  by (auto simp: attempt_def Let_def)

text \<open>
  The loop of \<open>waitTunnel\<close>. The commands run with \<open>context.Background()\<close>, which is never done, so
  the other branch of the \<open>select\<close> is the only one.
\<close>

function waitLoop :: "net_env \<Rightarrow> AddrPort \<Rightarrow> nat \<Rightarrow> (unlocker, unlock_error, unit) step" where
  "waitLoop env addr deadline st =
     (if u_clock st < deadline then
        (case attempt env (Dial addr) DialError st of
           (Inr _, st1) \<Rightarrow> (Inr (), note_event ConnClose st1)
         | (Inl _, st1) \<Rightarrow> waitLoop env addr deadline (pause waitTunnelSleep st1))
      else (Inl (NotReachable addr), st))"
  by pat_completeness auto

termination
  by (relation "measure (\<lambda>(env, addr, deadline, st). deadline - u_clock st)")
    (auto simp: pause_def waitTunnelSleep_def dest!: attempt_clock [OF sym])

declare waitLoop.simps [simp del]

definition waitTunnel :: "net_env \<Rightarrow> AddrPort \<Rightarrow> (unlocker, unlock_error, unit) step" where
  "waitTunnel env addr st = waitLoop env addr (u_clock st + waitTunnelDuration) st"

section \<open>How often it asks\<close>

text \<open>The calls that did not get through, each with its error and the pause after it.\<close>

definition refused :: "AddrPort \<Rightarrow> string list \<Rightarrow> history" where
  "refused addr xs = concat (map (\<lambda>x. [(Dial addr, Some x), (Sleep 1000, None)]) xs)"

lemma refused_simps [simp]:
  "refused addr [] = []"
  "refused addr (x # xs) = (Dial addr, Some x) # (Sleep 1000, None) # refused addr xs"
  by (simp_all add: refused_def)

lemma one_more_dial:
  fixes n d c c0 :: nat
  assumes "1000 * n \<le> d - (c + 1000) + 999" "c0 \<le> c" "c0 < d"
  shows "1000 * Suc n \<le> d - c0 + 999"
  using assms by (cases "c + 1000 \<le> d"; cases n) simp_all

text \<open>What the loop leaves: the refused calls and, when one got through, that one and its close.\<close>

definition waited :: "AddrPort \<Rightarrow> string list \<Rightarrow> unlock_error + unit \<Rightarrow> history" where
  "waited addr xs r =
     refused addr xs @ (case r of Inl e \<Rightarrow> [] | Inr _ \<Rightarrow> [(Dial addr, None), (ConnClose, None)])"

lemma waitLoop_log:
  assumes "waitLoop env addr deadline st = (r, st')"
  shows "\<exists>xs. u_log st' = u_log st @ waited addr xs r \<and> u_sys st' = u_sys st \<and>
    1000 * (length xs + (if r = Inr () then 1 else 0)) \<le> deadline - u_clock st + 999 \<and>
    u_clock st + 1000 * length xs \<le> u_clock st' \<and>
    (r \<noteq> Inr () \<longrightarrow> r = Inl (NotReachable addr) \<and> deadline \<le> u_clock st')"
  using assms
proof (induction env addr deadline st rule: waitLoop.induct)
  case (1 env addr deadline st)
  show ?case
  proof (cases "u_clock st < deadline")
    case False
    with "1.prems" show ?thesis by (intro exI [of _ "[]"]) (auto simp: waitLoop.simps waited_def)
  next
    case True
    obtain q st1 where a: "attempt env (Dial addr) DialError st = (q, st1)" by (cases "attempt env (Dial addr) DialError st")
    show ?thesis
    proof (cases q)
      case (Inr u)
      with a have "u_log st1 = u_log st @ [(Dial addr, None)]" "u_sys st1 = u_sys st" "u_clock st \<le> u_clock st1"
        by (auto simp: attempt_def Let_def split: option.splits)
      moreover have "r = Inr ()" "st' = note_event ConnClose st1"
        using "1.prems" True a Inr by (simp_all add: waitLoop.simps)
      ultimately show ?thesis
        using True by (intro exI [of _ "[]"]) (simp add: note_event_def waited_def)
    next
      case (Inl e)
      with a obtain x where st1: "u_log st1 = u_log st @ [(Dial addr, Some x)]" "u_sys st1 = u_sys st" "u_clock st \<le> u_clock st1"
        by (auto simp: attempt_def Let_def split: option.splits)
      have run: "waitLoop env addr deadline (pause waitTunnelSleep st1) = (r, st')"
        using "1.prems" True a Inl by (simp add: waitLoop.simps [of env addr deadline st])
      from "1.IH" [OF True a [symmetric] Inl run] obtain xs where
        xs: "u_log st' = u_log (pause waitTunnelSleep st1) @ waited addr xs r" "u_sys st' = u_sys (pause waitTunnelSleep st1)"
        "1000 * (length xs + (if r = Inr () then 1 else 0)) \<le> deadline - u_clock (pause waitTunnelSleep st1) + 999"
        "u_clock (pause waitTunnelSleep st1) + 1000 * length xs \<le> u_clock st'"
        "r \<noteq> Inr () \<longrightarrow> r = Inl (NotReachable addr) \<and> deadline \<le> u_clock st'"
        by blast
      have bound: "1000 * (length (x # xs) + (if r = Inr () then 1 else 0)) \<le> deadline - u_clock st + 999"
        using one_more_dial [of "length xs + (if r = Inr () then 1 else 0)" deadline "u_clock st1" "u_clock st"] xs(3) st1(3) True
        by (simp add: pause_def waitTunnelSleep_def)
      show ?thesis
        by (intro exI [of _ "x # xs"] conjI bound) (use xs st1 in \<open>auto simp: pause_def waitTunnelSleep_def waited_def\<close>)
    qed
  qed
qed

text \<open>C9: Waiting for the tunnel ends, after at most fifteen calls to the server. What it has done is
  exactly this: calls that failed, each followed by a pause of one second, and then, when it
  succeeds, one call that got through and the close of that connection. When it fails no call
  got through, and the fifteen seconds are over.\<close>

theorem waitTunnel_ends:
  assumes "waitTunnel env addr st = (r, st')"
  shows "\<exists>xs. u_clock st + 1000 * length xs \<le> u_clock st' \<and>
    (if r = Inr ()
     then length xs < 15 \<and> u_log st' = u_log st @
       concat (map (\<lambda>x. [(Dial addr, Some x), (Sleep 1000, None)]) xs) @ [(Dial addr, None), (ConnClose, None)]
     else r = Inl (NotReachable addr) \<and> length xs \<le> 15 \<and> u_clock st + 15000 \<le> u_clock st' \<and>
       u_log st' = u_log st @ concat (map (\<lambda>x. [(Dial addr, Some x), (Sleep 1000, None)]) xs))"
proof -
  from waitLoop_log [OF assms [unfolded waitTunnel_def]] obtain xs where
    xs: "u_log st' = u_log st @ waited addr xs r"
    "1000 * (length xs + (if r = Inr () then 1 else 0)) \<le> u_clock st + waitTunnelDuration - u_clock st + 999"
    "u_clock st + 1000 * length xs \<le> u_clock st'"
    "r \<noteq> Inr () \<longrightarrow> r = Inl (NotReachable addr) \<and> u_clock st + waitTunnelDuration \<le> u_clock st'"
    by blast
  then show ?thesis
    by (intro exI [of _ xs]) (auto simp: waitTunnelDuration_def waited_def refused_def split: if_splits)
qed

text \<open>A network on which everything works at once.\<close>

definition quiet_env :: net_env where
  "quiet_env =
     \<lparr>ne_answer = (\<lambda>h e. None), ne_takes = (\<lambda>h e. 0), ne_isTerminal = True, ne_size = (0, 0),
      ne_ParsePrivateKey = Some, ne_ParseAuthorizedKey = Some\<rparr>"

definition quiet_system :: system where
  "quiet_system =
     \<lparr>disk = clean_world, calls = [], ssh_reply = (\<lambda>n q. \<lparr>p_stdout = [], p_stderr = [], p_err = None\<rparr>),
      tty = \<lparr>t_lines = [], t_rest = [], t_broken = False\<rparr>, on_path = (\<lambda>p. True)\<rparr>"

definition quiet_start :: unlocker where
  "quiet_start = \<lparr>u_sys = quiet_system, u_log = [], u_clock = 0\<rparr>"

lemma waitTunnel_ends_witness:
  "\<exists>st'. waitTunnel quiet_env (Addr4 [10, 42, 0, 1], 22) quiet_start = (Inr (), st') \<and>
     (\<exists>xs. length xs < 15 \<and> u_log st' =
        concat (map (\<lambda>x. [(Dial (Addr4 [10, 42, 0, 1], 22), Some x), (Sleep 1000, None)]) xs) @
        [(Dial (Addr4 [10, 42, 0, 1], 22), None), (ConnClose, None)])"
proof -
  let ?a = "(Addr4 [10, 42, 0, 1], 22)"
  obtain st' where w: "waitTunnel quiet_env ?a quiet_start = (Inr (), st')"
    by (simp add: waitTunnel_def waitTunnelDuration_def waitLoop.simps attempt_def quiet_env_def quiet_start_def)
  from waitTunnel_ends [OF w] w show ?thesis by (auto simp: quiet_start_def)
qed

section \<open>Keys for the device\<close>

lemma b64ToHex_encode: "length bs = 32 \<Longrightarrow> b64ToHex (b64_encode bs) = Some (hex_encode bs)"
  by (simp add: b64ToHex_def)

lemma buildIPC_ok:
  "buildIPC wg = Inr ipc \<longleftrightarrow>
     (\<exists>priv pub. b64ToHex (wc_PrivateKey wg) = Some priv \<and> b64ToHex (wc_PeerPubKey wg) = Some pub \<and>
        ipc = unlines (ipc_lines priv pub wg))"
  by (auto simp: buildIPC_def split: option.splits)

lemma b64ToHex_length: "b64ToHex k = Some h \<Longrightarrow> length h = 64"
  by (auto simp: b64ToHex_def length_hex_encode split: option.splits if_splits)

end
