(* ===== verification/Protocol.thy ===== *)
theory Protocol
  imports Tunnel
begin

text \<open>
  The protocol of an unlock as a step relation, and a calculus for steps of the program that follow
  it. The relation says in which order the device, the connections, the clients and the sessions are
  opened and closed; it does not mention the program.
\<close>

section \<open>The protocol\<close>

text \<open>
  How far an unlock is. The interface is created, configured and brought up, and it is down before it
  is closed. On a device that is up there can be a connection, then a client on it, then a session,
  with the terminal raw or not, and a command that runs. A client of which a session was asked for
  is used: the boot-time server serves one session per connection.
\<close>

datatype stage =
    Start | Created | Configured | Up | Down | Closed | Dialed | Conn | Used | Sess bool | Running bool

fun depth :: "stage \<Rightarrow> nat" where
  "depth Start = 0" | "depth Closed = 1" | "depth Created = 2" | "depth Configured = 3" | "depth Down = 4"
| "depth Up = 5" | "depth Dialed = 6" | "depth Used = 7" | "depth Conn = 8"
| "depth (Sess raw) = (if raw then 10 else 9)" | "depth (Running raw) = (if raw then 12 else 11)"

lemma depth_inject: "depth s = depth s' \<longleftrightarrow> s = s'"
  by (cases s; cases s') auto

instantiation stage :: linorder
begin

definition "s \<le> s' \<longleftrightarrow> depth s \<le> depth s'"

definition "s < s' \<longleftrightarrow> depth s < depth s'" for s s' :: stage

instance
  by standard (auto simp: less_eq_stage_def less_stage_def depth_inject)

end

lemma stage_order:
  "Used \<le> s \<longleftrightarrow> s = Used \<or> s = Conn \<or> (\<exists>raw. s = Sess raw \<or> s = Running raw)"
  "s \<le> Configured \<longleftrightarrow> s = Start \<or> s = Closed \<or> s = Created \<or> s = Configured"
  by (cases s; simp add: less_eq_stage_def)+

text \<open>
  The host keys that may be trusted, the commands that may be run and the addresses that may be
  called. A level is a stage and the number of clients made so far; the last one is the open one.
\<close>

record policy =
  may_trust :: "string set"
  may_run :: "string set"
  may_call :: "AddrPort set"

datatype level = At (stage_of: stage) (clients_of: nat)

inductive proto :: "policy \<Rightarrow> level \<Rightarrow> event \<times> string option \<Rightarrow> level \<Rightarrow> bool"
  for P where
  create: "proto P (At Start n) (CreateTUN a, None) (At Created n)"
| create_fails: "proto P (At Start n) (CreateTUN a, Some e) (At Start n)"
| ipc: "proto P (At Created n) (IpcSet c, None) (At Configured n)"
| ipc_fails: "proto P (At Created n) (IpcSet c, Some e) (At Created n)"
| up: "proto P (At Configured n) (DevUp, None) (At Up n)"
| up_fails: "proto P (At Configured n) (DevUp, Some e) (At Configured n)"
| dial: "a \<in> may_call P \<Longrightarrow> proto P (At Up n) (Dial a, None) (At Dialed n)"
| dial_fails: "a \<in> may_call P \<Longrightarrow> proto P (At Up n) (Dial a, Some e) (At Up n)"
| wait_before_retry: "proto P (At Up n) (Sleep 1000, None) (At Up n)"
| hang_up: "proto P (At Dialed n) (ConnClose, None) (At Up n)"
| connect: "k \<in> may_trust P \<Longrightarrow> proto P (At Dialed n) (Handshake k s, None) (At Conn (Suc n))"
| connect_fails: "k \<in> may_trust P \<Longrightarrow> proto P (At Dialed n) (Handshake k s, Some e) (At Dialed n)"
| session: "proto P (At Conn n) (NewSession n, None) (At (Sess False) n)"
| session_fails: "proto P (At Conn n) (NewSession n, Some e) (At Used n)"
| pty: "proto P (At (Sess False) n) (RequestPty h w, x) (At (Sess False) n)"
| raw: "proto P (At (Sess False) n) (MakeRaw, None) (At (Sess True) n)"
| raw_fails: "proto P (At (Sess False) n) (MakeRaw, Some e) (At (Sess False) n)"
| start: "c \<in> may_run P \<Longrightarrow> proto P (At (Sess raw) n) (StartCmd c, None) (At (Running raw) n)"
| start_fails: "c \<in> may_run P \<Longrightarrow> proto P (At (Sess raw) n) (StartCmd c, Some e) (At (Sess raw) n)"
| finish: "proto P (At (Running raw) n) (WaitCmd, x) (At (Sess raw) n)"
| restore: "proto P (At (Sess True) n) (Restore, None) (At (Sess False) n)"
| end_session: "proto P (At (Sess False) n) (SessionClose, None) (At Used n)"
| disconnect: "s = Conn \<or> s = Used \<Longrightarrow> proto P (At s n) (ClientClose n, None) (At Up n)"
| close_again: "k \<le> n \<Longrightarrow> proto P (At Up n) (ClientClose k, None) (At Up n)"
| down: "proto P (At Up n) (DevDown, None) (At Down n)"
| close: "proto P (At Down n) (DevClose, None) (At Closed n)"

inductive accepts :: "policy \<Rightarrow> level \<Rightarrow> history \<Rightarrow> level \<Rightarrow> bool"
  for P where
  stop: "accepts P l [] l"
| step: "proto P l e l1 \<Longrightarrow> accepts P l1 h l2 \<Longrightarrow> accepts P l (e # h) l2"

inductive_cases proto_StartE: "proto P l (StartCmd c, x) l'"
inductive_cases accepts_ConsE: "accepts P l (e # h) l'"
inductive_cases accepts_NilE: "accepts P l [] l'"

lemma accepts_append: "accepts P l h l1 \<Longrightarrow> accepts P l1 h' l2 \<Longrightarrow> accepts P l (h @ h') l2"
  by (induction rule: accepts.induct) (auto intro: accepts.step)

lemma accepts_one: "proto P l e l1 \<Longrightarrow> accepts P l [e] l1"
  by (blast intro: accepts.intros)

lemma accepts_split: "accepts P l (h @ h') l2 \<Longrightarrow> \<exists>l1. accepts P l h l1 \<and> accepts P l1 h' l2"
proof (induction h arbitrary: l)
  case (Cons e h)
  from Cons.prems obtain l1 where "proto P l e l1" "accepts P l1 (h @ h') l2"
    by (auto elim: accepts_ConsE)
  with Cons.IH show ?case by (blast intro: accepts.step)
qed (auto intro: accepts.stop)

text \<open>The number of a level counts the clients.\<close>

lemma proto_clients: "proto P l e l' \<Longrightarrow> clients_of l' = clients_of l + clients [e]"
  by (induction rule: proto.induct) simp_all

lemma accepts_clients: "accepts P l h l' \<Longrightarrow> clients_of l' = clients_of l + clients h"
proof (induction rule: accepts.induct)
  case (step l e l1 h l2)
  have "clients (e # h) = clients [e] + clients h" by (cases e) simp
  with step proto_clients [OF step(1)] show ?case by simp
qed simp

text \<open>A client comes from a handshake with a trusted key, and it goes when it is closed.\<close>

lemma proto_enters:
  "proto P l e l' \<Longrightarrow> Used \<le> stage_of l' \<Longrightarrow> \<not> Used \<le> stage_of l \<Longrightarrow> \<exists>k s. e = (Handshake k s, None) \<and> k \<in> may_trust P"
  by (induction rule: proto.induct) (auto simp: stage_order)

lemma proto_stays:
  "proto P l e l' \<Longrightarrow> Used \<le> stage_of l' \<Longrightarrow> Used \<le> stage_of l \<Longrightarrow> fst e \<noteq> ClientClose k"
  by (induction rule: proto.induct) (auto simp: stage_order)

lemma connected_by_handshake:
  assumes "accepts P l h l'" "\<not> Used \<le> stage_of l" "Used \<le> stage_of l'"
  shows "\<exists>h1 k s h2. h = h1 @ (Handshake k s, None) # h2 \<and> k \<in> may_trust P \<and>
    (\<forall>n x. (ClientClose n, x) \<notin> set h2)"
  using assms
proof (induction h arbitrary: l' rule: rev_induct)
  case Nil
  then show ?case by (auto elim: accepts_NilE)
next
  case (snoc e h)
  from accepts_split [OF snoc.prems(1)] obtain l1 where h: "accepts P l h l1" and e: "proto P l1 e l'"
    by (auto elim!: accepts_ConsE accepts_NilE)
  show ?case
  proof (cases "Used \<le> stage_of l1")
    case False
    with proto_enters [OF e snoc.prems(3)] obtain k s where "e = (Handshake k s, None)" "k \<in> may_trust P" by blast
    then show ?thesis by (intro exI [of _ h] exI [of _ k] exI [of _ s] exI [of _ "[]"]) simp
  next
    case True
    with snoc.IH [OF h snoc.prems(2)] obtain h1 k s h2 where
      "h = h1 @ (Handshake k s, None) # h2" "k \<in> may_trust P" "\<forall>n x. (ClientClose n, x) \<notin> set h2" by blast
    moreover have "fst e \<noteq> ClientClose n" for n
      by (rule proto_stays [OF e snoc.prems(3) True])
    ultimately show ?thesis
      by (intro exI [of _ h1] exI [of _ k] exI [of _ s] exI [of _ "h2 @ [e]"]) (cases e, auto)
  qed
qed

text \<open>From the moment the device is up, a run does not get back to the stages before.\<close>

definition setting_up :: "stage \<Rightarrow> bool" where
  "setting_up s \<longleftrightarrow> s = Start \<or> s = Created \<or> s = Configured"

lemma accepts_set_up: "accepts P l h l' \<Longrightarrow> \<not> setting_up (stage_of l) \<Longrightarrow> \<not> setting_up (stage_of l')"
proof (induction rule: accepts.induct)
  case (step l e l1 h l2)
  from step(1,4) have "\<not> setting_up (stage_of l1)" by (induction rule: proto.induct) (auto simp: setting_up_def)
  with step.IH show ?case .
qed

lemma accepts_DevUp:
  assumes "accepts P l h l'" "(DevUp, None) \<in> set h"
  shows "\<not> setting_up (stage_of l')"
proof -
  obtain h1 h2 where "h = h1 @ (DevUp, None) # h2" using assms(2) by (auto simp: in_set_conv_decomp)
  with assms(1) obtain l1 l2 where "proto P l1 (DevUp, None) l2" and rest: "accepts P l2 h2 l'"
    by (auto dest!: accepts_split elim!: accepts_ConsE)
  then have "\<not> setting_up (stage_of l2)" by (auto simp: setting_up_def elim: proto.cases)
  with rest show ?thesis by (rule accepts_set_up)
qed

section \<open>Steps that follow the protocol\<close>

text \<open>
  \<open>at_level pin nd l st\<close>: the node \<open>nd\<close> is at the path of the pinned key, and the log has the clients
  that the level counts. \<open>reaches\<close> adds the run of the protocol between two states.
\<close>

definition at_level :: "string \<Rightarrow> node option \<Rightarrow> level \<Rightarrow> unlocker \<Rightarrow> bool" where
  "at_level pin nd l st \<longleftrightarrow> node_at (disk (u_sys st)) pin = nd \<and> clients (u_log st) = clients_of l"

definition reaches :: "string \<Rightarrow> node option \<Rightarrow> policy \<Rightarrow> level \<Rightarrow> unlocker \<Rightarrow> level \<Rightarrow> unlocker \<Rightarrow> bool" where
  "reaches pin nd P l st l' st' \<longleftrightarrow>
     at_level pin nd l' st' \<and> (\<exists>h. u_log st' = u_log st @ h \<and> accepts P l h l')"

lemma reaches_refl: "at_level pin nd l st \<Longrightarrow> reaches pin nd P l st l st"
  by (auto simp: reaches_def intro: accepts.stop)

lemma reaches_trans:
  assumes "reaches pin nd P l st l1 st1" "reaches pin nd P l1 st1 l2 st2"
  shows "reaches pin nd P l st l2 st2"
proof -
  from assms obtain h1 h2 where "u_log st1 = u_log st @ h1" "accepts P l h1 l1"
    "u_log st2 = u_log st1 @ h2" "accepts P l1 h2 l2" "at_level pin nd l2 st2"
    unfolding reaches_def by blast
  then show ?thesis unfolding reaches_def by (auto intro: accepts_append)
qed

lemma reaches_level: "reaches pin nd P l st l' st' \<Longrightarrow> at_level pin nd l' st'"
  by (simp add: reaches_def)

lemma reaches_event:
  assumes "at_level pin nd l st" "proto P l (ev, x) l'" "u_log st' = u_log st @ [(ev, x)]" "u_sys st' = u_sys st"
  shows "reaches pin nd P l st l' st'"
  using assms proto_clients [OF assms(2)] by (auto simp: reaches_def at_level_def intro: accepts_one)

text \<open>
  \<open>moves pin nd P l m Q E\<close>: from the level \<open>l\<close> the step \<open>m\<close> runs the protocol to a level that \<open>Q\<close>
  allows with its result, or \<open>E\<close> with its error; \<open>noted\<close> is the same for calls that cannot fail.
\<close>

definition noted :: "string \<Rightarrow> node option \<Rightarrow> policy \<Rightarrow> level \<Rightarrow> (unlocker \<Rightarrow> unlocker) \<Rightarrow> level \<Rightarrow> bool" where
  "noted pin nd P l u l' \<longleftrightarrow> (\<forall>st. at_level pin nd l st \<longrightarrow> reaches pin nd P l st l' (u st))"

definition moves ::
  "string \<Rightarrow> node option \<Rightarrow> policy \<Rightarrow> level \<Rightarrow> (unlocker, 'e, 'a) step \<Rightarrow>
     ('a \<Rightarrow> level \<Rightarrow> bool) \<Rightarrow> ('e \<Rightarrow> level \<Rightarrow> bool) \<Rightarrow> bool" where
  "moves pin nd P l m Q E \<longleftrightarrow>
     (\<forall>st r st'. at_level pin nd l st \<longrightarrow> m st = (r, st') \<longrightarrow>
        (\<exists>l'. reaches pin nd P l st l' st' \<and> (case r of Inl e \<Rightarrow> E e l' | Inr a \<Rightarrow> Q a l')))"

lemma movesI:
  assumes "\<And>st r st'. at_level pin nd l st \<Longrightarrow> m st = (r, st') \<Longrightarrow>
    \<exists>l'. reaches pin nd P l st l' st' \<and> (case r of Inl e \<Rightarrow> E e l' | Inr a \<Rightarrow> Q a l')"
  shows "moves pin nd P l m Q E"
  using assms by (simp add: moves_def)

lemma movesD:
  assumes "moves pin nd P l m Q E" "at_level pin nd l st" "m st = (r, st')"
  obtains l' where "reaches pin nd P l st l' st'" "case r of Inl e \<Rightarrow> E e l' | Inr a \<Rightarrow> Q a l'"
  using assms unfolding moves_def by blast

lemma notedD: "noted pin nd P l u l' \<Longrightarrow> at_level pin nd l st \<Longrightarrow> reaches pin nd P l st l' (u st)"
  by (simp add: noted_def)

lemma moves_conseq:
  assumes "moves pin nd P l m Q E" "\<And>a l'. Q a l' \<Longrightarrow> Q' a l'" "\<And>e l'. E e l' \<Longrightarrow> E' e l'"
  shows "moves pin nd P l m Q' E'"
proof (rule movesI)
  fix st r st' assume "at_level pin nd l st" "m st = (r, st')"
  with assms(1) obtain l' where "reaches pin nd P l st l' st'" "case r of Inl e \<Rightarrow> E e l' | Inr a \<Rightarrow> Q a l'"
    by (rule movesD)
  with assms(2,3) show "\<exists>l'. reaches pin nd P l st l' st' \<and> (case r of Inl e \<Rightarrow> E' e l' | Inr a \<Rightarrow> Q' a l')"
    by (cases r) auto
qed

lemma moves_return: "Q a l \<Longrightarrow> moves pin nd P l (returnS a) Q E"
  by (rule movesI) (auto intro: reaches_refl)

lemma moves_lift:
  "(\<And>a. r = Inr a \<Longrightarrow> Q a l) \<Longrightarrow> (\<And>e. r = Inl e \<Longrightarrow> E e l) \<Longrightarrow> moves pin nd P l (liftS r) Q E"
  by (rule movesI) (auto intro!: exI [of _ l] reaches_refl split: sum.split)

lemma moves_wrap:
  assumes "moves pin nd P l m Q (\<lambda>e. E (g e))"
  shows "moves pin nd P l (wrapS g m) Q E"
proof (rule movesI)
  fix st r st' assume l: "at_level pin nd l st" and run: "wrapS g m st = (r, st')"
  obtain r1 where m: "m st = (r1, st')" "r = wrapE g r1" using run by (auto simp: wrapS_def split: prod.splits)
  from assms l m(1) obtain l' where "reaches pin nd P l st l' st'" "case r1 of Inl e \<Rightarrow> E (g e) l' | Inr a \<Rightarrow> Q a l'"
    by (rule movesD)
  with m(2) show "\<exists>l'. reaches pin nd P l st l' st' \<and> (case r of Inl e \<Rightarrow> E e l' | Inr a \<Rightarrow> Q a l')"
    by (cases r1) auto
qed

lemma moves_case:
  assumes "moves pin nd P l m Q0 E0" "\<And>a l1. Q0 a l1 \<Longrightarrow> moves pin nd P l1 (f a) Q E"
    "\<And>e l1. E0 e l1 \<Longrightarrow> moves pin nd P l1 (g e) Q E"
  shows "moves pin nd P l (\<lambda>st. case m st of (Inl e, st') \<Rightarrow> g e st' | (Inr a, st') \<Rightarrow> f a st') Q E"
proof (rule movesI)
  fix st r st' assume l: "at_level pin nd l st"
    and run: "(case m st of (Inl e, st') \<Rightarrow> g e st' | (Inr a, st') \<Rightarrow> f a st') = (r, st')"
  obtain r1 st1 where m: "m st = (r1, st1)" by (cases "m st")
  from assms(1) l m obtain l1 where l1: "reaches pin nd P l st l1 st1" "case r1 of Inl e \<Rightarrow> E0 e l1 | Inr a \<Rightarrow> Q0 a l1"
    by (rule movesD)
  have "\<exists>k. moves pin nd P l1 k Q E \<and> k st1 = (r, st')"
    using assms(2,3) l1(2) run m
    by (cases r1) (auto intro!: exI [of _ "case r1 of Inl e \<Rightarrow> g e | Inr a \<Rightarrow> f a"])
  then obtain k where k: "moves pin nd P l1 k Q E" "k st1 = (r, st')" by blast
  from k(1) reaches_level [OF l1(1)] k(2) obtain l2 where "reaches pin nd P l1 st1 l2 st'"
    "case r of Inl e \<Rightarrow> E e l2 | Inr a \<Rightarrow> Q a l2"
    by (rule movesD)
  with reaches_trans [OF l1(1)] show "\<exists>l'. reaches pin nd P l st l' st' \<and> (case r of Inl e \<Rightarrow> E e l' | Inr a \<Rightarrow> Q a l')"
    by blast
qed

lemma moves_then:
  assumes "moves pin nd P l m Q0 E" "\<And>a l1. Q0 a l1 \<Longrightarrow> moves pin nd P l1 (f a) Q E"
  shows "moves pin nd P l (thenS m f) Q E"
proof -
  have "moves pin nd P l1 (\<lambda>st. (Inl e, st)) Q E" if "E e l1" for e l1
    using that by (intro movesI) (auto intro: reaches_refl)
  from moves_case [OF assms(1,2) this] show ?thesis by (simp add: thenS_def [abs_def])
qed

lemma moves_finally:
  assumes "moves pin nd P l m Q0 E0"
    "\<And>a l1. Q0 a l1 \<Longrightarrow> \<exists>l2. noted pin nd P l1 u l2 \<and> Q a l2"
    "\<And>e l1. E0 e l1 \<Longrightarrow> \<exists>l2. noted pin nd P l1 u l2 \<and> E e l2"
  shows "moves pin nd P l (finallyS m u) Q E"
proof (rule movesI)
  fix st r st' assume l: "at_level pin nd l st" and run: "finallyS m u st = (r, st')"
  obtain st1 where m: "m st = (r, st1)" "st' = u st1" using run by (auto simp: finallyS_def split: prod.splits)
  from assms(1) l m(1) obtain l1 where l1: "reaches pin nd P l st l1 st1" "case r of Inl e \<Rightarrow> E0 e l1 | Inr a \<Rightarrow> Q0 a l1"
    by (rule movesD)
  have "\<exists>l2. noted pin nd P l1 u l2 \<and> (case r of Inl e \<Rightarrow> E e l2 | Inr a \<Rightarrow> Q a l2)"
    using assms(2,3) l1(2) by (cases r) auto
  then obtain l2 where u: "noted pin nd P l1 u l2" and post: "case r of Inl e \<Rightarrow> E e l2 | Inr a \<Rightarrow> Q a l2" by blast
  have "reaches pin nd P l st l2 st'"
    unfolding m(2) by (rule reaches_trans [OF l1(1) notedD [OF u reaches_level [OF l1(1)]]])
  with post show "\<exists>l'. reaches pin nd P l st l' st' \<and> (case r of Inl e \<Rightarrow> E e l' | Inr a \<Rightarrow> Q a l')" by blast
qed

lemma moves_undo:
  assumes "moves pin nd P l m Q E0" "\<And>e l1. E0 e l1 \<Longrightarrow> \<exists>l2. noted pin nd P l1 u l2 \<and> E e l2"
  shows "moves pin nd P l (undoS m u) Q E"
proof (rule movesI)
  fix st r st' assume l: "at_level pin nd l st" and run: "undoS m u st = (r, st')"
  obtain st1 where m: "m st = (r, st1)" "st' = (case r of Inl e \<Rightarrow> u st1 | Inr a \<Rightarrow> st1)"
    using run by (auto simp: undoS_def split: prod.splits sum.splits)
  from assms(1) l m(1) obtain l1 where l1: "reaches pin nd P l st l1 st1" "case r of Inl e \<Rightarrow> E0 e l1 | Inr a \<Rightarrow> Q a l1"
    by (rule movesD)
  show "\<exists>l'. reaches pin nd P l st l' st' \<and> (case r of Inl e \<Rightarrow> E e l' | Inr a \<Rightarrow> Q a l')"
  proof (cases r)
    case (Inl e)
    with assms(2) l1(2) obtain l2 where u: "noted pin nd P l1 u l2" "E e l2" by auto
    have "reaches pin nd P l st l2 (u st1)"
      by (rule reaches_trans [OF l1(1) notedD [OF u(1) reaches_level [OF l1(1)]]])
    with u(2) Inl m(2) show ?thesis by auto
  qed (use l1 m(2) in auto)
qed

lemma moves_attempt:
  assumes "proto P l (ev, None) good" "\<And>x. proto P l (ev, Some x) bad" "Q () good" "\<And>x. E (err x) bad"
  shows "moves pin nd P l (attempt env ev err) Q E"
proof (rule movesI)
  fix st r st' assume l: "at_level pin nd l st" and run: "attempt env ev err st = (r, st')"
  let ?x = "ne_answer env (u_log st) ev"
  have st': "u_log st' = u_log st @ [(ev, ?x)]" "u_sys st' = u_sys st"
    and r: "r = (case ?x of None \<Rightarrow> Inr () | Some x \<Rightarrow> Inl (err x))"
    using run by (auto simp: attempt_def Let_def)
  have "proto P l (ev, ?x) (case ?x of None \<Rightarrow> good | Some x \<Rightarrow> bad)"
    using assms(1,2) by (cases ?x) simp_all
  from reaches_event [OF l this st'] show "\<exists>l'. reaches pin nd P l st l' st' \<and> (case r of Inl e \<Rightarrow> E e l' | Inr a \<Rightarrow> Q a l')"
    using assms(3,4) r by (cases ?x) auto
qed

lemma noted_event: "proto P l (ev, None) l' \<Longrightarrow> noted pin nd P l (note_event ev) l'"
  unfolding noted_def by (auto intro!: reaches_event simp: note_event_def)

lemma noted_id: "noted pin nd P l id l"
  by (simp add: noted_def reaches_refl)

lemma noted_comp: "noted pin nd P l u l1 \<Longrightarrow> noted pin nd P l1 v l2 \<Longrightarrow> noted pin nd P l (\<lambda>st. v (u st)) l2"
  unfolding noted_def using reaches_trans reaches_level by blast

text \<open>A step of the system that leaves the pinned key.\<close>

lemma moves_onSys:
  assumes "\<And>s r s'. m s = (r, s') \<Longrightarrow> node_at (disk s') pin = node_at (disk s) pin"
    and "\<And>s a s'. node_at (disk s) pin = nd \<Longrightarrow> m s = (Inr a, s') \<Longrightarrow> Q a l"
    and "\<And>s e s'. m s = (Inl e, s') \<Longrightarrow> E e l"
  shows "moves pin nd P l (onSys m) Q E"
proof (rule movesI)
  fix st r st' assume l: "at_level pin nd l st" and run: "onSys m st = (r, st')"
  obtain s' where m: "m (u_sys st) = (r, s')" "st' = st\<lparr>u_sys := s'\<rparr>"
    using run by (auto simp: onSys_def split: prod.splits)
  have "reaches pin nd P l st l st'"
    using l assms(1) [OF m(1)] m(2) by (auto simp: reaches_def at_level_def intro: accepts.stop)
  moreover have "case r of Inl e \<Rightarrow> E e l | Inr a \<Rightarrow> Q a l"
    using assms(2,3) m(1) l by (cases r) (auto simp: at_level_def)
  ultimately show "\<exists>l'. reaches pin nd P l st l' st' \<and> (case r of Inl e \<Rightarrow> E e l' | Inr a \<Rightarrow> Q a l')" by blast
qed

end
