(* ===== verification/Rootless.thy ===== *)
theory Rootless
  imports Tunnel Config
begin

text \<open>
  Unlocking without root, \<open>contrib/rootless/rootless.go\<close>: the SSH session with the boot-time
  server over the tunnel, the change of the passphrase, and the way around when the server has
  already booted.
\<close>

section \<open>Keys\<close>

definition loadSSHKey :: "net_env \<Rightarrow> string \<Rightarrow> (unlocker, unlock_error, string) step" where
  "loadSSHKey env path =
     thenS (wrapS ReadSSHKey (onSys (onDisk (os_ReadFile path)))) (\<lambda>data.
     case ne_ParsePrivateKey env data of
       None \<Rightarrow> liftS (Inl ParseSSHKey) | Some signer \<Rightarrow> returnS signer)"

definition loadPinnedKey :: "net_env \<Rightarrow> string \<Rightarrow> (unlocker, unlock_error, string) step" where
  "loadPinnedKey env path =
     thenS (wrapS PinUnreadable (onSys (onDisk (os_ReadFile path)))) (\<lambda>data.
     case ne_ParseAuthorizedKey env data of
       None \<Rightarrow> liftS (Inl PinUnparsable) | Some key \<Rightarrow> returnS key)"

section \<open>Sessions\<close>

text \<open>
  The handshake gets the host key it must see (\<open>ssh.FixedHostKey\<close>) and the signer. A client is
  the number of its handshake among those that succeeded.
\<close>

definition dialSSH :: "net_env \<Rightarrow> AddrPort \<Rightarrow> string \<Rightarrow> (unlocker, unlock_error, nat) step" where
  "dialSSH env addr outputDir =
     thenS (loadSSHKey env (outputDir @ ''/client_auth_ed25519'')) (\<lambda>signer.
     thenS (loadPinnedKey env (outputDir @ ''/dropbear_host_key.pub'')) (\<lambda>hostKey.
     thenS (attempt env (Dial addr) DialFailed) (\<lambda>_.
     thenS (undoS (attempt env (Handshake hostKey signer) HandshakeFailed) (note_event ConnClose)) (\<lambda>_ st.
     (Inr (clients (u_log st)), st)))))"

text \<open>Whether the terminal is in raw mode afterwards; that it cannot be is not an error.\<close>

definition attachPTY :: "net_env \<Rightarrow> (unlocker, unlock_error, bool) step" where
  "attachPTY env =
     (let (width, height) = (if fst (ne_size env) = 0 then (80, 24) else ne_size env)
      in thenS (attempt env (RequestPty height width) PTYFailed) (\<lambda>_ st.
           if \<not> ne_isTerminal env then (Inr False, st)
           else case attempt env MakeRaw PTYFailed st of
                  (Inl _, st') \<Rightarrow> (Inr False, st')
                | (Inr _, st') \<Rightarrow> (Inr True, st')))"

definition runPTY :: "net_env \<Rightarrow> nat \<Rightarrow> string \<Rightarrow> (unlocker, unlock_error, unit) step" where
  "runPTY env client cmd =
     thenS (attempt env (NewSession client) NoSession) (\<lambda>_.
     finallyS
       (thenS (attachPTY env) (\<lambda>raw.
        finallyS
          (thenS (attempt env (StartCmd cmd) StartFailed) (\<lambda>_. attempt env WaitCmd CommandEnded))
          (if raw then note_event Restore else id)))
       (note_event SessionClose))"

definition unlock_cmd :: string where "unlock_cmd = ''cryptroot-unlock''"

definition runUnlock :: "net_env \<Rightarrow> nat \<Rightarrow> (unlocker, unlock_error, unit) step" where
  "runUnlock env client = wrapS CryptrootFailed (runPTY env client unlock_cmd)"

section \<open>Changing the passphrase\<close>

text \<open>
  The verb \<open>%q\<close> of \<open>fmt\<close> on ASCII text; a byte beyond ASCII is written as in text that is not
  UTF-8, and no device name of a valid configuration has one.
\<close>

definition hex2 :: "nat \<Rightarrow> string" where
  "hex2 n = [digit_char (n div 16), digit_char (n mod 16)]"

definition go_quote_char :: "char \<Rightarrow> string" where
  "go_quote_char c =
     (let n = of_char c :: nat
      in if c = dq \<or> c = bslash then [bslash, c]
         else if 32 \<le> n \<and> n < 127 then [c]
         else case map_of [(7, CHR ''a''), (8, CHR ''b''), (12, CHR ''f''), (10, CHR ''n''), (13, CHR ''r''),
                           (9, CHR ''t''), (11, CHR ''v'')] n of
                Some e \<Rightarrow> [bslash, e]
              | None \<Rightarrow> [bslash, CHR ''x''] @ hex2 n)"

definition go_quote :: "string \<Rightarrow> string" where
  "go_quote s = [dq] @ replace_bytes go_quote_char s @ [dq]"

definition sbinPath :: string where
  "sbinPath = ''PATH=/usr/local/sbin:/usr/sbin:/sbin:$PATH''"

definition detect_luks_lines :: "string list" where
  "detect_luks_lines =
     [''DEV='' @ [dq, dq],
      ''if [ -f /etc/crypttab ]; then'',
      ''    SRC=$(awk '' @ [sq] @ ''NF && !/^#/{print $2; exit}'' @ [sq] @ '' /etc/crypttab)'',
      ''    case '' @ [dq] @ ''$SRC'' @ [dq] @ '' in'',
      ''      UUID=*) DEV=$(blkid -U '' @ [dq] @ ''${SRC#UUID=}'' @ [dq] @
        '' 2>/dev/null); [ -z '' @ [dq] @ ''$DEV'' @ [dq] @ '' ] && DEV='' @ [dq] @
        ''/dev/disk/by-uuid/${SRC#UUID=}'' @ [dq] @ '' ;;'',
      ''      PARTUUID=*) DEV='' @ [dq] @ ''/dev/disk/by-partuuid/${SRC#PARTUUID=}'' @ [dq] @
        '' ;;'',
      ''      LABEL=*) DEV='' @ [dq] @ ''/dev/disk/by-label/${SRC#LABEL=}'' @ [dq] @ '' ;;'',
      ''      PARTLABEL=*) DEV='' @ [dq] @ ''/dev/disk/by-partlabel/${SRC#PARTLABEL=}'' @ [dq] @
        '' ;;'',
      ''      *) DEV='' @ [dq] @ ''$SRC'' @ [dq] @ '' ;;'',
      ''    esac'',
      ''fi'',
      ''if [ -z '' @ [dq] @ ''$DEV'' @ [dq] @ '' ]; then'',
      ''    _ALL=$(blkid -t TYPE=crypto_LUKS -o device 2>/dev/null)'',
      ''    _COUNT=$(printf '' @ [sq] @ ''%s'' @ [bslash] @ ''n'' @ [sq] @ '' '' @ [dq] @
        ''$_ALL'' @ [dq] @ '' | grep -c . 2>/dev/null || echo 0)'',
      ''    DEV=$(printf '' @ [sq] @ ''%s'' @ [bslash] @ ''n'' @ [sq] @ '' '' @ [dq] @ ''$_ALL'' @
        [dq] @ '' | head -1)'',
      ''    if [ '' @ [dq] @ ''$_COUNT'' @ [dq] @ '' -gt 1 ]; then'',
      ''        echo '' @ [dq] @
        ''[ubo] WARNING: multiple LUKS devices found; using $DEV (set luks.device in config to be explicit)'' @
        [dq] @ '' >&2'',
      ''    fi'',
      ''fi'',
      ''test -n '' @ [dq] @ ''$DEV'' @ [dq] @ '' || { echo '' @ [dq] @
        ''could not determine LUKS device; set luks.device in config'' @ [dq] @ '' >&2; exit 1; }'',
      ''echo '' @ [dq] @ ''[ubo] LUKS device: $DEV'' @ [dq] @ '' >&2'',
      ''cryptsetup luksChangeKey '' @ [dq] @ ''$DEV'' @ [dq]]"

definition buildChangeLUKSCmd :: "config \<Rightarrow> string" where
  "buildChangeLUKSCmd cfg =
     (if luks_Device (LUKS cfg) \<noteq> []
      then sbinPath @ '' cryptsetup luksChangeKey '' @ go_quote (luks_Device (LUKS cfg))
      else join (sbinPath # detect_luks_lines) [nl])"

text \<open>The answer is read from the terminal; at its end, or when it cannot be read, there is none.\<close>

definition runChangeKey :: "net_env \<Rightarrow> nat \<Rightarrow> config \<Rightarrow> (unlocker, unlock_error, bool) step" where
  "runChangeKey env client cfg =
     thenS (wrapS ChangeKeyFailed (runPTY env client (buildChangeLUKSCmd cfg))) (\<lambda>_ st.
       let ((line, _), s) = ttyLine (u_sys st); ans = trim_space line
       in (Inr (ans = [] \<or> ans = ''y'' \<or> ans = ''Y''), st\<lparr>u_sys := s\<rparr>))"

definition handleChangeAndUnlock ::
  "net_env \<Rightarrow> nat \<Rightarrow> AddrPort \<Rightarrow> string \<Rightarrow> config \<Rightarrow> (unlocker, unlock_error, unit) step" where
  "handleChangeAndUnlock env client addr outputDir cfg =
     thenS (finallyS (runChangeKey env client cfg) (note_event (ClientClose client))) (\<lambda>proceed.
       if \<not> proceed then returnS ()
       else thenS (wrapS ReconnectFailed (dialSSH env addr outputDir)) (\<lambda>newClient.
            finallyS (runUnlock env newClient) (note_event (ClientClose newClient))))"

definition performUnlock ::
  "net_env \<Rightarrow> AddrPort \<Rightarrow> string \<Rightarrow> config \<Rightarrow> bool \<Rightarrow> (unlocker, unlock_error, unit) step" where
  "performUnlock env addr outputDir cfg changeKey =
     thenS (dialSSH env addr outputDir) (\<lambda>client.
     finallyS
       (if changeKey then handleChangeAndUnlock env client addr outputDir cfg else runUnlock env client)
       (note_event (ClientClose client)))"

section \<open>The running system\<close>

definition sshPort :: "config \<Rightarrow> int" where
  "sshPort cfg = (if ssh_Port (SSH cfg) = 0 then 22 else ssh_Port (SSH cfg))"

definition sshUser :: "config \<Rightarrow> string" where
  "sshUser cfg = (if ssh_User (SSH cfg) = [] then ''root'' else ssh_User (SSH cfg))"

definition direct_opts :: "config \<Rightarrow> string \<Rightarrow> ConnectOptions" where
  "direct_opts cfg outputDir =
     \<lparr>co_Host = Host cfg, co_Port = sshPort cfg, co_User = sshUser cfg, co_KeyPath = ssh_Key (SSH cfg),
      co_KnownHostsPath = outputDir @ ''/known_hosts'', co_PinnedKeyPath = [], co_Sudo = ssh_Sudo (SSH cfg),
      co_ProxyJump = ssh_ProxyJump (SSH cfg)\<rparr>"

text \<open>The error of the deferred \<open>Close\<close> is dropped.\<close>

definition closeClient :: "Client \<Rightarrow> system \<Rightarrow> system" where
  "closeClient c s = s\<lparr>disk := snd (snd (Close c (disk s)))\<rparr>"

definition changeKeyDirectSSH :: "config \<Rightarrow> string \<Rightarrow> (system, unlock_error, unit) step" where
  "changeKeyDirectSSH cfg outputDir =
     thenS (wrapS DirectSSHFailed (onDisk (Connect (Some (direct_opts cfg outputDir))))) (\<lambda>client.
     finallyS (wrapS InteractiveFailed (InteractiveSession client (buildChangeLUKSCmd cfg)))
       (closeClient client))"

definition handleTunnelFailure ::
  "config \<Rightarrow> string \<Rightarrow> bool \<Rightarrow> unlock_error \<Rightarrow> (unlocker, unlock_error, unit) step" where
  "handleTunnelFailure cfg outputDir changeKey tunnelErr =
     (if \<not> changeKey then liftS (Inl tunnelErr) else onSys (changeKeyDirectSSH cfg outputDir))"

section \<open>Unlock\<close>

definition server_addr :: "config \<Rightarrow> string" where
  "server_addr cfg = WGServerTunnelIP cfg @ '':'' @ itoa (db_Port (Dropbear cfg))"

definition unlockOverTunnel :: "net_env \<Rightarrow> config \<Rightarrow> string \<Rightarrow> bool \<Rightarrow> (unlocker, unlock_error, unit) step" where
  "unlockOverTunnel env cfg outputDir changeKey =
     (case ParseAddrPort (server_addr cfg) of
        None \<Rightarrow> liftS (Inl (BadServerAddr (server_addr cfg)))
      | Some addr \<Rightarrow> (\<lambda>st.
          case waitTunnel env addr st of
            (Inl e, st') \<Rightarrow> handleTunnelFailure cfg outputDir changeKey e st'
          | (Inr _, st') \<Rightarrow> performUnlock env addr outputDir cfg changeKey st'))"

definition Unlock :: "net_env \<Rightarrow> config \<Rightarrow> string \<Rightarrow> bool \<Rightarrow> (unlocker, unlock_error, unit) step" where
  "Unlock env cfg outputDir changeKey =
     thenS (wrapS WGConfFailed (onSys (onDisk (parseWGConfig (outputDir @ ''/client_wg.conf''))))) (\<lambda>wg.
     thenS (setupWGDevice env wg) (\<lambda>_.
     finallyS (unlockOverTunnel env cfg outputDir changeKey)
       (\<lambda>st. note_event DevClose (note_event DevDown st))))"

end
