(* ===== verification/Unlock_Run.thy ===== *)
theory Unlock_Run
  imports Rootless
begin

text \<open>
  An unlock on which nothing fails: with the files in place and a network, a terminal and libraries
  that answer without errors, \<open>Unlock\<close> gets to its end, and this is what it does on the way.
\<close>

section \<open>Steps that do not fail\<close>

text \<open>Every call of the libraries succeeds; how long each takes does not matter.\<close>

definition calm :: "net_env \<Rightarrow> bool" where
  "calm env \<longleftrightarrow> ne_answer env = (\<lambda>h e. None)"

text \<open>The disk works and holds these nodes.\<close>

definition sound_disk :: "(string \<Rightarrow> node option) \<Rightarrow> unlocker \<Rightarrow> bool" where
  "sound_disk nodes st \<longleftrightarrow> healthy (disk (u_sys st)) \<and> node_at (disk (u_sys st)) = nodes"

text \<open>
  \<open>calmly nodes n m evs a\<close>: after \<open>n\<close> clients the step \<open>m\<close> returns \<open>a\<close> after these events and leaves
  the disk as it is.
\<close>

definition calmly ::
  "(string \<Rightarrow> node option) \<Rightarrow> nat \<Rightarrow> (unlocker, 'e, 'a) step \<Rightarrow> event list \<Rightarrow> 'a \<Rightarrow> bool" where
  "calmly nodes n m evs a \<longleftrightarrow>
     (\<forall>st. sound_disk nodes st \<longrightarrow> clients (u_log st) = n \<longrightarrow>
        (\<exists>st'. m st = (Inr a, st') \<and> sound_disk nodes st' \<and> u_log st' = u_log st @ map (\<lambda>e. (e, None)) evs))"

text \<open>The clients that events without errors make.\<close>

definition made :: "event list \<Rightarrow> nat" where
  "made evs = clients (map (\<lambda>e. (e, None)) evs)"

lemma made_simps [simp]:
  "made [] = 0" "made (es @ fs) = made es + made fs"
  "made (e # es) = (case e of Handshake k s \<Rightarrow> Suc (made es) | _ \<Rightarrow> made es)"
  by (simp_all add: made_def split: event.split)

definition logs :: "(unlocker \<Rightarrow> unlocker) \<Rightarrow> event list \<Rightarrow> bool" where
  "logs u evs \<longleftrightarrow>
     (\<forall>st. u_sys (u st) = u_sys st \<and> u_log (u st) = u_log st @ map (\<lambda>e. (e, None)) evs)"

lemma logs_event: "logs (note_event ev) [ev]" "logs id []"
  by (simp_all add: logs_def note_event_def)

lemma logs_comp: "logs u es \<Longrightarrow> logs v fs \<Longrightarrow> logs (\<lambda>st. v (u st)) (es @ fs)"
  by (simp add: logs_def)

lemma calmly_return: "calmly nodes n (returnS a) [] a"
  by (simp add: calmly_def)

lemma calmly_lift: "r = Inr a \<Longrightarrow> calmly nodes n (liftS r) [] a"
  by (simp add: calmly_def)

lemma calmly_case:
  assumes "calmly nodes n m es a" "calmly nodes k (f a) fs b" "k = n + made es"
  shows "calmly nodes n (\<lambda>st. case m st of (Inl e, st') \<Rightarrow> g e st' | (Inr x, st') \<Rightarrow> f x st') (es @ fs) b"
  unfolding calmly_def
proof (intro allI impI)
  fix st assume "sound_disk nodes st" and n: "clients (u_log st) = n"
  with assms(1) obtain st1 where m: "m st = (Inr a, st1)" "sound_disk nodes st1"
    "u_log st1 = u_log st @ map (\<lambda>e. (e, None)) es"
    unfolding calmly_def by blast
  have "clients (u_log st1) = k" using n assms(3) by (simp add: m(3) made_def)
  with m(2) assms(2) obtain st2 where "f a st1 = (Inr b, st2)" "sound_disk nodes st2"
    "u_log st2 = u_log st1 @ map (\<lambda>e. (e, None)) fs"
    unfolding calmly_def by blast
  with m show "\<exists>st'. (case m st of (Inl e, st') \<Rightarrow> g e st' | (Inr x, st') \<Rightarrow> f x st') = (Inr b, st') \<and>
      sound_disk nodes st' \<and> u_log st' = u_log st @ map (\<lambda>e. (e, None)) (es @ fs)"
    by simp
qed

lemma calmly_then:
  assumes "calmly nodes n m es a" "calmly nodes k (f a) fs b" "k = n + made es"
  shows "calmly nodes n (thenS m f) (es @ fs) b"
  using calmly_case [of nodes n m es a k f fs b "\<lambda>e st'. (Inl e, st')"] assms by (simp add: thenS_def calmly_def)

lemma calmly_wrap: "calmly nodes n m es a \<Longrightarrow> calmly nodes n (wrapS g m) es a"
  unfolding calmly_def wrapS_def by fastforce

lemma calmly_undo: "calmly nodes n m es a \<Longrightarrow> calmly nodes n (undoS m u) es a"
  unfolding calmly_def undoS_def by fastforce

lemma calmly_finally:
  assumes "calmly nodes n m es a" "logs u fs"
  shows "calmly nodes n (finallyS m u) (es @ fs) a"
  unfolding calmly_def
proof (intro allI impI)
  fix st assume "sound_disk nodes st" "clients (u_log st) = n"
  with assms(1) obtain st1 where "m st = (Inr a, st1)" "sound_disk nodes st1"
    "u_log st1 = u_log st @ map (\<lambda>e. (e, None)) es"
    unfolding calmly_def by blast
  with assms(2) show "\<exists>st'. finallyS m u st = (Inr a, st') \<and> sound_disk nodes st' \<and>
      u_log st' = u_log st @ map (\<lambda>e. (e, None)) (es @ fs)"
    by (simp add: finallyS_def logs_def sound_disk_def)
qed

lemma calmly_attempt: "calm env \<Longrightarrow> calmly nodes n (attempt env ev err) [ev] u"
  by (simp add: calmly_def attempt_def calm_def sound_disk_def)

lemma calmly_read:
  assumes "nodes p = Some (File data m)"
  shows "calmly nodes n (onSys (onDisk (os_ReadFile p))) [] data"
  using assms
  by (auto simp: calmly_def onSys_def onDisk_def os_ReadFile_def healthy_next sound_disk_def)

section \<open>The parts\<close>

lemma calmly_conf:
  assumes "nodes p = Some (File data m)" "parseWGText data = Inr wg"
  shows "calmly nodes n (wrapS WGConfFailed (onSys (onDisk (parseWGConfig p)))) [] wg"
  using assms
  by (intro calmly_wrap)
     (auto simp: calmly_def onSys_def onDisk_def parseWGConfig_def os_Open_def os_Stat_def os_ReadFile_def
       healthy_next sound_disk_def)

lemma calmly_device:
  assumes "calm env" "parseFirstAddr (wc_Address wg) = Inr ip" "buildIPC wg = Inr ipc"
  shows "calmly nodes n (setupWGDevice env wg) [CreateTUN ip, IpcSet ipc, DevUp] ()"
proof -
  have "calmly nodes n (setupWGDevice env wg) ([] @ [CreateTUN ip] @ [] @ [IpcSet ipc] @ [DevUp]) ()"
    unfolding setupWGDevice_def
    by (rule calmly_then [OF calmly_lift [OF assms(2)]], rule calmly_then [OF calmly_attempt [OF assms(1)]],
      rule calmly_then [OF calmly_lift [OF assms(3)]], rule calmly_then)
      (rule calmly_attempt [OF assms(1)] | simp)+
  then show ?thesis by simp
qed

lemma calmly_waitTunnel: "calm env \<Longrightarrow> calmly nodes n (waitTunnel env addr) [Dial addr, ConnClose] ()"
  by (simp add: calmly_def waitTunnel_def waitTunnelDuration_def waitLoop.simps attempt_def calm_def
      note_event_def sound_disk_def)

text \<open>What the two key files hold.\<close>

definition login_files :: "net_env \<Rightarrow> (string \<Rightarrow> node option) \<Rightarrow> string \<Rightarrow> string \<Rightarrow> string \<Rightarrow> bool" where
  "login_files env nodes d signer hostKey \<longleftrightarrow>
     (\<exists>pem m pin m'. nodes (d @ ''/client_auth_ed25519'') = Some (File pem m) \<and>
        ne_ParsePrivateKey env pem = Some signer \<and>
        nodes (d @ ''/dropbear_host_key.pub'') = Some (File pin m') \<and>
        ne_ParseAuthorizedKey env pin = Some hostKey)"

lemma calmly_dialSSH:
  assumes "calm env" "login_files env nodes d signer hostKey"
  shows "calmly nodes n (dialSSH env addr d) [Dial addr, Handshake hostKey signer] (Suc n)"
proof -
  obtain pem m pin m' where files: "nodes (d @ ''/client_auth_ed25519'') = Some (File pem m)"
    "ne_ParsePrivateKey env pem = Some signer" "nodes (d @ ''/dropbear_host_key.pub'') = Some (File pin m')"
    "ne_ParseAuthorizedKey env pin = Some hostKey"
    using assms(2) unfolding login_files_def by blast
  have signer: "calmly nodes n (loadSSHKey env (d @ ''/client_auth_ed25519'')) ([] @ []) signer"
    unfolding loadSSHKey_def
    by (rule calmly_then, rule calmly_wrap, rule calmly_read, rule files(1)) (simp_all add: files(2) calmly_return)
  have pin: "calmly nodes n (loadPinnedKey env (d @ ''/dropbear_host_key.pub'')) ([] @ []) hostKey"
    unfolding loadPinnedKey_def
    by (rule calmly_then, rule calmly_wrap, rule calmly_read, rule files(3)) (simp_all add: files(4) calmly_return)
  have hand: "calmly nodes n (undoS (attempt env (Handshake hostKey signer) HandshakeFailed) u)
      [Handshake hostKey signer] ()" for u
    by (rule calmly_undo) (rule calmly_attempt [OF assms(1)])
  have client: "calmly nodes (Suc n) (\<lambda>st. (Inr (clients (u_log st)), st)) [] (Suc n)"
    by (simp add: calmly_def)
  have "calmly nodes n (dialSSH env addr d)
      (([] @ []) @ ([] @ []) @ [Dial addr] @ [Handshake hostKey signer] @ []) (Suc n)"
    unfolding dialSSH_def
    by (rule calmly_then [OF signer], rule calmly_then [OF pin], rule calmly_then [OF calmly_attempt [OF assms(1)]],
      rule calmly_then [OF hand client]) simp_all
  then show ?thesis by simp
qed

definition pty_size :: "net_env \<Rightarrow> nat \<times> nat" where
  "pty_size env = (if fst (ne_size env) = 0 then (80, 24) else ne_size env)"

definition pty_events :: "net_env \<Rightarrow> nat \<Rightarrow> string \<Rightarrow> event list" where
  "pty_events env client cmd =
     [NewSession client, RequestPty (snd (pty_size env)) (fst (pty_size env))] @
     (if ne_isTerminal env then [MakeRaw, StartCmd cmd, WaitCmd, Restore] else [StartCmd cmd, WaitCmd]) @
     [SessionClose]"

lemma calmly_attachPTY:
  assumes "calm env"
  shows "calmly nodes n (attachPTY env)
    (RequestPty (snd (pty_size env)) (fst (pty_size env)) # (if ne_isTerminal env then [MakeRaw] else []))
    (ne_isTerminal env)"
proof -
  obtain w h where size: "pty_size env = (w, h)" by fastforce
  have raw: "calmly nodes n
      (\<lambda>st. if \<not> ne_isTerminal env then (Inr False, st)
            else case attempt env MakeRaw PTYFailed st of (Inl _, st') \<Rightarrow> (Inr False, st') | (Inr _, st') \<Rightarrow> (Inr True, st'))
      (if ne_isTerminal env then [MakeRaw] else []) (ne_isTerminal env)"
    using assms by (simp add: calmly_def attempt_def calm_def sound_disk_def)
  have "calmly nodes n (attachPTY env) ([RequestPty h w] @ (if ne_isTerminal env then [MakeRaw] else [])) (ne_isTerminal env)"
    using size unfolding attachPTY_def pty_size_def Let_def
    by (simp only: prod.case) (rule calmly_then [OF calmly_attempt [OF assms] raw], simp)
  then show ?thesis by (simp add: size)
qed

lemma calmly_runPTY:
  assumes "calm env"
  shows "calmly nodes n (runPTY env client cmd) (pty_events env client cmd) ()"
proof -
  let ?t = "ne_isTerminal env"
  have u: "logs (if ?t then note_event Restore else id) (if ?t then [Restore] else [])"
    by (simp add: logs_event)
  have "calmly nodes n (runPTY env client cmd)
      ([NewSession client] @ ((RequestPty (snd (pty_size env)) (fst (pty_size env)) # (if ?t then [MakeRaw] else [])) @
        (([StartCmd cmd] @ [WaitCmd]) @ (if ?t then [Restore] else []))) @ [SessionClose]) ()"
    unfolding runPTY_def
    by (rule calmly_then [OF calmly_attempt [OF assms]], rule calmly_finally, rule calmly_then [OF calmly_attachPTY [OF assms]],
      rule calmly_finally, rule calmly_then [OF calmly_attempt [OF assms] calmly_attempt [OF assms]])
      (rule u logs_event | simp)+
  then show ?thesis by (simp add: pty_events_def split: if_splits)
qed

section \<open>Addresses of a tunnel in IPv4\<close>

lemma cut_last_append: "c \<notin> set t \<Longrightarrow> cut_last (s @ c # t) c = Some (s, t)"
  by (simp add: cut_last_def cut_byte_append)

lemma itoa_nat: "0 \<le> n \<Longrightarrow> itoa n = show_nat (nat n)"
  by (simp add: itoa_def)

lemma parse_port_itoa: "0 \<le> p \<Longrightarrow> p \<le> 65535 \<Longrightarrow> parse_port (itoa p) = Some (nat p)"
  by (simp add: parse_port_def itoa_nat list_all_show_nat)

lemma dotted_chars:
  assumes "length a = 4"
  shows "\<forall>c\<in>set (dotted a). is_digit c \<or> c = CHR ''.''" "length (dotted a) \<le> 15" "dotted a \<noteq> []"
proof -
  obtain w x y z where a: "a = [w, x, y, z]" using assms by (auto simp: numeral_eq_Suc length_Suc_conv)
  show "\<forall>c\<in>set (dotted a). is_digit c \<or> c = CHR ''.''"
    using show_nat_digits by (auto simp: a dotted_def)
  have short: "length (show_nat (unat v)) \<le> 3" for v :: byte
    using length_show_nat_bound [of "unat v" 2] unat_byte [of v] by simp
  show "length (dotted a) \<le> 15"
    using short [of w] short [of x] short [of y] short [of z] by (simp add: a dotted_def)
  show "dotted a \<noteq> []" by (simp add: a dotted_def)
qed

lemma ParseAddrPort_dotted:
  assumes "length a = 4" "0 \<le> p" "p \<le> 65535"
  shows "ParseAddrPort (dotted a @ '':'' @ itoa p) = Some (Addr4 a, nat p)"
proof -
  have "CHR '':'' \<notin> set (itoa p)" using assms(2) show_nat_no_dot by (simp add: itoa_nat)
  then have cut: "cut_last (dotted a @ '':'' @ itoa p) CHR '':'' = Some (dotted a, itoa p)"
    by (simp add: cut_last_append)
  have "hd (dotted a) \<in> set (dotted a)" using dotted_chars(3) [OF assms(1)] by simp
  then have "hd (dotted a) \<noteq> CHR ''[''" using dotted_chars(1) [OF assms(1)] by (auto simp: is_digit_def)
  with cut show ?thesis
    using assms dotted_chars(3) by (simp add: ParseAddrPort_def parse_port_itoa ParseAddr_dotted Is4_def)
qed

lemma parseFirstAddr_cidr4:
  assumes "length b = 4" "m \<le> 32"
  shows "parseFirstAddr (cidr4 b m) = Inr (Addr4 b)"
proof -
  have cut: "cut_last (cidr4 b m) CHR ''/'' = Some (dotted b, show_nat m)"
    unfolding cidr4_def by (rule cut_last_append) (rule show_nat_no_dot)
  have "int64 (int m)" using assms(2) by (simp add: int64_def)
  then have bits: "atoi (show_nat m) = Some (int m)" using atoi_itoa [of "int m"] by (simp add: itoa_def)
  have "is_digit (hd (show_nat m))" using show_nat_digits [of m] by simp
  moreover have "hd (show_nat m) \<noteq> CHR ''0''" if "length (show_nat m) > 1"
  proof
    assume "hd (show_nat m) = CHR ''0''"
    then have "m = 0" by (simp only: show_nat_first)
    with that show False by (simp add: show_base.simps)
  qed
  ultimately have "ParsePrefix (cidr4 b m) = Some (Addr4 b, int m)"
    using assms by (auto simp: ParsePrefix_def cut ParseAddr_dotted bits)
  then show ?thesis by (simp add: parseFirstAddr_def)
qed

lemma ini_value_dotted:
  assumes "length a = 4" "list_all plain t" "length t \<le> 100"
  shows "ini_value (dotted a @ t)"
proof -
  have "plain CHR ''.''" by (simp add: plain_def ascii_spaces_def)
  then have "\<forall>c\<in>set (dotted a). plain c" using dotted_chars(1) [OF assms(1)] is_digit_plain by blast
  with dotted_chars(2,3) [OF assms(1)] assms(2,3) show ?thesis by (simp add: ini_value_def list_all_iff ball_Un)
qed

section \<open>The whole of it\<close>

text \<open>After \<open>n\<close> clients the client of this unlock is the next one.\<close>

definition unlock_events :: "net_env \<Rightarrow> nat \<Rightarrow> Addr \<Rightarrow> string \<Rightarrow> AddrPort \<Rightarrow> string \<Rightarrow> string \<Rightarrow> event list" where
  "unlock_events env n ip ipc addr hostKey signer =
     [CreateTUN ip, IpcSet ipc, DevUp, Dial addr, ConnClose, Dial addr, Handshake hostKey signer] @
     pty_events env (Suc n) unlock_cmd @ [ClientClose (Suc n), DevDown, DevClose]"

lemma calmly_Unlock:
  assumes "calm env" "login_files env nodes d signer hostKey"
    and "nodes (d @ ''/client_wg.conf'') = Some (File conf m)" "parseWGText conf = Inr wg"
    and "parseFirstAddr (wc_Address wg) = Inr ip" "buildIPC wg = Inr ipc"
    and "ParseAddrPort (server_addr cfg) = Some addr"
  shows "calmly nodes n (Unlock env cfg d False) (unlock_events env n ip ipc addr hostKey signer) ()"
proof -
  have perform: "calmly nodes n (performUnlock env addr d cfg False)
      ([Dial addr, Handshake hostKey signer] @ (pty_events env (Suc n) unlock_cmd @ [ClientClose (Suc n)])) ()"
    unfolding performUnlock_def runUnlock_def if_False
    by (rule calmly_then [OF calmly_dialSSH [OF assms(1,2)]], rule calmly_finally, rule calmly_wrap,
      rule calmly_runPTY [OF assms(1)]) (rule logs_event, simp)
  have over: "calmly nodes n (unlockOverTunnel env cfg d False)
      ([Dial addr, ConnClose] @ [Dial addr, Handshake hostKey signer] @ pty_events env (Suc n) unlock_cmd @ [ClientClose (Suc n)]) ()"
    unfolding unlockOverTunnel_def assms(7) option.case
    by (rule calmly_case [OF calmly_waitTunnel [OF assms(1)] perform]) simp
  have "calmly nodes n (Unlock env cfg d False)
      ([] @ [CreateTUN ip, IpcSet ipc, DevUp] @ (([Dial addr, ConnClose] @ [Dial addr, Handshake hostKey signer] @
        pty_events env (Suc n) unlock_cmd @ [ClientClose (Suc n)]) @ ([DevDown] @ [DevClose]))) ()"
    unfolding Unlock_def
    by (rule calmly_then, rule calmly_conf, rule assms(3), rule assms(4),
      rule calmly_then [OF calmly_device [OF assms(1,5,6)]],
      rule calmly_finally [OF over], rule logs_comp) (rule logs_event | simp)+
  then show ?thesis by (simp add: unlock_events_def)
qed

lemma Unlock_calm:
  assumes "calm env" "healthy (disk (u_sys st))" "login_files env (node_at (disk (u_sys st))) d signer hostKey"
    and "node_at (disk (u_sys st)) (d @ ''/client_wg.conf'') = Some (File conf m)" "parseWGText conf = Inr wg"
    and "parseFirstAddr (wc_Address wg) = Inr ip" "buildIPC wg = Inr ipc"
    and "ParseAddrPort (server_addr cfg) = Some addr"
  shows "\<exists>st'. Unlock env cfg d False st = (Inr (), st') \<and>
    u_log st' = u_log st @ map (\<lambda>e. (e, None)) (unlock_events env (clients (u_log st)) ip ipc addr hostKey signer)"
  using calmly_Unlock [OF assms(1,3-8)] assms(2) unfolding calmly_def sound_disk_def by blast

end
