(* ===== verification/Unlock_Protocol.thy ===== *)
theory Unlock_Protocol
  imports Protocol Unlock_Run
begin

text \<open>
  \<open>Unlock\<close> refines the protocol: whatever the network, the disk and the user do, what it has done is
  a run of the protocol from the start to the stage that its result names.
\<close>

section \<open>The parts of an unlock\<close>

text \<open>
  Where an error leaves the protocol. The errors of the setup of the device are returned before the
  deferred close is in place; after any other one the device is down and closed.
\<close>

definition stops_in :: "unlock_error \<Rightarrow> stage" where
  "stops_in e =
     (case e of
        WGConfFailed x \<Rightarrow> Start | BadClientAddr x \<Rightarrow> Start | TUNFailed x \<Rightarrow> Start
      | BadPrivateKey \<Rightarrow> Created | BadPeerKey \<Rightarrow> Created | IpcFailed x \<Rightarrow> Created
      | UpFailed x \<Rightarrow> Configured
      | _ \<Rightarrow> Closed)"

definition ends_in :: "unlock_error + unit \<Rightarrow> stage" where
  "ends_in r = (case r of Inl e \<Rightarrow> stops_in e | Inr _ \<Rightarrow> Closed)"

abbreviation left_at :: "level \<Rightarrow> 'a \<Rightarrow> level \<Rightarrow> bool" where
  "left_at l \<equiv> \<lambda>a l'. l' = l"

abbreviation fails :: "level \<Rightarrow> unlock_error \<Rightarrow> level \<Rightarrow> bool" where
  "fails l \<equiv> \<lambda>e l'. l' = l \<and> stops_in e = Closed"

definition trusted :: "net_env \<Rightarrow> node option \<Rightarrow> string set" where
  "trusted env nd =
     {k. case nd of Some (File data m) \<Rightarrow> ne_ParseAuthorizedKey env data = Some k | _ \<Rightarrow> False}"

lemma finallyS_eq: "finallyS m u st = (r, st') \<longleftrightarrow> (\<exists>st1. m st = (r, st1) \<and> st' = u st1)"
  by (auto simp: finallyS_def split: prod.splits)

lemma ReadFile_moves:
  assumes "\<And>a. (case nd of Some (File data m) \<Rightarrow> data = a | _ \<Rightarrow> False) \<or> p \<noteq> pin \<Longrightarrow> Q a l"
    and "\<And>e. E e l"
  shows "moves pin nd P l (onSys (onDisk (os_ReadFile p))) Q E"
proof (rule moves_onSys)
  fix s r s' assume "onDisk (os_ReadFile p) s = (r, s')"
  then have "s' = s\<lparr>disk := snd (os_ReadFile p (disk s))\<rparr>" by (auto simp: onDisk_def case_prod_beta)
  then show "node_at (disk s') pin = node_at (disk s) pin" by simp
next
  fix s a s' assume "node_at (disk s) pin = nd" "onDisk (os_ReadFile p) s = (Inr a, s')"
  then show "Q a l"
    by (intro assms) (auto simp: res_simps os_ReadFile_def split: if_splits option.splits node.splits)
qed (rule assms)

lemma moves_loadPinnedKey:
  "moves pin nd P l (loadPinnedKey env pin) (\<lambda>k l'. k \<in> trusted env nd \<and> l' = l) (fails l)"
  unfolding loadPinnedKey_def
proof (rule moves_then)
  show "moves pin nd P l (wrapS PinUnreadable (onSys (onDisk (os_ReadFile pin))))
    (\<lambda>a l'. (case nd of Some (File data m) \<Rightarrow> data = a | _ \<Rightarrow> False) \<and> l' = l) (fails l)"
    by (intro moves_wrap ReadFile_moves) (simp_all add: stops_in_def)
next
  fix data l1
  assume "(case nd of Some (File d m) \<Rightarrow> d = data | _ \<Rightarrow> False) \<and> l1 = l"
  then obtain m where n: "nd = Some (File data m)" and l: "l1 = l" by (auto split: option.splits node.splits)
  show "moves pin nd P l1 (case ne_ParseAuthorizedKey env data of None \<Rightarrow> liftS (Inl PinUnparsable)
      | Some key \<Rightarrow> returnS key) (\<lambda>k l'. k \<in> trusted env nd \<and> l' = l) (fails l)"
    using n l by (auto intro!: moves_lift moves_return simp: trusted_def stops_in_def split: option.split)
qed

lemma moves_loadSSHKey: "moves pin nd P l (loadSSHKey env p) (left_at l) (fails l)"
  unfolding loadSSHKey_def
  by (rule moves_then [OF moves_wrap [OF ReadFile_moves [where Q = "left_at l"]]])
     (auto intro!: moves_lift moves_return simp: stops_in_def split: option.split)

lemma moves_dialSSH:
  assumes "pin = outputDir @ ''/dropbear_host_key.pub''" "trusted env nd \<subseteq> may_trust P" "addr \<in> may_call P"
  shows "moves pin nd P (At Up n) (dialSSH env addr outputDir)
    (\<lambda>client l'. client = Suc n \<and> l' = At Conn (Suc n)) (fails (At Up n))"
  unfolding dialSSH_def
proof (rule moves_then [OF moves_loadSSHKey], rule moves_then)
  fix signer :: string and l1 assume "l1 = At Up n"
  then show "moves pin nd P l1 (loadPinnedKey env (outputDir @ ''/dropbear_host_key.pub''))
      (\<lambda>k l'. k \<in> trusted env nd \<and> l' = At Up n) (fails (At Up n))"
    using moves_loadPinnedKey [of pin nd P "At Up n" env] assms(1) by simp
next
  fix signer key :: string and l1 l2 assume k: "key \<in> trusted env nd \<and> l2 = At Up n"
  show "moves pin nd P l2 (thenS (attempt env (Dial addr) DialFailed) (\<lambda>_.
      thenS (undoS (attempt env (Handshake key signer) HandshakeFailed) (note_event ConnClose)) (\<lambda>_ st.
      (Inr (clients (u_log st)), st)))) (\<lambda>client l'. client = Suc n \<and> l' = At Conn (Suc n)) (fails (At Up n))"
  proof (rule moves_then)
    show "moves pin nd P l2 (attempt env (Dial addr) DialFailed) (left_at (At Dialed n)) (fails (At Up n))"
      using k assms(3) by (auto intro!: moves_attempt intro: proto.intros simp: stops_in_def)
  next
    fix a l3 assume l3: "l3 = At Dialed n"
    have hand: "moves pin nd P l3 (undoS (attempt env (Handshake key signer) HandshakeFailed) (note_event ConnClose))
        (left_at (At Conn (Suc n))) (fails (At Up n))"
      unfolding l3
    proof (rule moves_undo)
      show "moves pin nd P (At Dialed n) (attempt env (Handshake key signer) HandshakeFailed)
          (left_at (At Conn (Suc n))) (fails (At Dialed n))"
        using k assms(2) by (auto intro!: moves_attempt intro: proto.intros simp: stops_in_def)
    qed (auto intro!: noted_event proto.hang_up)
    have client: "moves pin nd P (At Conn (Suc n)) (\<lambda>st. (Inr (clients (u_log st)), st))
        (\<lambda>client l'. client = Suc n \<and> l' = At Conn (Suc n)) (fails (At Up n))"
      by (rule movesI) (auto simp: at_level_def intro!: exI [of _ "At Conn (Suc n)"] reaches_refl)
    show "moves pin nd P l3 (thenS (undoS (attempt env (Handshake key signer) HandshakeFailed) (note_event ConnClose))
        (\<lambda>_ st. (Inr (clients (u_log st)), st))) (\<lambda>client l'. client = Suc n \<and> l' = At Conn (Suc n)) (fails (At Up n))"
      by (rule moves_then [OF hand]) (simp add: client)
  qed
qed

text \<open>The session: whatever happens, it ends and the terminal is as before.\<close>

lemma moves_attachPTY:
  "moves pin nd P (At (Sess False) n) (attachPTY env) (\<lambda>raw l'. l' = At (Sess raw) n) (fails (At (Sess False) n))"
proof -
  obtain w h where size: "(if fst (ne_size env) = 0 then (80, 24) else ne_size env) = (w, h)" by fastforce
  have pty: "moves pin nd P (At (Sess False) n) (attempt env (RequestPty h w) PTYFailed)
      (left_at (At (Sess False) n)) (fails (At (Sess False) n))"
    by (auto intro!: moves_attempt proto.pty simp: stops_in_def)
  have "moves pin nd P (At (Sess False) n)
      (\<lambda>st. case attempt env MakeRaw PTYFailed st of (Inl _, st') \<Rightarrow> (Inr False, st') | (Inr _, st') \<Rightarrow> (Inr True, st'))
      (\<lambda>raw l'. l' = At (Sess raw) n) (fails (At (Sess False) n))"
  proof (rule moves_case)
    show "moves pin nd P (At (Sess False) n) (attempt env MakeRaw PTYFailed)
        (left_at (At (Sess True) n)) (fails (At (Sess False) n))"
      by (rule moves_attempt [OF proto.raw proto.raw_fails]) (simp_all add: stops_in_def)
  qed (auto intro!: movesI reaches_refl)
  then have raw: "moves pin nd P (At (Sess False) n)
      (\<lambda>st. if \<not> ne_isTerminal env then (Inr False, st)
            else case attempt env MakeRaw PTYFailed st of (Inl _, st') \<Rightarrow> (Inr False, st') | (Inr _, st') \<Rightarrow> (Inr True, st'))
      (\<lambda>raw l'. l' = At (Sess raw) n) (fails (At (Sess False) n))"
    by (cases "ne_isTerminal env") (auto intro!: movesI reaches_refl)
  show ?thesis
    unfolding attachPTY_def Let_def size prod.case by (rule moves_then [OF pty]) (simp add: raw)
qed

lemma moves_command:
  assumes "cmd \<in> may_run P"
  shows "moves pin nd P (At (Sess raw) n)
    (thenS (attempt env (StartCmd cmd) StartFailed) (\<lambda>_. attempt env WaitCmd CommandEnded))
    (left_at (At (Sess raw) n)) (fails (At (Sess raw) n))"
proof (rule moves_then)
  show "moves pin nd P (At (Sess raw) n) (attempt env (StartCmd cmd) StartFailed)
      (left_at (At (Running raw) n)) (fails (At (Sess raw) n))"
    by (rule moves_attempt [OF proto.start [OF assms] proto.start_fails [OF assms]]) (simp_all add: stops_in_def)
next
  fix a l1 assume "l1 = At (Running raw) n"
  then show "moves pin nd P l1 (attempt env WaitCmd CommandEnded) (left_at (At (Sess raw) n)) (fails (At (Sess raw) n))"
    by (auto intro!: moves_attempt proto.finish simp: stops_in_def)
qed

lemma moves_runPTY:
  assumes "cmd \<in> may_run P"
  shows "moves pin nd P (At Conn n) (runPTY env n cmd) (left_at (At Used n)) (fails (At Used n))"
  unfolding runPTY_def
proof (rule moves_then)
  show "moves pin nd P (At Conn n) (attempt env (NewSession n) NoSession) (left_at (At (Sess False) n)) (fails (At Used n))"
    by (rule moves_attempt [OF proto.session proto.session_fails]) (simp_all add: stops_in_def)
next
  fix a l1 assume l1: "l1 = At (Sess False) n"
  have "moves pin nd P (At (Sess False) n)
      (thenS (attachPTY env) (\<lambda>raw. finallyS
         (thenS (attempt env (StartCmd cmd) StartFailed) (\<lambda>_. attempt env WaitCmd CommandEnded))
         (if raw then note_event Restore else id))) (left_at (At (Sess False) n)) (fails (At (Sess False) n))"
  proof (rule moves_then [OF moves_attachPTY])
    fix raw l2 assume l2: "l2 = At (Sess raw) n"
    have "noted pin nd P (At (Sess raw) n) (if raw then note_event Restore else id) (At (Sess False) n)"
      by (cases raw) (simp_all add: noted_id noted_event proto.restore)
    then show "moves pin nd P l2 (finallyS
         (thenS (attempt env (StartCmd cmd) StartFailed) (\<lambda>_. attempt env WaitCmd CommandEnded))
         (if raw then note_event Restore else id)) (left_at (At (Sess False) n)) (fails (At (Sess False) n))"
      unfolding l2 by (intro moves_finally [OF moves_command [OF assms]]) auto
  qed
  then show "moves pin nd P l1 (finallyS (thenS (attachPTY env) (\<lambda>raw. finallyS
         (thenS (attempt env (StartCmd cmd) StartFailed) (\<lambda>_. attempt env WaitCmd CommandEnded))
         (if raw then note_event Restore else id))) (note_event SessionClose)) (left_at (At Used n)) (fails (At Used n))"
    unfolding l1 by (rule moves_finally) (auto intro!: noted_event proto.end_session)
qed

lemma moves_runUnlock:
  "unlock_cmd \<in> may_run P \<Longrightarrow> moves pin nd P (At Conn n) (runUnlock env n) (left_at (At Used n)) (fails (At Used n))"
  unfolding runUnlock_def
  by (rule moves_wrap) (auto intro: moves_conseq [OF moves_runPTY] simp: stops_in_def)

lemma moves_runChangeKey:
  assumes "buildChangeLUKSCmd cfg \<in> may_run P"
  shows "moves pin nd P (At Conn n) (runChangeKey env n cfg) (left_at (At Used n)) (fails (At Used n))"
  unfolding runChangeKey_def
proof (rule moves_then)
  show "moves pin nd P (At Conn n) (wrapS ChangeKeyFailed (runPTY env n (buildChangeLUKSCmd cfg)))
      (left_at (At Used n)) (fails (At Used n))"
    by (rule moves_wrap) (auto intro: moves_conseq [OF moves_runPTY [OF assms]] simp: stops_in_def)
next
  fix u :: unit and l1 assume "l1 = At Used n"
  then show "moves pin nd P l1 (\<lambda>st. let ((line, _), s) = ttyLine (u_sys st); ans = trim_space line
      in (Inr (ans = [] \<or> ans = ''y'' \<or> ans = ''Y''), st\<lparr>u_sys := s\<rparr>)) (left_at (At Used n)) (fails (At Used n))"
    by (intro movesI) (auto simp: Let_def case_prod_beta reaches_def at_level_def intro!: exI [of _ "[]"] accepts.stop)
qed

lemma closing: "noted pin nd P (At Used n) (note_event (ClientClose n)) (At Up n)"
  "k \<le> n \<Longrightarrow> noted pin nd P (At Up n) (note_event (ClientClose k)) (At Up n)"
  by (intro noted_event proto.intros; simp)+

lemma moves_unlock_and_close:
  assumes "unlock_cmd \<in> may_run P"
  shows "moves pin nd P (At Conn n) (finallyS (runUnlock env n) (note_event (ClientClose n)))
    (left_at (At Up n)) (fails (At Up n))"
  by (rule moves_finally [OF moves_runUnlock [OF assms]]) (auto intro: closing)

text \<open>The reconnect makes a second client; the first one is closed before and, to no effect, after.\<close>

definition back_up :: "nat \<Rightarrow> 'a \<Rightarrow> level \<Rightarrow> bool" where
  "back_up n a l \<longleftrightarrow> (\<exists>m\<ge>n. l = At Up m)"

abbreviation fails_up :: "nat \<Rightarrow> unlock_error \<Rightarrow> level \<Rightarrow> bool" where
  "fails_up n \<equiv> \<lambda>e l. back_up n e l \<and> stops_in e = Closed"

lemma back_up_mono: "back_up n a l \<Longrightarrow> k \<le> n \<Longrightarrow> back_up k b l"
  by (auto simp: back_up_def)

lemma back_up_level: "back_up n a (At Up m) \<longleftrightarrow> n \<le> m"
  by (simp add: back_up_def)

lemma moves_handleChangeAndUnlock:
  assumes "pin = outputDir @ ''/dropbear_host_key.pub''" "trusted env nd \<subseteq> may_trust P" "addr \<in> may_call P"
    "unlock_cmd \<in> may_run P" "buildChangeLUKSCmd cfg \<in> may_run P"
  shows "moves pin nd P (At Conn n) (handleChangeAndUnlock env n addr outputDir cfg) (back_up n) (fails_up n)"
  unfolding handleChangeAndUnlock_def
proof (rule moves_then)
  show "moves pin nd P (At Conn n) (finallyS (runChangeKey env n cfg) (note_event (ClientClose n)))
      (left_at (At Up n)) (fails_up n)"
    by (rule moves_finally [OF moves_runChangeKey [OF assms(5)]]) (auto intro: closing simp: back_up_def)
next
  fix proceed l1 assume l1: "l1 = At Up n"
  have "moves pin nd P (At Up n) (thenS (wrapS ReconnectFailed (dialSSH env addr outputDir))
      (\<lambda>newClient. finallyS (runUnlock env newClient) (note_event (ClientClose newClient)))) (back_up n) (fails_up n)"
  proof (rule moves_then)
    show "moves pin nd P (At Up n) (wrapS ReconnectFailed (dialSSH env addr outputDir))
        (\<lambda>client l'. client = Suc n \<and> l' = At Conn (Suc n)) (fails_up n)"
      by (rule moves_wrap) (auto intro: moves_conseq [OF moves_dialSSH [OF assms(1-3)]] simp: stops_in_def back_up_def)
  next
    fix newClient l2 assume "newClient = Suc n \<and> l2 = At Conn (Suc n)"
    then show "moves pin nd P l2 (finallyS (runUnlock env newClient) (note_event (ClientClose newClient)))
        (back_up n) (fails_up n)"
      using moves_conseq [OF moves_unlock_and_close [OF assms(4), of pin nd "Suc n" env]] by (auto simp: back_up_def)
  qed
  then show "moves pin nd P l1 (if \<not> proceed then returnS ()
      else thenS (wrapS ReconnectFailed (dialSSH env addr outputDir))
             (\<lambda>newClient. finallyS (runUnlock env newClient) (note_event (ClientClose newClient)))) (back_up n) (fails_up n)"
    unfolding l1 by (simp add: moves_return back_up_level)
qed

lemma moves_performUnlock:
  assumes "pin = outputDir @ ''/dropbear_host_key.pub''" "trusted env nd \<subseteq> may_trust P" "addr \<in> may_call P"
    "unlock_cmd \<in> may_run P" "changeKey \<longrightarrow> buildChangeLUKSCmd cfg \<in> may_run P"
  shows "moves pin nd P (At Up n) (performUnlock env addr outputDir cfg changeKey) (back_up n) (fails_up n)"
  unfolding performUnlock_def
proof (rule moves_then)
  show "moves pin nd P (At Up n) (dialSSH env addr outputDir)
      (\<lambda>client l'. client = Suc n \<and> l' = At Conn (Suc n)) (fails_up n)"
    by (auto intro: moves_conseq [OF moves_dialSSH [OF assms(1-3)]] simp: back_up_def)
next
  fix client l1 assume l1: "client = Suc n \<and> l1 = At Conn (Suc n)"
  have "moves pin nd P (At Conn (Suc n)) (finallyS
      (if changeKey then handleChangeAndUnlock env (Suc n) addr outputDir cfg else runUnlock env (Suc n))
      (note_event (ClientClose (Suc n)))) (back_up (Suc n)) (fails_up (Suc n))"
  proof (cases changeKey)
    case True
    have again: "noted pin nd P l (note_event (ClientClose (Suc n))) l" if "back_up (Suc n) a l" for a :: 'x and l
      using that by (auto simp: back_up_def intro: closing)
    have change: "moves pin nd P (At Conn (Suc n)) (handleChangeAndUnlock env (Suc n) addr outputDir cfg)
        (back_up (Suc n)) (fails_up (Suc n))"
      using assms True by (intro moves_handleChangeAndUnlock) simp_all
    have "moves pin nd P (At Conn (Suc n)) (finallyS (handleChangeAndUnlock env (Suc n) addr outputDir cfg)
        (note_event (ClientClose (Suc n)))) (back_up (Suc n)) (fails_up (Suc n))"
    proof (rule moves_finally [OF change])
      fix a :: unit and l assume l: "back_up (Suc n) a l"
      show "\<exists>l2. noted pin nd P l (note_event (ClientClose (Suc n))) l2 \<and> back_up (Suc n) a l2"
        using again [OF l] l by blast
    next
      fix e :: unlock_error and l assume l: "back_up (Suc n) e l \<and> stops_in e = Closed"
      show "\<exists>l2. noted pin nd P l (note_event (ClientClose (Suc n))) l2 \<and> back_up (Suc n) e l2 \<and> stops_in e = Closed"
        using again [of e l] l by blast
    qed
    with True show ?thesis by simp
  next
    case False
    with moves_conseq [OF moves_unlock_and_close [OF assms(4), of pin nd "Suc n" env]] show ?thesis
      by (simp add: back_up_level)
  qed
  then have "moves pin nd P (At Conn (Suc n)) (finallyS
      (if changeKey then handleChangeAndUnlock env (Suc n) addr outputDir cfg else runUnlock env (Suc n))
      (note_event (ClientClose (Suc n)))) (back_up n) (fails_up n)"
    by (rule moves_conseq) (auto intro: back_up_mono [where n = "Suc n"])
  moreover have "client = Suc n" "l1 = At Conn (Suc n)" using l1 by simp_all
  ultimately show "moves pin nd P l1 (finallyS
      (if changeKey then handleChangeAndUnlock env client addr outputDir cfg else runUnlock env client)
      (note_event (ClientClose client))) (back_up n) (fails_up n)"
    by (simp only:)
qed

text \<open>The tunnel and what happens when the server does not answer over it.\<close>

lemma accepts_waited:
  assumes "addr \<in> may_call P"
  shows "accepts P (At Up n) (waited addr xs r) (At Up n)" "clients (waited addr xs r) = 0"
proof -
  have "accepts P (At Up n) (refused addr xs) (At Up n)"
    by (induction xs) (use assms in \<open>auto intro!: accepts.intros intro: proto.intros\<close>)
  moreover have "accepts P (At Up n) [(Dial addr, None), (ConnClose, None)] (At Up n)"
    by (rule accepts.step [OF proto.dial [OF assms] accepts_one [OF proto.hang_up]])
  ultimately show "accepts P (At Up n) (waited addr xs r) (At Up n)"
    unfolding waited_def by (cases r) (auto intro: accepts_append accepts.stop)
  have "clients (refused addr xs) = 0" by (induction xs) simp_all
  then show "clients (waited addr xs r) = 0" by (cases r) (simp_all add: waited_def)
qed

lemma waitTunnel_log:
  assumes "waitTunnel env addr st = (r, st')"
  shows "\<exists>xs. u_log st' = u_log st @ waited addr xs r \<and> u_sys st' = u_sys st \<and>
    (r \<noteq> Inr () \<longrightarrow> r = Inl (NotReachable addr))"
  using waitLoop_log [OF assms [unfolded waitTunnel_def]] by blast

lemma moves_waitTunnel:
  assumes "addr \<in> may_call P"
  shows "moves pin nd P (At Up n) (waitTunnel env addr) (left_at (At Up n)) (fails (At Up n))"
proof (rule movesI)
  fix st r st' assume l: "at_level pin nd (At Up n) st" and run: "waitTunnel env addr st = (r, st')"
  from waitTunnel_log [OF run] obtain xs where xs: "u_log st' = u_log st @ waited addr xs r" "u_sys st' = u_sys st"
    "r \<noteq> Inr () \<longrightarrow> r = Inl (NotReachable addr)" by blast
  then have "reaches pin nd P (At Up n) st (At Up n) st'"
    using l accepts_waited [OF assms] by (auto simp: reaches_def at_level_def)
  with xs(3) show "\<exists>l'. reaches pin nd P (At Up n) st l' st' \<and>
      (case r of Inl e \<Rightarrow> l' = At Up n \<and> stops_in e = Closed | Inr a \<Rightarrow> l' = At Up n)"
    by (auto simp: stops_in_def split: sum.split)
qed

lemma changeKeyDirectSSH_disk:
  assumes "changeKeyDirectSSH cfg outputDir s = (r, s')"
  shows "disk s' = disk s"
proof -
  obtain rc w where c: "Connect (Some (direct_opts cfg outputDir)) (disk s) = (rc, w)"
    by (cases "Connect (Some (direct_opts cfg outputDir)) (disk s)")
  have kh: "co_KnownHostsPath (direct_opts cfg outputDir) \<noteq> []" "co_PinnedKeyPath (direct_opts cfg outputDir) = []"
    by (simp_all add: direct_opts_def)
  have w: "w = disk s"
    using c kh by (auto simp: Connect_def thenS_def applyHostKeyMode_def split: sum.splits)
  have run: "disk (snd (InteractiveSession cl cmd t)) = disk t" for cl cmd t
    by (simp add: InteractiveSession_def Let_def case_prod_beta split: option.split)
  show ?thesis
  proof (cases rc)
    case (Inl e)
    with assms c w show ?thesis
      by (auto simp: changeKeyDirectSSH_def thenS_def wrapS_def onDisk_def split: prod.splits sum.splits)
  next
    case (Inr cl)
    then have "rc_tempKnownHosts cl = []" using Connect_modes [of "direct_opts cfg outputDir" "disk s" cl w] c kh by auto
    then have close: "disk (closeClient cl t) = disk t" for t by (simp add: closeClient_def Close_def)
    from assms c w Inr have "s' = closeClient cl (snd (InteractiveSession cl (buildChangeLUKSCmd cfg) (s\<lparr>disk := w\<rparr>)))"
      by (auto simp: changeKeyDirectSSH_def thenS_def wrapS_def onDisk_def finallyS_def case_prod_beta Let_def)
    with close run w show ?thesis by simp
  qed
qed

lemma changeKeyDirectSSH_error: "changeKeyDirectSSH cfg outputDir s = (Inl e, s') \<Longrightarrow> stops_in e = Closed"
  by (auto simp: changeKeyDirectSSH_def res_simps finallyS_eq stops_in_def)

lemma moves_handleTunnelFailure:
  "stops_in e = Closed \<Longrightarrow>
     moves pin nd P (At Up n) (handleTunnelFailure cfg outputDir changeKey e) (left_at (At Up n)) (fails (At Up n))"
  unfolding handleTunnelFailure_def
  by (auto intro!: moves_lift moves_onSys dest: changeKeyDirectSSH_disk changeKeyDirectSSH_error)

lemma moves_unlockOverTunnel:
  assumes "pin = outputDir @ ''/dropbear_host_key.pub''" "trusted env nd \<subseteq> may_trust P"
    "\<And>addr. ParseAddrPort (server_addr cfg) = Some addr \<Longrightarrow> addr \<in> may_call P"
    "unlock_cmd \<in> may_run P" "changeKey \<longrightarrow> buildChangeLUKSCmd cfg \<in> may_run P"
  shows "moves pin nd P (At Up n) (unlockOverTunnel env cfg outputDir changeKey) (back_up n) (fails_up n)"
proof (cases "ParseAddrPort (server_addr cfg)")
  case None
  then show ?thesis by (auto simp: unlockOverTunnel_def stops_in_def back_up_level intro!: moves_lift)
next
  case (Some addr)
  have addr: "addr \<in> may_call P" by (rule assms(3) [OF Some])
  have "moves pin nd P (At Up n) (\<lambda>st. case waitTunnel env addr st of
      (Inl e, st') \<Rightarrow> handleTunnelFailure cfg outputDir changeKey e st'
    | (Inr _, st') \<Rightarrow> performUnlock env addr outputDir cfg changeKey st') (back_up n) (fails_up n)"
  proof (rule moves_case [OF moves_waitTunnel [OF addr]])
    fix a :: unit and l1 assume "l1 = At Up n"
    then show "moves pin nd P l1 (performUnlock env addr outputDir cfg changeKey) (back_up n) (fails_up n)"
      using moves_performUnlock [OF assms(1,2) addr assms(4,5)] by simp
  next
    fix e l1 assume e: "l1 = At Up n \<and> stops_in e = Closed"
    then show "moves pin nd P l1 (handleTunnelFailure cfg outputDir changeKey e) (back_up n) (fails_up n)"
      by (auto intro: moves_conseq [OF moves_handleTunnelFailure] simp: back_up_level)
  qed
  with Some show ?thesis by (simp add: unlockOverTunnel_def)
qed

text \<open>The device: an error of its setup leaves it where it is.\<close>

lemma moves_setupWGDevice:
  "moves pin nd P (At Start n) (setupWGDevice env wg) (left_at (At Up n)) (\<lambda>e l'. l' = At (stops_in e) n)"
proof -
  let ?E = "\<lambda>e l'. l' = At (stops_in e) n"
  have addr: "moves pin nd P (At Start n) (liftS (parseFirstAddr c)) (left_at (At Start n)) ?E" for c
    by (rule moves_lift) (auto simp: parseFirstAddr_def stops_in_def split: option.splits)
  have tun: "moves pin nd P (At Start n) (attempt env (CreateTUN ip) TUNFailed) (left_at (At Created n)) ?E" for ip
    by (rule moves_attempt [OF proto.create proto.create_fails]) (simp_all add: stops_in_def)
  have conf: "moves pin nd P (At Created n) (liftS (buildIPC wg)) (left_at (At Created n)) ?E"
    by (rule moves_lift) (auto simp: buildIPC_def stops_in_def split: option.splits)
  have ipc: "moves pin nd P (At Created n) (attempt env (IpcSet c) IpcFailed) (left_at (At Configured n)) ?E" for c
    by (rule moves_attempt [OF proto.ipc proto.ipc_fails]) (simp_all add: stops_in_def)
  have up: "moves pin nd P (At Configured n) (attempt env DevUp UpFailed) (left_at (At Up n)) ?E"
    by (rule moves_attempt [OF proto.up proto.up_fails]) (simp_all add: stops_in_def)
  show ?thesis
    unfolding setupWGDevice_def
    by (intro moves_then [OF addr]) (auto intro!: moves_then [OF tun] moves_then [OF conf] moves_then [OF ipc] up)
qed

lemma parseWGConfig_files: "node_at (snd (parseWGConfig p w)) q = node_at w q"
  by (simp add: parseWGConfig_def os_Open_def case_prod_beta Let_def split: sum.split)

lemma moves_Unlock:
  assumes "pin = outputDir @ ''/dropbear_host_key.pub''" "trusted env nd \<subseteq> may_trust P"
    "\<And>addr. ParseAddrPort (server_addr cfg) = Some addr \<Longrightarrow> addr \<in> may_call P"
    "unlock_cmd \<in> may_run P" "changeKey \<longrightarrow> buildChangeLUKSCmd cfg \<in> may_run P"
  shows "moves pin nd P (At Start n) (Unlock env cfg outputDir changeKey)
    (\<lambda>a l'. stage_of l' = Closed) (\<lambda>e l'. stage_of l' = stops_in e)"
  unfolding Unlock_def
proof (rule moves_then)
  show "moves pin nd P (At Start n) (wrapS WGConfFailed (onSys (onDisk (parseWGConfig (outputDir @ ''/client_wg.conf'')))))
      (left_at (At Start n)) (\<lambda>e l'. stage_of l' = stops_in e)"
    by (intro moves_wrap moves_onSys)
      (auto simp: onDisk_def case_prod_beta Let_def parseWGConfig_files stops_in_def)
next
  fix wg l1 assume l1: "l1 = At Start n"
  show "moves pin nd P l1 (thenS (setupWGDevice env wg) (\<lambda>_. finallyS (unlockOverTunnel env cfg outputDir changeKey)
      (\<lambda>st. note_event DevClose (note_event DevDown st))))
      (\<lambda>a l'. stage_of l' = Closed) (\<lambda>e l'. stage_of l' = stops_in e)"
    unfolding l1
  proof (rule moves_then)
    show "moves pin nd P (At Start n) (setupWGDevice env wg) (left_at (At Up n)) (\<lambda>e l'. stage_of l' = stops_in e)"
      by (rule moves_conseq [OF moves_setupWGDevice]) simp_all
  next
    fix u :: unit and l2 assume l2: "l2 = At Up n"
    have release: "noted pin nd P (At Up m) (\<lambda>st. note_event DevClose (note_event DevDown st)) (At Closed m)" for m
      by (rule noted_comp [OF noted_event [OF proto.down] noted_event [OF proto.close]])
    show "moves pin nd P l2 (finallyS (unlockOverTunnel env cfg outputDir changeKey)
      (\<lambda>st. note_event DevClose (note_event DevDown st)))
      (\<lambda>a l'. stage_of l' = Closed) (\<lambda>e l'. stage_of l' = stops_in e)"
      unfolding l2
    proof (rule moves_finally [OF moves_unlockOverTunnel [OF assms]])
      fix l a assume "back_up n a l"
      then obtain m where "l = At Up m" by (auto simp: back_up_def)
      with release show "\<exists>l2. noted pin nd P l (\<lambda>st. note_event DevClose (note_event DevDown st)) l2 \<and> stage_of l2 = Closed"
        by (intro exI [of _ "At Closed m"]) simp
    next
      fix l e assume "back_up n e l \<and> stops_in e = Closed"
      then obtain m where "l = At Up m" "stops_in e = Closed" by (auto simp: back_up_def)
      with release show "\<exists>l2. noted pin nd P l (\<lambda>st. note_event DevClose (note_event DevDown st)) l2 \<and> stage_of l2 = stops_in e"
        by (intro exI [of _ "At Closed m"]) simp
    qed
  qed
qed

section \<open>The ways to the server\<close>

text \<open>What a step keeps of the calls of the program \<open>ssh\<close> and of the handshakes.\<close>

definition ssh_calls :: "unlocker \<Rightarrow> (string list \<times> string option) list" where
  "ssh_calls st = calls (u_sys st)"

definition handshakes :: "unlocker \<Rightarrow> history" where
  "handshakes st = filter (\<lambda>(e, x). case e of Handshake k s \<Rightarrow> True | _ \<Rightarrow> False) (u_log st)"

lemma ssh_calls_note [simp]: "ssh_calls (note_event ev st) = ssh_calls st"
  by (simp add: ssh_calls_def note_event_def)

lemma keeps_attempt [intro]: "keepsS ssh_calls (attempt env ev err)"
  by (simp add: keepsS_def ssh_calls_def attempt_def Let_def)

lemma keeps_handshakes:
  "(\<And>k s. ev \<noteq> Handshake k s) \<Longrightarrow> keepsS handshakes (attempt env ev err)"
  by (auto simp: keepsS_def handshakes_def attempt_def Let_def split: event.split)

lemma keeps_onDisk [intro]: "keepsS ssh_calls (onSys (onDisk m))"
  by (simp add: keepsS_def ssh_calls_def onSys_def onDisk_def case_prod_beta)

lemma keeps_dialSSH: "keepsS ssh_calls (dialSSH env addr outputDir)"
proof -
  have "keepsS ssh_calls (\<lambda>st. (Inr (clients (u_log st)), st))" by (simp add: keepsS_def)
  then show ?thesis
    unfolding dialSSH_def loadSSHKey_def loadPinnedKey_def by (auto split: option.split intro!: keepsS_intros)
qed

lemma keeps_runPTY: "keepsS ssh_calls (runPTY env client cmd)"
proof -
  have "keepsS ssh_calls
      (\<lambda>st. if \<not> ne_isTerminal env then (Inr False, st)
            else case attempt env MakeRaw PTYFailed st of (Inl _, st') \<Rightarrow> (Inr False, st') | (Inr _, st') \<Rightarrow> (Inr True, st'))"
    by (auto simp: keepsS_def ssh_calls_def attempt_def Let_def split: option.split)
  then have "keepsS ssh_calls (attachPTY env)"
    unfolding attachPTY_def Let_def case_prod_beta by (intro keepsS_intros keeps_attempt)
  then show ?thesis
    unfolding runPTY_def by (auto intro!: keepsS_intros split: if_split)
qed

lemma keeps_performUnlock: "keepsS ssh_calls (performUnlock env addr outputDir cfg changeKey)"
proof -
  have "keepsS ssh_calls (\<lambda>st. let ((line, _), s) = ttyLine (u_sys st); ans = trim_space line
      in (Inr (ans = [] \<or> ans = ''y'' \<or> ans = ''Y''), st\<lparr>u_sys := s\<rparr>))"
    by (simp add: keepsS_def ssh_calls_def Let_def case_prod_beta)
  then show ?thesis
    unfolding performUnlock_def handleChangeAndUnlock_def runChangeKey_def runUnlock_def
    by (auto intro!: keepsS_intros keeps_dialSSH keeps_runPTY split: if_split)
qed

lemma keeps_setupWGDevice: "keepsS ssh_calls (setupWGDevice env wg)" "keepsS handshakes (setupWGDevice env wg)"
  unfolding setupWGDevice_def by (intro keepsS_intros keeps_attempt keeps_handshakes; simp)+

text \<open>The other way around: one call of \<open>ssh\<close> at most, on the host itself.\<close>

definition direct_call :: "config \<Rightarrow> string \<Rightarrow> string list \<times> string option \<Rightarrow> bool" where
  "direct_call cfg outputDir q \<longleftrightarrow>
     (\<exists>c. q = ([''-t'', ''-o'', ''LogLevel=ERROR''] @ sshArgs c @ [interactiveSudoCmd c (buildChangeLUKSCmd cfg)], None) \<and>
        rc_host c = Host cfg \<and> rc_strictMode c = ''accept-new'' \<and> rc_knownHostsFile c = outputDir @ ''/known_hosts'')"

lemma changeKeyDirectSSH_calls:
  assumes "changeKeyDirectSSH cfg outputDir s = (r, s')"
  shows "calls s' = calls s \<or> (\<exists>q. calls s' = calls s @ [q] \<and> direct_call cfg outputDir q)"
proof -
  let ?o = "direct_opts cfg outputDir"
  obtain rc w where conn: "Connect (Some ?o) (disk s) = (rc, w)" by (cases "Connect (Some ?o) (disk s)")
  show ?thesis
  proof (cases rc)
    case (Inl e)
    with assms conn show ?thesis
      by (auto simp: changeKeyDirectSSH_def thenS_def wrapS_def onDisk_def split: prod.splits sum.splits)
  next
    case (Inr c)
    with conn have c: "Connect (Some ?o) (disk s) = (Inr c, w)" by simp
    from Connect_modes [OF c] have "rc_strictMode c = ''accept-new''" "rc_knownHostsFile c = outputDir @ ''/known_hosts''"
      by (auto simp: direct_opts_def)
    moreover have "rc_host c = Host cfg"
      using c by (auto simp: Connect_ok applyHostKeyMode_def newClient_def direct_opts_def split: if_splits)
    ultimately have "direct_call cfg outputDir
        ([''-t'', ''-o'', ''LogLevel=ERROR''] @ sshArgs c @ [interactiveSudoCmd c (buildChangeLUKSCmd cfg)], None)"
      unfolding direct_call_def by blast
    moreover from assms c have "s' = closeClient c (snd (InteractiveSession c (buildChangeLUKSCmd cfg) (s\<lparr>disk := w\<rparr>)))"
      by (auto simp: changeKeyDirectSSH_def thenS_def wrapS_def onDisk_def finallyS_def case_prod_beta Let_def)
    then have "calls s' = calls s @
        [([''-t'', ''-o'', ''LogLevel=ERROR''] @ sshArgs c @ [interactiveSudoCmd c (buildChangeLUKSCmd cfg)], None)]"
      by (simp add: closeClient_def InteractiveSession_def Let_def case_prod_beta split: option.split)
    ultimately show ?thesis by blast
  qed
qed

lemma unlockOverTunnel_calls:
  assumes "unlockOverTunnel env cfg outputDir changeKey st = (r, st')"
  shows "ssh_calls st' = ssh_calls st \<or>
    changeKey \<and> handshakes st' = handshakes st \<and>
      (\<exists>q. ssh_calls st' = ssh_calls st @ [q] \<and> direct_call cfg outputDir q)"
proof (cases "ParseAddrPort (server_addr cfg)")
  case None
  with assms show ?thesis by (simp add: unlockOverTunnel_def)
next
  case (Some addr)
  obtain q st1 where wait: "waitTunnel env addr st = (q, st1)" by (cases "waitTunnel env addr st")
  from waitTunnel_log [OF wait] obtain xs where xs: "u_log st1 = u_log st @ waited addr xs q" "u_sys st1 = u_sys st"
    by blast
  have "filter (\<lambda>(e, x). case e of Handshake k s \<Rightarrow> True | _ \<Rightarrow> False) (refused addr xs) = []"
    by (induction xs) simp_all
  with xs have kept: "ssh_calls st1 = ssh_calls st" "handshakes st1 = handshakes st"
    by (auto simp: ssh_calls_def handshakes_def waited_def split: sum.split)
  show ?thesis
  proof (cases q)
    case (Inr u)
    with assms Some wait have "performUnlock env addr outputDir cfg changeKey st1 = (r, st')"
      by (simp add: unlockOverTunnel_def)
    from keepsS_D [OF keeps_performUnlock this] kept show ?thesis by simp
  next
    case (Inl e)
    with assms Some wait have run: "handleTunnelFailure cfg outputDir changeKey e st1 = (r, st')"
      by (simp add: unlockOverTunnel_def)
    show ?thesis
    proof (cases changeKey)
      case False
      with run kept show ?thesis by (simp add: handleTunnelFailure_def)
    next
      case True
      with run obtain s where s: "changeKeyDirectSSH cfg outputDir (u_sys st1) = (r, s)" "st' = st1\<lparr>u_sys := s\<rparr>"
        by (auto simp: handleTunnelFailure_def onSys_def split: prod.splits)
      from changeKeyDirectSSH_calls [OF s(1)] kept True s(2) show ?thesis
        by (simp add: ssh_calls_def handshakes_def)
    qed
  qed
qed

lemma Unlock_calls:
  assumes "Unlock env cfg outputDir changeKey st = (r, st')"
  shows "ssh_calls st' = ssh_calls st \<or>
    changeKey \<and> handshakes st' = handshakes st \<and>
      (\<exists>q. ssh_calls st' = ssh_calls st @ [q] \<and> direct_call cfg outputDir q)"
proof -
  let ?conf = "wrapS WGConfFailed (onSys (onDisk (parseWGConfig (outputDir @ ''/client_wg.conf''))))"
  obtain r1 st1 where conf: "?conf st = (r1, st1)" by (cases "?conf st")
  then have st1: "ssh_calls st1 = ssh_calls st" "handshakes st1 = handshakes st"
    by (auto simp: wrapS_def onSys_def onDisk_def ssh_calls_def handshakes_def case_prod_beta)
  show ?thesis
  proof (cases r1)
    case (Inl e)
    with assms conf st1 show ?thesis by (simp add: Unlock_def thenS_def)
  next
    case (Inr wg)
    obtain r2 st2 where dev: "setupWGDevice env wg st1 = (r2, st2)" by (cases "setupWGDevice env wg st1")
    have st2: "ssh_calls st2 = ssh_calls st" "handshakes st2 = handshakes st"
      using keepsS_D [OF keeps_setupWGDevice(1) dev] keepsS_D [OF keeps_setupWGDevice(2) dev] st1 by simp_all
    show ?thesis
    proof (cases r2)
      case (Inl e)
      with assms conf dev st2 \<open>r1 = Inr wg\<close> show ?thesis by (simp add: Unlock_def thenS_def)
    next
      case (Inr u)
      with assms conf dev \<open>r1 = Inr wg\<close> obtain st3 where
        "unlockOverTunnel env cfg outputDir changeKey st2 = (r, st3)" "st' = note_event DevClose (note_event DevDown st3)"
        by (auto simp: Unlock_def thenS_def finallyS_eq)
      with unlockOverTunnel_calls st2 show ?thesis by (fastforce simp: handshakes_def note_event_def ssh_calls_def)
    qed
  qed
qed

section \<open>Properties\<close>

definition pin_path :: "string \<Rightarrow> string" where
  "pin_path outputDir = outputDir @ ''/dropbear_host_key.pub''"

text \<open>
  The key in the pinned file, the commands of this unlock, and the address of the boot-time server.
\<close>

definition unlock_policy :: "net_env \<Rightarrow> config \<Rightarrow> bool \<Rightarrow> node option \<Rightarrow> policy" where
  "unlock_policy env cfg changeKey nd =
     \<lparr>may_trust = {k. case nd of Some (File data m) \<Rightarrow> ne_ParseAuthorizedKey env data = Some k | _ \<Rightarrow> False},
      may_run = (if changeKey then {unlock_cmd, buildChangeLUKSCmd cfg} else {unlock_cmd}),
      may_call = {addr. ParseAddrPort (server_addr cfg) = Some addr}\<rparr>"

lemma Unlock_run:
  assumes "Unlock env cfg outputDir changeKey st = (r, st')"
    and "node_at (disk (u_sys st)) (pin_path outputDir) = nd"
  shows "node_at (disk (u_sys st')) (pin_path outputDir) = nd \<and>
    (\<exists>h l'. u_log st' = u_log st @ h \<and>
       accepts (unlock_policy env cfg changeKey nd) (At Start (clients (u_log st))) h l' \<and>
       stage_of l' = ends_in r)"
proof -
  let ?l = "At Start (clients (u_log st))" and ?P = "unlock_policy env cfg changeKey nd"
  have "moves (pin_path outputDir) nd ?P ?l (Unlock env cfg outputDir changeKey)
      (\<lambda>a l'. stage_of l' = Closed) (\<lambda>e l'. stage_of l' = stops_in e)"
    by (rule moves_Unlock) (auto simp: pin_path_def unlock_policy_def trusted_def)
  moreover have "at_level (pin_path outputDir) nd ?l st" using assms(2) by (simp add: at_level_def)
  ultimately obtain l' where "reaches (pin_path outputDir) nd ?P ?l st l' st'"
    "case r of Inl e \<Rightarrow> stage_of l' = stops_in e | Inr a \<Rightarrow> stage_of l' = Closed"
    using assms(1) by (rule movesD)
  then show ?thesis unfolding reaches_def at_level_def ends_in_def by (cases r) auto
qed

text \<open>C2: \<open>Unlock\<close> refines the protocol: whatever the network, the libraries, the disk and the user
  answer, the calls it made are a run of the protocol from the start to the stage that its result
  names. After success, and after every error once the device was up, that is the stage in which
  the device is down and closed; to get there a run has to close every connection, every session
  and, by its own close, every client that it opened, to wait for a command it started and to
  restore a raw terminal. An error of the setup before leaves what the code leaves: nothing, when
  the configuration is unusable or the interface cannot be created; an interface that is never
  closed, when the device cannot be configured or brought up. The pinned key on the disk is as
  before.\<close>

theorem Unlock_refines_protocol:
  assumes "Unlock env cfg outputDir changeKey st = (r, st')"
  shows "\<exists>h n. u_log st' = u_log st @ h \<and>
    accepts (unlock_policy env cfg changeKey (node_at (disk (u_sys st)) (pin_path outputDir)))
      (At Start (clients (u_log st))) h (At (ends_in r) n) \<and>
    ((DevUp, None) \<in> set h \<longrightarrow> ends_in r = Closed) \<and>
    node_at (disk (u_sys st')) (pin_path outputDir) = node_at (disk (u_sys st)) (pin_path outputDir)"
proof -
  let ?nd = "node_at (disk (u_sys st)) (pin_path outputDir)"
  from Unlock_run [OF assms refl] obtain h l' where run: "u_log st' = u_log st @ h"
    "accepts (unlock_policy env cfg changeKey ?nd) (At Start (clients (u_log st))) h l'" "stage_of l' = ends_in r"
    and pin: "node_at (disk (u_sys st')) (pin_path outputDir) = ?nd" by blast
  have "ends_in r = Closed" if "(DevUp, None) \<in> set h"
    using accepts_DevUp [OF run(2) that] run(3)
    by (auto simp: setting_up_def ends_in_def stops_in_def split: unlock_error.splits sum.splits)
  moreover have "l' = At (ends_in r) (clients_of l')" using run(3) by (cases l') simp
  ultimately show ?thesis
    using run(1,2) pin by (intro exI [of _ h] exI [of _ "clients_of l'"]) simp
qed

text \<open>C1: There are two ways in which an unlock gets a command to a server. Over the tunnel a command is
  only started on a client whose handshake succeeded with the key in the pinned file, with no
  client closed in between, and it is \<open>cryptroot-unlock\<close> or, when the change was asked for, the
  change of the passphrase. The program \<open>ssh\<close> is only used when the change was asked for, and then
  only if no handshake was tried over the tunnel: for one call, which runs the change of the
  passphrase on the configured host. That call does not check the pinned key; it accepts a new
  host key and keeps it in the known hosts file of the run.\<close>

theorem commands_need_pinned_key:
  assumes "Unlock env cfg outputDir changeKey st = (r, st')"
  shows "\<exists>h. u_log st' = u_log st @ h \<and>
    (\<forall>h1 c x h2. h = h1 @ (StartCmd c, x) # h2 \<longrightarrow>
       (c = unlock_cmd \<or> changeKey \<and> c = buildChangeLUKSCmd cfg) \<and>
       (\<exists>a k s b data m. h1 = a @ (Handshake k s, None) # b \<and> (\<forall>n y. (ClientClose n, y) \<notin> set b) \<and>
          node_at (disk (u_sys st)) (pin_path outputDir) = Some (File data m) \<and>
          ne_ParseAuthorizedKey env data = Some k)) \<and>
    (calls (u_sys st') = calls (u_sys st) \<or>
     changeKey \<and> (\<forall>k s x. (Handshake k s, x) \<notin> set h) \<and>
     (\<exists>c. calls (u_sys st') = calls (u_sys st) @
            [([''-t'', ''-o'', ''LogLevel=ERROR''] @ sshArgs c @ [interactiveSudoCmd c (buildChangeLUKSCmd cfg)], None)] \<and>
          rc_host c = Host cfg \<and> rc_strictMode c = ''accept-new'' \<and>
          rc_knownHostsFile c = outputDir @ ''/known_hosts''))"
proof -
  let ?n = "node_at (disk (u_sys st)) (pin_path outputDir)" and ?l = "At Start (clients (u_log st))"
  from Unlock_run [OF assms refl] obtain h l' where h: "u_log st' = u_log st @ h"
    and run: "accepts (unlock_policy env cfg changeKey ?n) ?l h l'" by blast
  have "(c = unlock_cmd \<or> changeKey \<and> c = buildChangeLUKSCmd cfg) \<and>
       (\<exists>a k s b data m. h1 = a @ (Handshake k s, None) # b \<and> (\<forall>n y. (ClientClose n, y) \<notin> set b) \<and>
          ?n = Some (File data m) \<and> ne_ParseAuthorizedKey env data = Some k)"
    if split: "h = h1 @ (StartCmd c, x) # h2" for h1 c x h2
  proof -
    from accepts_split [OF run [unfolded split]] obtain l1 l2 where
      l1: "accepts (unlock_policy env cfg changeKey ?n) ?l h1 l1"
      and cmd: "proto (unlock_policy env cfg changeKey ?n) l1 (StartCmd c, x) l2"
      by (blast elim: accepts_ConsE)
    from cmd have c: "c \<in> may_run (unlock_policy env cfg changeKey ?n)" "Used \<le> stage_of l1"
      by (auto elim: proto_StartE simp: stage_order)
    from connected_by_handshake [OF l1 _ c(2)] obtain a k s b where
      hand: "h1 = a @ (Handshake k s, None) # b" "k \<in> may_trust (unlock_policy env cfg changeKey ?n)"
        "\<forall>n y. (ClientClose n, y) \<notin> set b" by (auto simp: stage_order)
    from hand(2) obtain data m where "?n = Some (File data m)" "ne_ParseAuthorizedKey env data = Some k"
      by (auto simp: unlock_policy_def split: option.splits node.splits)
    with hand c(1) show ?thesis by (auto simp: unlock_policy_def split: if_splits)
  qed
  moreover have "(Handshake k s, x) \<notin> set h" if "handshakes st' = handshakes st" for k s x
    using that by (auto simp: handshakes_def h filter_empty_conv)
  ultimately show ?thesis
    using Unlock_calls [OF assms] h unfolding ssh_calls_def direct_call_def by blast
qed

text \<open>C34: With a configuration that passes the checks and names the encrypted device, the command that
  changes its passphrase holds the device in double quotes, as it is: no character needs an
  escape in the Go quotation and none means anything to the shell inside the quotes.\<close>

theorem luks_device_is_quoted:
  assumes "Validate cfg = Inr ()" "luks_Device (LUKS cfg) \<noteq> []"
  shows "buildChangeLUKSCmd cfg =
      sbinPath @ '' cryptsetup luksChangeKey '' @ [dq] @ luks_Device (LUKS cfg) @ [dq] \<and>
    dq \<notin> set (luks_Device (LUKS cfg)) \<and> bslash \<notin> set (luks_Device (LUKS cfg)) \<and>
    CHR ''$'' \<notin> set (luks_Device (LUKS cfg)) \<and> CHR 0x60 \<notin> set (luks_Device (LUKS cfg))"
proof -
  have dev_prefix: "list_all luks_char ''/dev/''" by code_simp
  have not_special: "\<not> luks_char dq" "\<not> luks_char bslash" "\<not> luks_char CHR ''$''" "\<not> luks_char CHR 0x60"
    by code_simp+
  have dev: "list_all luks_char (luks_Device (LUKS cfg))"
    using assms dev_prefix unfolding Validate_iff luksDevicePattern_iff by auto
  have "go_quote_char c = [c]" if "luks_char c" for c
  proof -
    have "(45 :: nat) \<le> of_char c" "(of_char c :: nat) \<le> 122" using that by (auto simp: luks_char_def Let_def)
    moreover have "c \<noteq> dq" "c \<noteq> bslash" using that not_special by auto
    ultimately show ?thesis by (simp add: go_quote_char_def Let_def)
  qed
  then have "replace_bytes go_quote_char s = s" if "list_all luks_char s" for s
    using that by (induction s) simp_all
  then have "go_quote (luks_Device (LUKS cfg)) = [dq] @ luks_Device (LUKS cfg) @ [dq]"
    using dev by (simp add: go_quote_def)
  with assms dev not_special show ?thesis by (auto simp: buildChangeLUKSCmd_def list_all_iff)
qed

section \<open>A run from start to end\<close>

definition demo_client :: WireGuardClientConfig where
  "demo_client = sample_client
     \<lparr>cl_PrivateKey := b64_encode (replicate 32 1), cl_ServerPublicKey := b64_encode (replicate 32 2)\<rparr>"

definition demo_disk :: world where
  "demo_disk =
     set_node ''out/client_wg.conf'' (Some (File (unlines (client_lines demo_client)) 0x180))
     (set_node ''out/client_auth_ed25519'' (Some (File ''key'' 0x180))
     (set_node ''out/dropbear_host_key.pub'' (Some (File ''pin'' 0x1A4)) clean_world))"

definition demo_start :: unlocker where
  "demo_start = quiet_start\<lparr>u_sys := quiet_system\<lparr>disk := demo_disk\<rparr>\<rparr>"

lemma demo_healthy: "healthy demo_disk"
  by (simp add: demo_disk_def)

lemma demo_files:
  "node_at demo_disk ''out/client_wg.conf'' = Some (File (unlines (client_lines demo_client)) 0x180)"
  "node_at demo_disk ''out/client_auth_ed25519'' = Some (File ''key'' 0x180)"
  "node_at demo_disk ''out/dropbear_host_key.pub'' = Some (File ''pin'' 0x1A4)"
proof -
  have "Clean ''out/client_wg.conf'' = ''out/client_wg.conf''"
    "Clean ''out/client_auth_ed25519'' = ''out/client_auth_ed25519''"
    "Clean ''out/dropbear_host_key.pub'' = ''out/dropbear_host_key.pub''"
    by code_simp+
  then show "node_at demo_disk ''out/client_wg.conf'' = Some (File (unlines (client_lines demo_client)) 0x180)"
    "node_at demo_disk ''out/client_auth_ed25519'' = Some (File ''key'' 0x180)"
    "node_at demo_disk ''out/dropbear_host_key.pub'' = Some (File ''pin'' 0x1A4)"
    by (simp_all add: demo_disk_def node_at_set_node)
qed

text \<open>A key is a value the client file can hold.\<close>

lemma ini_value_b64: "bs \<noteq> [] \<Longrightarrow> length bs \<le> 32 \<Longrightarrow> ini_value (b64_encode bs)"
  using b64_encode_plain [of bs] by (simp add: ini_value_def length_b64_encode)

lemma demo_text: "parseWGText (unlines (client_lines demo_client)) = Inr (client_read demo_client)"
proof (rule parseWGText_client)
  have "ini_value (b64_encode (replicate 32 1))" "ini_value (b64_encode (replicate 32 2))"
    by (rule ini_value_b64; simp)+
  then show "list_all ini_value (client_values demo_client)"
    using sample_values by (simp add: client_values_def demo_client_def)
qed

lemma demo_run:
  "\<exists>st' ipc. Unlock quiet_env Default ''out'' False demo_start = (Inr (), st') \<and>
     u_log st' =
       [(CreateTUN (Addr4 [10, 42, 0, 2]), None), (IpcSet ipc, None), (DevUp, None),
        (Dial (Addr4 [10, 42, 0, 1], 22), None), (ConnClose, None), (Dial (Addr4 [10, 42, 0, 1], 22), None),
        (Handshake ''pin'' ''key'', None), (NewSession 1, None), (RequestPty 24 80, None), (MakeRaw, None),
        (StartCmd unlock_cmd, None), (WaitCmd, None), (Restore, None), (SessionClose, None), (ClientClose 1, None),
        (DevDown, None), (DevClose, None)]"
proof -
  let ?w = "disk (u_sys demo_start)"
  have start: "?w = demo_disk" "u_log demo_start = []" by (simp_all add: demo_start_def quiet_start_def)
  have env: "calm quiet_env" "pty_size quiet_env = (80, 24)" "ne_isTerminal quiet_env"
    by (simp_all add: calm_def quiet_env_def pty_size_def)
  have h: "healthy ?w" using demo_healthy by (simp add: start)
  have files: "login_files quiet_env (node_at ?w) ''out'' ''key'' ''pin''"
    unfolding login_files_def start using demo_files(2,3)
    by (simp add: quiet_env_def)
  have conf: "node_at ?w (''out'' @ ''/client_wg.conf'') = Some (File (unlines (client_lines demo_client)) 0x180)"
    using demo_files(1) by (simp add: start)
  have "parseFirstAddr ''10.42.0.2/32'' = Inr (Addr4 [10, 42, 0, 2])" by code_simp
  then have ip: "parseFirstAddr (wc_Address (client_read demo_client)) = Inr (Addr4 [10, 42, 0, 2])"
    by (simp add: client_read_def demo_client_def sample_client_def)
  obtain ipc where ipc: "buildIPC (client_read demo_client) = Inr ipc"
    by (simp add: buildIPC_def client_read_def demo_client_def b64ToHex_encode)
  have "ParseAddrPort (server_addr Default) = Some (Addr4 [10, 42, 0, 1], 22)" by code_simp
  from Unlock_calm [OF env(1) h files conf demo_text ip ipc this] show ?thesis
    unfolding start by (auto simp: unlock_events_def pty_events_def env)
qed

section \<open>What success means\<close>

definition extends :: "unlocker \<Rightarrow> unlocker \<Rightarrow> bool" where
  "extends st st' \<longleftrightarrow> (\<exists>h. u_log st' = u_log st @ h)"

definition completed :: "string \<Rightarrow> unlocker \<Rightarrow> unlocker \<Rightarrow> bool" where
  "completed c st st' \<longleftrightarrow> (\<exists>a b. u_log st' = u_log st @ a @ [(StartCmd c, None), (WaitCmd, None)] @ b)"

lemma extends_refl: "extends st st"
  by (simp add: extends_def)

lemma extends_note: "extends st (note_event ev st)"
  by (simp add: extends_def note_event_def)

lemma completed_trans:
  "extends st st1 \<Longrightarrow> completed c st1 st2 \<Longrightarrow> completed c st st2"
  "completed c st st1 \<Longrightarrow> extends st1 st2 \<Longrightarrow> completed c st st2"
  unfolding extends_def completed_def by (metis append.assoc)+

lemma attempt_ok:
  "attempt env ev err st = (Inr u, st') \<longleftrightarrow>
     ne_answer env (u_log st) ev = None \<and>
     st' = st\<lparr>u_log := u_log st @ [(ev, None)], u_clock := u_clock st + ne_takes env (u_log st) ev\<rparr>"
  by (auto simp: attempt_def Let_def split: option.splits)

lemma attempt_extends: "attempt env ev err st = (r, st') \<Longrightarrow> extends st st'"
  by (auto simp: attempt_def Let_def extends_def)

lemma extends_trans: "extends st st1 \<Longrightarrow> extends st1 st2 \<Longrightarrow> extends st st2"
  by (auto simp: extends_def)

text \<open>Every step extends the log.\<close>

definition extendsS :: "(unlocker, 'e, 'a) step \<Rightarrow> bool" where
  "extendsS m \<longleftrightarrow> (\<forall>st r st'. m st = (r, st') \<longrightarrow> extends st st')"

lemma extendsS_D: "extendsS m \<Longrightarrow> m st = (r, st') \<Longrightarrow> extends st st'"
  by (simp add: extendsS_def)

lemma extendsS_then: "extendsS m \<Longrightarrow> (\<And>a. extendsS (f a)) \<Longrightarrow> extendsS (thenS m f)"
  unfolding extendsS_def thenS_def by (auto split: prod.splits sum.splits) (meson extends_trans)

lemma extendsS_clean_up:
  "extendsS m \<Longrightarrow> (\<And>st. extends st (u st)) \<Longrightarrow> extendsS (finallyS m u)"
  "extendsS m \<Longrightarrow> (\<And>st. extends st (u st)) \<Longrightarrow> extendsS (undoS m u)"
  unfolding extendsS_def finallyS_def undoS_def
  by (auto split: prod.splits sum.splits) (meson extends_trans)+

lemma extendsS_basic:
  "extendsS (returnS a)" "extendsS (liftS r)" "extendsS (attempt env ev err)" "extendsS (onSys f)"
  "extendsS m \<Longrightarrow> extendsS (wrapS g m)"
  by (auto simp: extendsS_def wrapS_def onSys_def attempt_def Let_def extends_def split: prod.splits)

lemmas extendsS_intros = extendsS_then extendsS_clean_up extendsS_basic

lemma attachPTY_extends: "extendsS (attachPTY env)"
  unfolding attachPTY_def Let_def case_prod_beta
  by (intro extendsS_then extendsS_basic) (auto simp: extendsS_def attempt_def Let_def extends_def split: option.splits if_splits)

lemma runPTY_extends: "extendsS (runPTY env client cmd)"
proof -
  have "extends st ((if raw then note_event Restore else id) st)" for raw st
    by (simp add: extends_refl extends_note)
  then show ?thesis
    unfolding runPTY_def by (intro extendsS_intros attachPTY_extends extends_note)
qed

lemma dialSSH_extends: "extendsS (dialSSH env addr outputDir)"
proof -
  have "extendsS (\<lambda>st. (Inr (clients (u_log st)), st))" by (simp add: extendsS_def extends_refl)
  then show ?thesis
    unfolding dialSSH_def loadSSHKey_def loadPinnedKey_def
    by (intro extendsS_intros extends_note) (auto intro: extendsS_intros split: option.split)
qed

lemma setupWGDevice_extends: "extendsS (setupWGDevice env wg)"
  unfolding setupWGDevice_def by (intro extendsS_intros)

lemma runPTY_completed:
  assumes "runPTY env client cmd st = (Inr u, st')"
  shows "completed cmd st st'"
proof -
  obtain raw st1 st2 st3 st4 where s1: "attempt env (NewSession client) NoSession st = (Inr (), st1)"
    and s2: "attachPTY env st1 = (Inr raw, st2)"
    and s3: "attempt env (StartCmd cmd) StartFailed st2 = (Inr (), st3)"
    and s4: "attempt env WaitCmd CommandEnded st3 = (Inr (), st4)"
    and st': "st' = note_event SessionClose ((if raw then note_event Restore else id) st4)"
    using assms unfolding runPTY_def by (auto simp: res_simps finallyS_eq)
  have "extends st st2"
    using attempt_extends [OF s1] extendsS_D [OF attachPTY_extends s2] by (rule extends_trans)
  moreover have "completed cmd st2 st4"
    using s3 s4 by (auto simp: attempt_ok completed_def)
  moreover have "extends st4 st'"
    unfolding st' by (cases raw) (simp_all add: extends_def note_event_def)
  ultimately show ?thesis using completed_trans by blast
qed

lemma performUnlock_completed:
  assumes "performUnlock env addr outputDir cfg changeKey st = (Inr u, st')"
  shows "completed (if changeKey then buildChangeLUKSCmd cfg else unlock_cmd) st st'"
proof -
  obtain client st1 st2 where dial: "dialSSH env addr outputDir st = (Inr client, st1)"
    and run: "(if changeKey then handleChangeAndUnlock env client addr outputDir cfg else runUnlock env client) st1 = (Inr u, st2)"
    and st': "st' = note_event (ClientClose client) st2"
    using assms unfolding performUnlock_def by (auto simp: res_simps finallyS_eq)
  have "completed (if changeKey then buildChangeLUKSCmd cfg else unlock_cmd) st1 st2"
  proof (cases changeKey)
    case False
    with run runPTY_completed show ?thesis by (auto simp: runUnlock_def res_simps)
  next
    case True
    with run obtain proceed st3 where change: "runChangeKey env client cfg st1 = (Inr proceed, st3)"
      and rest: "(if \<not> proceed then returnS ()
        else thenS (wrapS ReconnectFailed (dialSSH env addr outputDir))
               (\<lambda>newClient. finallyS (runUnlock env newClient) (note_event (ClientClose newClient))))
          (note_event (ClientClose client) st3) = (Inr u, st2)"
      unfolding handleChangeAndUnlock_def by (auto simp: res_simps finallyS_eq)
    from change obtain st4 where "runPTY env client (buildChangeLUKSCmd cfg) st1 = (Inr (), st4)" "extends st4 st3"
      unfolding runChangeKey_def by (auto simp: res_simps Let_def case_prod_beta extends_def)
    then have c: "completed (buildChangeLUKSCmd cfg) st1 st3" using runPTY_completed completed_trans by blast
    have "extends (note_event (ClientClose client) st3) st2"
    proof (cases proceed)
      case False
      with rest show ?thesis by (simp add: extends_refl)
    next
      case True
      with rest obtain new st5 st6 where dial2: "dialSSH env addr outputDir (note_event (ClientClose client) st3) = (Inr new, st5)"
        and run2: "runPTY env new unlock_cmd st5 = (Inr u, st6)" and st2: "st2 = note_event (ClientClose new) st6"
        by (auto simp: res_simps finallyS_eq runUnlock_def)
      have "extends (note_event (ClientClose client) st3) st5" "extends st5 st6" "extends st6 st2"
        using extendsS_D [OF dialSSH_extends dial2] extendsS_D [OF runPTY_extends run2] st2 by (simp_all add: extends_note)
      then show ?thesis by (blast intro: extends_trans)
    qed
    with extends_note have "extends st3 st2" by (rule extends_trans)
    with c have "completed (buildChangeLUKSCmd cfg) st1 st2" by (rule completed_trans)
    with True show ?thesis by simp
  qed
  with extendsS_D [OF dialSSH_extends dial] have "completed (if changeKey then buildChangeLUKSCmd cfg else unlock_cmd) st st2"
    by (rule completed_trans)
  moreover have "extends st2 st'" unfolding st' by (rule extends_note)
  ultimately show ?thesis by (rule completed_trans)
qed

text \<open>Over SSH to the running system the command is the last call of \<open>ssh\<close>, and it succeeded.\<close>

definition ran_over_ssh :: "string \<Rightarrow> system \<Rightarrow> system \<Rightarrow> bool" where
  "ran_over_ssh cmd s s' \<longleftrightarrow>
     (\<exists>c. calls s' = calls s @ [([''-t'', ''-o'', ''LogLevel=ERROR''] @ sshArgs c @ [interactiveSudoCmd c cmd], None)] \<and>
        p_err (ssh_reply s (length (calls s)) (last (calls s'))) = None \<and> rc_strictMode c = ''accept-new'')"

lemma direct_completed:
  assumes "changeKeyDirectSSH cfg outputDir s = (Inr u, s')"
  shows "ran_over_ssh (buildChangeLUKSCmd cfg) s s'"
proof -
  obtain c w s2 where conn: "Connect (Some (direct_opts cfg outputDir)) (disk s) = (Inr c, w)"
    and run: "InteractiveSession c (buildChangeLUKSCmd cfg) (s\<lparr>disk := w\<rparr>) = (Inr u, s2)"
    and s': "s' = closeClient c s2"
    using assms unfolding changeKeyDirectSSH_def by (auto simp: res_simps finallyS_eq)
  from Connect_modes [OF conn] have "rc_strictMode c = ''accept-new''" by (auto simp: direct_opts_def)
  with run s' show ?thesis
    unfolding ran_over_ssh_def
    by (intro exI [of _ c])
      (auto simp: InteractiveSession_def Let_def case_prod_beta closeClient_def split: option.splits)
qed

lemma Unlock_parts:
  assumes "Unlock env cfg outputDir changeKey st = (Inr u, st')"
  shows "\<exists>addr st1. extends st st1 \<and> u_sys st1 = (u_sys st)\<lparr>disk := disk (u_sys st1)\<rparr> \<and>
    ((\<exists>st2. performUnlock env addr outputDir cfg changeKey st1 = (Inr u, st2) \<and> extends st2 st') \<or>
     changeKey \<and> (\<exists>s. changeKeyDirectSSH cfg outputDir (u_sys st1) = (Inr u, s) \<and> u_sys st' = s))"
proof -
  obtain wg st1 st2 st3 where conf: "onSys (onDisk (parseWGConfig (outputDir @ ''/client_wg.conf''))) st = (Inr wg, st1)"
    and dev: "setupWGDevice env wg st1 = (Inr (), st2)"
    and run: "unlockOverTunnel env cfg outputDir changeKey st2 = (Inr u, st3)"
    and st': "st' = note_event DevClose (note_event DevDown st3)"
    using assms unfolding Unlock_def by (auto simp: res_simps finallyS_eq)
  from run obtain addr q st4 where wait: "waitTunnel env addr st2 = (q, st4)"
    and rest: "(case q of Inl e \<Rightarrow> handleTunnelFailure cfg outputDir changeKey e st4
        | Inr x \<Rightarrow> performUnlock env addr outputDir cfg changeKey st4) = (Inr u, st3)"
    unfolding unlockOverTunnel_def by (auto split: option.splits prod.splits sum.splits)
  have "u_log st1 = u_log st" "u_sys st1 = (u_sys st)\<lparr>disk := disk (u_sys st1)\<rparr>"
    using conf by (auto simp: onSys_def onDisk_def split: prod.splits)
  moreover have "extends st1 st2" by (rule extendsS_D [OF setupWGDevice_extends dev])
  moreover have "extends st2 st4" using waitTunnel_log [OF wait] by (auto simp: extends_def)
  moreover have "u_sys st2 = u_sys st1"
    using dev by (auto simp: setupWGDevice_def res_simps attempt_ok)
  moreover have "u_sys st4 = u_sys st2"
    using waitTunnel_log [OF wait] by blast
  ultimately have "extends st st4" "u_sys st4 = (u_sys st)\<lparr>disk := disk (u_sys st4)\<rparr>"
    by (auto simp: extends_def)
  moreover have "extends st3 st'" unfolding st' using extends_note extends_trans by blast
  moreover have "u_sys st' = u_sys st3" unfolding st' by (simp add: note_event_def)
  ultimately show ?thesis
    using rest by (intro exI [of _ addr] exI [of _ st4])
      (auto simp: handleTunnelFailure_def onSys_def split: sum.splits if_splits prod.splits)
qed

text \<open>C8: When \<open>Unlock\<close> succeeds, its command was started on the server and ended without an error:
  \<open>cryptroot-unlock\<close>, or the change of the passphrase when that was asked for; only the change may
  have run over SSH on the system that had already booted instead. Success is never reported for
  a command that did not run.\<close>

theorem Unlock_success:
  assumes "Unlock env cfg outputDir changeKey st = (Inr u, st')"
  shows "completed (if changeKey then buildChangeLUKSCmd cfg else unlock_cmd) st st' \<or>
    changeKey \<and> ran_over_ssh (buildChangeLUKSCmd cfg) (u_sys st) (u_sys st')"
proof -
  obtain addr st1 where st1: "extends st st1" "u_sys st1 = (u_sys st)\<lparr>disk := disk (u_sys st1)\<rparr>"
    and how: "(\<exists>st2. performUnlock env addr outputDir cfg changeKey st1 = (Inr u, st2) \<and> extends st2 st') \<or>
      changeKey \<and> (\<exists>s. changeKeyDirectSSH cfg outputDir (u_sys st1) = (Inr u, s) \<and> u_sys st' = s)"
    using Unlock_parts [OF assms] by blast
  from how show ?thesis
  proof
    assume "\<exists>st2. performUnlock env addr outputDir cfg changeKey st1 = (Inr u, st2) \<and> extends st2 st'"
    then show ?thesis using performUnlock_completed completed_trans st1(1) by blast
  next
    assume "changeKey \<and> (\<exists>s. changeKeyDirectSSH cfg outputDir (u_sys st1) = (Inr u, s) \<and> u_sys st' = s)"
    then have "changeKey" "ran_over_ssh (buildChangeLUKSCmd cfg) (u_sys st1) (u_sys st')"
      using direct_completed by blast+
    moreover have "calls (u_sys st1) = calls (u_sys st)" "ssh_reply (u_sys st1) = ssh_reply (u_sys st)"
      by (subst st1(2); simp)+
    ultimately show ?thesis by (simp add: ran_over_ssh_def)
  qed
qed

lemma Unlock_success_witness: "\<exists>st'. Unlock quiet_env Default ''out'' False demo_start = (Inr (), st') \<and>
    completed unlock_cmd demo_start st'"
proof -
  obtain st' where run: "Unlock quiet_env Default ''out'' False demo_start = (Inr (), st')" using demo_run by blast
  from Unlock_success [OF run] run show ?thesis by auto
qed

lemma Unlock_refines_protocol_witness:
  "\<exists>st' n. Unlock quiet_env Default ''out'' False demo_start = (Inr (), st') \<and>
     accepts (unlock_policy quiet_env Default False (Some (File ''pin'' 0x1A4))) (At Start 0) (u_log st') (At Closed n) \<and>
     (DevUp, None) \<in> set (u_log st')"
proof -
  obtain st' where run: "Unlock quiet_env Default ''out'' False demo_start = (Inr (), st')"
    and up: "(DevUp, None) \<in> set (u_log st')"
    using demo_run by (metis list.set_intros)
  have "u_log demo_start = []" "node_at (disk (u_sys demo_start)) (pin_path ''out'') = Some (File ''pin'' 0x1A4)"
    using demo_files(3) by (simp_all add: demo_start_def quiet_start_def pin_path_def)
  with Unlock_refines_protocol [OF run] run up show ?thesis by (auto simp: ends_in_def)
qed

lemma commands_need_pinned_key_witness:
  "\<exists>st' h1 x h2. Unlock quiet_env Default ''out'' False demo_start = (Inr (), st') \<and>
     u_log st' = h1 @ (StartCmd unlock_cmd, x) # h2 \<and>
     (\<exists>k s. (Handshake k s, None) \<in> set h1 \<and> ne_ParseAuthorizedKey quiet_env ''pin'' = Some k) \<and>
     calls (u_sys st') = []"
proof -
  obtain st' where run: "Unlock quiet_env Default ''out'' False demo_start = (Inr (), st')"
    and cmd: "(StartCmd unlock_cmd, None) \<in> set (u_log st')"
    using demo_run by (metis list.set_intros)
  obtain h1 h2 where split: "u_log st' = h1 @ (StartCmd unlock_cmd, None) # h2"
    using cmd by (auto simp: in_set_conv_decomp)
  have start: "u_log demo_start = []" "disk (u_sys demo_start) = demo_disk" "calls (u_sys demo_start) = []"
    by (simp_all add: demo_start_def quiet_start_def quiet_system_def)
  have calls: "calls (u_sys st') = []"
    using commands_need_pinned_key [OF run] start(3) by (elim exE conjE disjE) simp_all
  have "\<exists>a k s b data m. h1 = a @ (Handshake k s, None) # b \<and>
      node_at demo_disk (pin_path ''out'') = Some (File data m) \<and> ne_ParseAuthorizedKey quiet_env data = Some k"
    using commands_need_pinned_key [OF run] unfolding start append_Nil
    by - (elim exE conjE, drule spec [of _ h1], drule spec [of _ unlock_cmd], drule spec [of _ None], drule spec [of _ h2],
      use split in blast)
  then obtain a k s b data m where "h1 = a @ (Handshake k s, None) # b"
    "node_at demo_disk (pin_path ''out'') = Some (File data m)" "ne_ParseAuthorizedKey quiet_env data = Some k"
    by blast
  moreover have "node_at demo_disk (pin_path ''out'') = Some (File ''pin'' 0x1A4)"
    using demo_files(3) by (simp add: pin_path_def)
  ultimately have "(Handshake k s, None) \<in> set h1" "ne_ParseAuthorizedKey quiet_env ''pin'' = Some k" by auto
  with run split calls show ?thesis by blast
qed

lemma luks_device_is_quoted_witness:
  "buildChangeLUKSCmd (Default\<lparr>Host := ''h'', LUKS := \<lparr>luks_Device = ''/dev/sda3''\<rparr>\<rparr>) =
     sbinPath @ '' cryptsetup luksChangeKey '' @ [dq] @ ''/dev/sda3'' @ [dq]"
proof -
  let ?c = "Default\<lparr>Host := ''h'', LUKS := \<lparr>luks_Device = ''/dev/sda3''\<rparr>\<rparr>"
  have "Validate ?c = Inr ()" by code_simp
  from luks_device_is_quoted [OF this] show ?thesis by simp
qed

end
