(* ===== verification/Cli.thy ===== *)
theory Cli
  imports Cli_Input Setup Checker Unlock_Protocol
begin

text \<open>
  The commands of \<open>main.go\<close>. A command that only uses files, the terminal and \<open>ssh\<close> is a step of the
  system; \<open>unlock\<close> also uses the network. What is printed is left out, except for the report of
  \<open>status\<close> and the usage text, which are the only effect of their commands.
\<close>

section \<open>Errors and the environment\<close>

datatype cli_error =
    FlagFailed flag_error
  | UnknownSubcommand string
  | EditFailed tui_error
  | AlreadyExists string
  | CannotWrite string os_error
  | ConfigNotFound string
  | LoadFailed load_error
  | PromptFailed prompt_error
  | InvalidConfig config_error
  | ToolsMissing tool_error
  | CannotMakeDir string os_error
  | KeysFailed key_error
  | ConnectFailed remote_error
  | SudoPasswordUnread
  | SudoRefused remote_error
  | ConfigureFailed setup_error
  | RenderClientFailed ini_error
  | NoOutputDir string
  | NoOutputDirs
  | MissingFile string
  | UnlockFailed unlock_error

text \<open>The libraries, the network, and the names in the working directory in the order of \<open>Glob\<close>.\<close>

record cli_env =
  ce_net :: net_env
  ce_crypto :: crypto
  ce_names :: "string list"

section \<open>Configuration files\<close>

definition cmdInit :: "string \<Rightarrow> (system, cli_error, unit) step" where
  "cmdInit cfgPath s =
     (case onDisk (os_Stat cfgPath) s of
        (Inr _, s') \<Rightarrow> (Inl (AlreadyExists cfgPath), s')
      | (Inl _, s') \<Rightarrow> wrapS (CannotWrite cfgPath) (onDisk (os_WriteFile cfgPath DefaultTemplate 0x1A4)) s')"

text \<open>\<open>errors.Is(err, os.ErrNotExist)\<close> of an error of \<open>config.Load\<close>.\<close>

definition isNotExist :: "load_error \<Rightarrow> bool" where
  "isNotExist e = (case e of LoadRead p (NotExist q) \<Rightarrow> True | _ \<Rightarrow> False)"

definition loadConfig :: "string \<Rightarrow> (system, cli_error, config) step" where
  "loadConfig cfgPath =
     wrapS (\<lambda>e. if isNotExist e then ConfigNotFound cfgPath else LoadFailed e) (onDisk (Load cfgPath))"

definition loadOrBootstrap :: "string \<Rightarrow> (system, cli_error, config) step" where
  "loadOrBootstrap cfgPath =
     (if cfgPath \<noteq> [] then loadConfig cfgPath
      else (\<lambda>s. case onDisk (Load ''ubo.toml'') s of
                  (Inr cfg, s') \<Rightarrow> (Inr cfg, s')
                | (Inl e, s') \<Rightarrow>
                    if \<not> isNotExist e then (Inl (LoadFailed e), s')
                    else wrapS PromptFailed (onTTY bootstrapConfig) s'))"

section \<open>run\<close>

definition prepareRun :: "string \<Rightarrow> (system, cli_error, config \<times> string) step" where
  "prepareRun cfgPath =
     thenS (loadOrBootstrap cfgPath) (\<lambda>cfg.
     thenS (liftS (wrapE InvalidConfig (Validate cfg))) (\<lambda>_.
     thenS (\<lambda>s. (wrapE ToolsMissing (CheckTools ''run'' s), s)) (\<lambda>_.
     let outDir = OutputDir cfg
     in thenS (wrapS (CannotMakeDir outDir) (onDisk (os_MkdirAll outDir 0x1C0))) (\<lambda>_.
        returnS (cfg, outDir)))))"

definition sudoProbe :: "Client \<Rightarrow> system \<Rightarrow> remote_error option \<times> system" where
  "sudoProbe c s = (let ((out, err), s') = RunCommand c ''true'' s in (err, s'))"

text \<open>
  \<open>strings.TrimRight(line, "\r\n")\<close> of the line; an input without a newline is an error. The calls
  of \<open>stty\<close> around it, whose errors are ignored, only change what the terminal shows.
\<close>

definition readSudoPasswordTTY :: "(system, cli_error, string) step" where
  "readSudoPasswordTTY s =
     (case ttyLine s of ((line, end), s') \<Rightarrow>
        if end \<noteq> GotLine then (Inl SudoPasswordUnread, s')
        else (Inr (rev (dropWhile (\<lambda>c. c = CHR 0x0D \<or> c = nl) (rev line))), s'))"

text \<open>The client as it is afterwards.\<close>

definition ensureSudo :: "Client \<Rightarrow> config \<Rightarrow> (system, cli_error, Client) step" where
  "ensureSudo client cfg s =
     (if \<not> ssh_Sudo (SSH cfg) then (Inr client, s)
      else case sudoProbe client s of
             (None, s1) \<Rightarrow> (Inr client, s1)
           | (Some _, s1) \<Rightarrow>
               thenS readSudoPasswordTTY (\<lambda>pw s2.
                 let client' = SetSudoPassword pw client
                 in case sudoProbe client' s2 of
                      (None, s3) \<Rightarrow> (Inr client', s3)
                    | (Some e, s3) \<Rightarrow> (Inl (SudoRefused e), s3)) s1)"

definition run_opts :: "config \<Rightarrow> string \<Rightarrow> ConnectOptions" where
  "run_opts cfg outDir =
     \<lparr>co_Host = Host cfg, co_Port = ssh_Port (SSH cfg), co_User = ssh_User (SSH cfg),
      co_KeyPath = ssh_Key (SSH cfg), co_KnownHostsPath = Join [outDir, ''ssh_known_hosts''],
      co_PinnedKeyPath = [], co_Sudo = ssh_Sudo (SSH cfg), co_ProxyJump = ssh_ProxyJump (SSH cfg)\<rparr>"

definition connectForRun :: "config \<Rightarrow> string \<Rightarrow> (system, cli_error, Client) step" where
  "connectForRun cfg outDir =
     thenS (wrapS ConnectFailed (onDisk (Connect (Some (run_opts cfg outDir))))) (\<lambda>client.
     undoS (ensureSudo client cfg) (closeClient client))"

definition wgEndpoint :: "string \<Rightarrow> int \<Rightarrow> string" where
  "wgEndpoint host port =
     (if CHR '':'' \<in> set host then ''['' @ host @ '']:'' @ itoa port else host @ '':'' @ itoa port)"

definition run_client :: "config \<Rightarrow> Keys \<Rightarrow> WireGuardClientConfig" where
  "run_client cfg keys =
     \<lparr>cl_PrivateKey = ClientWGPrivate keys, cl_Address = wg_ClientIP (WireGuard cfg),
      cl_ServerPublicKey = ServerWGPublic keys, cl_ServerEndpoint = wgEndpoint (Host cfg) (wg_Port (WireGuard cfg)),
      cl_AllowedIPs = WGServerTunnelIP cfg @ ''/32''\<rparr>"

definition writeRunArtifacts :: "config \<Rightarrow> Keys \<Rightarrow> string \<Rightarrow> string \<Rightarrow> (system, cli_error, string) step" where
  "writeRunArtifacts cfg keys outDir cfgPath =
     (let wgClientPath = Join [outDir, ''client_wg.conf''];
          readme = RenderReadme \<lparr>rd_ServerTunnelIP = WGServerTunnelIP cfg,
            rd_DropbearPort = db_Port (Dropbear cfg), rd_ConfigPath = cfgPath\<rparr>;
          readmePath = Join [outDir, ''README.txt'']
      in thenS (liftS (wrapE RenderClientFailed (client_MarshalINI (run_client cfg keys)))) (\<lambda>wgClientINI.
         thenS (wrapS (CannotWrite wgClientPath) (onDisk (os_WriteFile wgClientPath wgClientINI 0x180))) (\<lambda>_.
         thenS (wrapS (CannotWrite readmePath) (onDisk (os_WriteFile readmePath readme 0x1A4))) (\<lambda>_.
         returnS readmePath))))"

text \<open>That the copy of the configuration cannot be saved is a warning only.\<close>

definition saveCopy :: "config \<Rightarrow> string \<Rightarrow> (system, cli_error, unit) step" where
  "saveCopy cfg path s = (Inr (), snd (onDisk (Save cfg path) s))"

definition cmdRun :: "crypto \<Rightarrow> string \<Rightarrow> (system, cli_error, unit) step" where
  "cmdRun cr cfgPath =
     thenS (prepareRun cfgPath) (\<lambda>(cfg, outDir).
     thenS (wrapS KeysFailed (onDisk (GenerateAll cr outDir))) (\<lambda>keys.
     thenS (connectForRun cfg outDir) (\<lambda>client.
     let outCfgPath = Join [outDir, ''ubo.toml'']
     in finallyS
          (thenS (wrapS ConfigureFailed (Configure client cfg keys outDir)) (\<lambda>_.
           thenS (saveCopy cfg outCfgPath) (\<lambda>_.
           thenS (writeRunArtifacts cfg keys outDir outCfgPath) (\<lambda>_. returnS ()))))
          (closeClient client))))"

section \<open>status\<close>

definition statusArtifacts :: "(string \<times> bool) list" where
  "statusArtifacts =
     [(''server_wg_private.key'', False), (''server_wg_public.key'', False),
      (''client_wg_private.key'', False), (''client_wg_public.key'', False),
      (''client_auth_ed25519'', True), (''client_auth_ed25519.pub'', False),
      (''dropbear_host_key.pub'', True), (''client_wg.conf'', True), (''README.txt'', False)]"

fun statusLoop :: "string \<Rightarrow> (string \<times> bool) list \<Rightarrow> bool \<times> (string \<rightharpoonup> bool) \<Rightarrow> world \<Rightarrow>
    (bool \<times> (string \<rightharpoonup> bool)) \<times> world" where
  "statusLoop outDir [] (ready, present) w = ((ready, present), w)"
| "statusLoop outDir ((name, required) # as) (ready, present) w =
     (let (r, w') = os_Stat (Join [outDir, name]) w; ok = isOk r
      in statusLoop outDir as (if required \<and> \<not> ok then False else ready, present(name \<mapsto> ok)) w')"

definition statusReport :: "string \<Rightarrow> world \<Rightarrow> (bool \<times> (string \<rightharpoonup> bool)) \<times> world" where
  "statusReport outDir = statusLoop outDir statusArtifacts (True, Map.empty)"

text \<open>What is printed: the artifacts in their order, each with its mark, and whether all is there.\<close>

datatype report = NotConfigured | Artifacts bool "(string \<times> bool \<times> bool) list"

definition printArtifactList :: "(string \<rightharpoonup> bool) \<Rightarrow> (string \<times> bool \<times> bool) list" where
  "printArtifactList present = map (\<lambda>(name, required). (name, present name = Some True, required)) statusArtifacts"

definition cmdStatus :: "string \<Rightarrow> (system, cli_error, report) step" where
  "cmdStatus cfgPath =
     thenS (loadConfig cfgPath) (\<lambda>cfg s.
       case onDisk (os_Stat (OutputDir cfg)) s of
         (Inl _, s1) \<Rightarrow> (Inr NotConfigured, s1)
       | (Inr _, s1) \<Rightarrow>
           let ((ready, present), w) = statusReport (OutputDir cfg) (disk s1)
           in (Inr (Artifacts ready (printArtifactList present)), s1\<lparr>disk := w\<rparr>))"

section \<open>unlock\<close>

definition findConfigByHost :: "string \<Rightarrow> (system, cli_error, string) step" where
  "findConfigByHost host s =
     (let p = Join [''ubo-'' @ host, ''ubo.toml'']
      in case onDisk (os_Stat p) s of
           (Inr _, s') \<Rightarrow> (Inr p, s')
         | (Inl _, s') \<Rightarrow> (Inl (NoOutputDir host), s'))"

text \<open>
  \<open>filepath.Glob("ubo-*/ubo.toml")\<close>: of the names in the working directory, which come sorted, those
  with the prefix whose directory can be looked into and holds the file; errors count as no match.
\<close>

fun globConfigs :: "string list \<Rightarrow> world \<Rightarrow> string list \<times> world" where
  "globConfigs [] w = ([], w)"
| "globConfigs (name # names) w =
     (if \<not> has_prefix name ''ubo-'' then globConfigs names w
      else let p = Join [name, ''ubo.toml'']; (r, w1) = os_Stat p w; (ps, w2) = globConfigs names w1
           in (if isOk r then p # ps else ps, w2))"

definition pickUnlockConfig :: "string list \<Rightarrow> (system, cli_error, string) step" where
  "pickUnlockConfig names s =
     (let (matches, w) = globConfigs names (disk s); s1 = s\<lparr>disk := w\<rparr>
      in case matches of
           [] \<Rightarrow> (Inl NoOutputDirs, s1)
         | [m] \<Rightarrow> (Inr m, s1)
         | _ \<Rightarrow> wrapS PromptFailed (onTTY (promptSelectConfig matches)) s1)"

definition resolveUnlockConfig :: "string list \<Rightarrow> string list \<Rightarrow> (system, cli_error, string) step" where
  "resolveUnlockConfig names args =
     (case args of host # rest \<Rightarrow> findConfigByHost host | [] \<Rightarrow> pickUnlockConfig names)"

definition loadUnlockConfig :: "string \<Rightarrow> (system, cli_error, config) step" where
  "loadUnlockConfig cfgPath =
     thenS (loadConfig cfgPath) (\<lambda>cfg.
     thenS (liftS (wrapE InvalidConfig (Validate cfg))) (\<lambda>_. returnS cfg))"

fun requireUnlockFiles :: "string list \<Rightarrow> (world, cli_error, unit) step" where
  "requireUnlockFiles [] w = (Inr (), w)"
| "requireUnlockFiles (p # ps) w =
     (case os_Stat p w of
        (Inl _, w') \<Rightarrow> (Inl (MissingFile p), w')
      | (Inr _, w') \<Rightarrow> requireUnlockFiles ps w')"

definition unlockFiles :: "string \<Rightarrow> string list" where
  "unlockFiles outDir =
     [Join [outDir, ''client_wg.conf''], Join [outDir, ''client_auth_ed25519''], Join [outDir, ''dropbear_host_key.pub'']]"

definition cmdUnlock :: "net_env \<Rightarrow> string \<Rightarrow> bool \<Rightarrow> (unlocker, cli_error, unit) step" where
  "cmdUnlock env cfgPath changeKey =
     thenS (onSys (loadUnlockConfig cfgPath)) (\<lambda>cfg.
     let outDir = OutputDir cfg
     in thenS (onSys (onDisk (requireUnlockFiles (unlockFiles outDir)))) (\<lambda>_.
        wrapS UnlockFailed (Unlock env cfg outDir changeKey)))"

section \<open>Dispatch\<close>

text \<open>What a command that returned no error has shown.\<close>

datatype outcome = Usage | Finished | Status report

type_synonym handler = "string \<Rightarrow> string list \<Rightarrow> (unlocker, cli_error, outcome) step"

definition finished :: "('s, 'e, unit) step \<Rightarrow> ('s, 'e, outcome) step" where
  "finished m = thenS m (\<lambda>_. returnS Finished)"

definition unlock_handler :: "cli_env \<Rightarrow> bool \<Rightarrow> handler" where
  "unlock_handler env changeKey cfgPath args =
     thenS (if cfgPath = [] then onSys (resolveUnlockConfig (ce_names env) args) else returnS cfgPath) (\<lambda>path.
     finished (cmdUnlock (ce_net env) path changeKey))"

definition subcommands :: "cli_env \<Rightarrow> (string \<times> handler) list" where
  "subcommands env =
     [(''configure'', \<lambda>cfgPath args. finished (wrapS EditFailed (onSys (Run (orDefault cfgPath ''ubo.toml''))))),
      (''init'', \<lambda>cfgPath args. finished (onSys (cmdInit (orDefault cfgPath ''ubo.toml'')))),
      (''run'', \<lambda>cfgPath args. finished (onSys (cmdRun (ce_crypto env) cfgPath))),
      (''status'', \<lambda>cfgPath args.
         thenS (onSys (cmdStatus (orDefault cfgPath ''ubo.toml''))) (\<lambda>r. returnS (Status r))),
      (''unlock'', unlock_handler env False),
      (''unlock-change'', unlock_handler env True)]"

definition dispatch :: "cli_env \<Rightarrow> string list \<Rightarrow> (unlocker, cli_error, outcome) step" where
  "dispatch env args0 =
     (case parseSubcommand args0 of (sub, args) \<Rightarrow>
        if isHelpSubcommand sub then returnS Usage
        else case parseFlags [] args of
               Inl ErrHelp \<Rightarrow> returnS Usage
             | Inl e \<Rightarrow> liftS (Inl (FlagFailed e))
             | Inr (cfgPath, rest) \<Rightarrow>
                 (case map_of (subcommands env) sub of
                    None \<Rightarrow> liftS (Inl (UnknownSubcommand sub))
                  | Some run \<Rightarrow> run cfgPath rest))"

end
