(* ===== verification/Config_Template.thy ===== *)
theory Config_Template
  imports Cli
begin

text \<open>
  The template that \<open>ubo init\<close> writes is a configuration file: it parses, it changes nothing of
  \<open>Default\<close> but the host, and the result is valid. With it, what \<open>ubo init\<close> does to the disk.
\<close>

text \<open>The one line with a number too large to be read by unfolding.\<close>

lemma atoi_51820: "atoi ''51820'' = Some 51820"
  by (simp add: atoi_def split_sign_def is_digit_def digits_val_def digit_val_def int64_def)

lemma template_port: "parseKeyValue ''port      = 51820'' = Inr (''port'', intValue 51820)"
proof -
  have "index_byte ''port      = 51820'' CHR ''='' = Some 10"
    "trim_space (take 10 ''port      = 51820'') = ''port''"
    "contains_any ''port'' ([CHR '' '', tab, dq] @ ''[]#'') = False"
    "trim_space (drop (Suc 10) ''port      = 51820'') = ''51820''" "bareToken ''51820'' = ''51820''"
    by code_simp+
  then show ?thesis
    by (simp add: parseKeyValue_def parseValue_def parseIntValue_def atoi_51820 Let_def
        del: drop_Suc_Cons take_Suc_Cons)
qed

definition template_config :: config where
  "template_config = put_Host ''192.168.1.100'' Default"

lemma template_port_line:
  "parseLines 14 [''port      = 51820''] (template_config, ''wireguard'')
    = Inr (template_config, ''wireguard'')"
proof -
  have "trim_space ''port      = 51820'' = ''port      = 51820''" by code_simp
  then show ?thesis
    by (simp add: template_config_def parseLine_def template_port assign_def schema_def
        intField_def value_defs put_defs Default_def str_simps)
qed

lemma template_head:
  "parseLines 0 (take 14 DefaultTemplate_lines) (Default, []) = Inr (template_config, ''wireguard'')"
  by code_simp

lemma template_tail:
  "parseLines 15 (drop 15 DefaultTemplate_lines @ [[]]) (template_config, ''wireguard'')
    = Inr (template_config, ''luks'')"
  by code_simp

lemma template_lines:
  "DefaultTemplate_lines @ [[]] =
     take 14 DefaultTemplate_lines @ [''port      = 51820''] @ (drop 15 DefaultTemplate_lines @ [[]])"
  by code_simp

lemma template_no_nl: "list_all (\<lambda>l. nl \<notin> set l) DefaultTemplate_lines"
  by code_simp

lemma length_template_head: "length (take 14 DefaultTemplate_lines) = 14"
  by code_simp

lemma parseLines_template:
  "parseLines 0 (DefaultTemplate_lines @ [[]]) (Default, []) = Inr (template_config, ''luks'')"
proof -
  have "parseLines 14 ([''port      = 51820''] @ (drop 15 DefaultTemplate_lines @ [[]]))
      (template_config, ''wireguard'') = Inr (template_config, ''luks'')"
    unfolding parseLines_append [of _ "[x]" for x] template_port_line using template_tail by simp
  then show ?thesis
    unfolding template_lines parseLines_append [of 0] template_head length_template_head by simp
qed

lemma parseTOML_template: "parseTOML DefaultTemplate Default = Inr template_config"
  using template_no_nl parseLines_template
  by (simp add: parseTOML_def DefaultTemplate_def split_unlines list_all_iff)

section \<open>The defaults are valid\<close>

lemma default_topology: "validateTunnelTopology (put_Host h Default) = Inr ()"
proof -
  have "take 24 (ip_bits [10, 42, 0, 1]) = take 24 (ip_bits [10, 42, 0, 2])"
    by (simp add: ip_bits_def; code_simp)
  then show ?thesis
    by (subst validateTunnelTopology_IPv4 [of _ "[10, 42, 0, 1]" 24 "[10, 42, 0, 2]" 32])
      (simp_all add: put_defs Default_def default_tunnel)
qed

lemma Validate_Default: "h \<noteq> [] \<Longrightarrow> Validate (put_Host h Default) = Inr ()"
  by (simp add: Validate_iff default_topology)
     (simp add: put_defs Default_def port_ok_def)

lemma Validate_template: "Validate template_config = Inr ()"
  unfolding template_config_def by (rule Validate_Default) simp

section \<open>Properties\<close>

lemma template_config_eq: "template_config = Default\<lparr>Host := ''192.168.1.100''\<rparr>"
  by (simp add: template_config_def put_defs)

lemma WriteFile_effect:
  assumes "os_WriteFile p data m w = (r, w')"
  shows "(r = Inr () \<longrightarrow> (\<exists>m'. node_at w' p = Some (File data m'))) \<and>
    (\<forall>q. Clean q \<noteq> Clean p \<longrightarrow> node_at w' q = node_at w q) \<and>
    (next_fault w = NoFault \<and> node_at w p = None \<and> \<not> is_dir w p \<and> is_dir w (Dir p) \<longrightarrow> r = Inr ())"
  using assms
  by (auto simp: os_WriteFile_def Let_def node_at_set_node written_part_def
      split: if_splits option.splits node.splits)

text \<open>C35: \<open>ubo init\<close> leaves a configuration that the other commands accept. When it succeeds, the file
  it has written loads as the defaults with the template's host, which is valid; it succeeds when
  the disk works, the directory is there and the file is not. A file that is there and can be
  seen is never touched. No other path changes, and nothing is run.\<close>

theorem init_writes_template:
  assumes "cmdInit path s = (r, s')"
  shows "(r = Inr () \<longrightarrow>
      stored path (disk s') = Some (Default\<lparr>Host := ''192.168.1.100''\<rparr>) \<and>
      Validate (Default\<lparr>Host := ''192.168.1.100''\<rparr>) = Inr () \<and>
      (next_fault (disk s') = NoFault \<longrightarrow> fst (loadConfig path s') = Inr (Default\<lparr>Host := ''192.168.1.100''\<rparr>))) \<and>
    (healthy (disk s) \<and> node_at (disk s) path = None \<and> \<not> is_dir (disk s) path \<and> is_dir (disk s) (Dir path) \<longrightarrow>
      r = Inr ()) \<and>
    (next_fault (disk s) = NoFault \<and> (node_at (disk s) path \<noteq> None \<or> is_dir (disk s) path) \<longrightarrow>
      r = Inl (AlreadyExists path) \<and> node_at (disk s') path = node_at (disk s) path) \<and>
    (\<forall>q. Clean q \<noteq> Clean path \<longrightarrow> node_at (disk s') q = node_at (disk s) q) \<and> calls s' = calls s"
proof -
  let ?w = "passed (disk s)"
  obtain r1 w1 where wr: "os_WriteFile path DefaultTemplate 0x1A4 ?w = (r1, w1)" by fastforce
  note eff = WriteFile_effect [OF wr]
  show ?thesis
  proof (cases "fst (os_Stat path (disk s))")
    case (Inr u)
    with assms have "r = Inl (AlreadyExists path)" "s' = s\<lparr>disk := ?w\<rparr>"
      by (auto simp: cmdInit_def onDisk_def case_prod_beta split: sum.splits)
    moreover have "\<not> (node_at (disk s) path = None \<and> \<not> is_dir (disk s) path)"
      using Inr by (auto simp: os_Stat_def split: if_splits)
    ultimately show ?thesis by auto
  next
    case (Inl e)
    with assms wr have r: "r = wrapE (CannotWrite path) r1" and s': "s' = s\<lparr>disk := w1\<rparr>"
      by (auto simp: cmdInit_def onDisk_def wrapS_def case_prod_beta split: sum.splits)
    have absent: "next_fault (disk s) = NoFault \<Longrightarrow> node_at (disk s) path = None \<and> \<not> is_dir (disk s) path"
      using Inl by (auto simp: os_Stat_def split: if_splits)
    have made: "stored path (disk s') = Some (Default\<lparr>Host := ''192.168.1.100''\<rparr>)" if "r = Inr ()"
    proof -
      from that r have "r1 = Inr ()" by (cases r1) simp_all
      with eff obtain m where "node_at w1 path = Some (File DefaultTemplate m)" by blast
      then show ?thesis by (simp add: stored_def s' parseTOML_template template_config_eq)
    qed
    moreover have "fst (loadConfig path s') = Inr (Default\<lparr>Host := ''192.168.1.100''\<rparr>)"
      if "r = Inr ()" "next_fault (disk s') = NoFault"
      using stored_Load [OF made [OF that(1)] that(2)]
      by (cases "Load path (disk s')") (simp add: loadConfig_def wrapS_def onDisk_def)
    moreover have "r = Inr ()"
      if "healthy (disk s)" "node_at (disk s) path = None" "\<not> is_dir (disk s) path" "is_dir (disk s) (Dir path)"
      using eff that r healthy_next [OF healthy_passed [OF that(1)]] by simp
    ultimately show ?thesis
      using Validate_template absent eff by (auto simp: template_config_eq s')
  qed
qed

lemma init_writes_template_witness:
  "\<exists>s'. cmdInit ''ubo.toml'' quiet_system = (Inr (), s') \<and>
     stored ''ubo.toml'' (disk s') = Some (Default\<lparr>Host := ''192.168.1.100''\<rparr>)"
proof -
  obtain r s' where run: "cmdInit ''ubo.toml'' quiet_system = (r, s')" by fastforce
  have w: "disk quiet_system = clean_world" by (simp add: quiet_system_def)
  have "healthy clean_world" "node_at clean_world ''ubo.toml'' = None" by simp_all
  with init_writes_template [OF run] clean_dirs run show ?thesis unfolding w by auto
qed

end
