(* ===== verification/Cli_Facts.thy ===== *)
theory Cli_Facts
  imports Cli
begin

text \<open>
  What the commands of \<open>main.go\<close> guarantee together: what a run leaves on the disk is what status and
  unlock look for, and nothing is sent to the remote host before the checks.
\<close>

section \<open>The files of the output directory\<close>

definition out_names :: "string list" where
  "out_names = key_names @ [''dropbear_host_key.pub'', ''client_wg.conf'', ''README.txt'', ''ubo.toml'']"

lemma common_end: "r @ n = q @ t \<Longrightarrow> has_suffix n t \<or> has_suffix t n"
  unfolding append_eq_append_conv2 has_suffix_iff by metis

lemma Join_distinct:
  assumes "file_name n" "file_name m" "\<not> has_suffix n m" "\<not> has_suffix m n"
  shows "Clean (Join [d, n]) \<noteq> Clean (Join [d, m])"
proof
  assume eq: "Clean (Join [d, n]) = Clean (Join [d, m])"
  obtain r where r: "Clean (Join [d, n]) = r @ n" using Clean_Join [OF assms(1)] by blast
  obtain r' where r': "Clean (Join [d, m]) = r' @ m" using Clean_Join [OF assms(2)] by blast
  from eq r r' have "r @ n = r' @ m" by simp
  then have "has_suffix n m \<or> has_suffix m n" by (rule common_end)
  with assms(3,4) show False by blast
qed

lemma out_names_table:
  "list_all (\<lambda>n. file_name n \<and> \<not> has_suffix n ''.toml.tmp'' \<and> \<not> has_suffix ''.toml.tmp'' n \<and>
     list_all (\<lambda>m. n = m \<or> \<not> has_suffix n m) out_names) out_names"
  by code_simp

lemma out_name_facts:
  assumes "n \<in> set out_names"
  shows "file_name n" "\<not> has_suffix n ''.toml.tmp''" "\<not> has_suffix ''.toml.tmp'' n"
    "m \<in> set out_names \<Longrightarrow> n = m \<or> \<not> has_suffix n m"
  using out_names_table assms unfolding list_all_iff by blast+

lemma out_paths_distinct:
  assumes "n \<in> set out_names" "m \<in> set out_names" "n \<noteq> m"
  shows "Clean (Join [d, n]) \<noteq> Clean (Join [d, m])"
  using out_name_facts(1) [OF assms(1)] out_name_facts(1) [OF assms(2)]
    out_name_facts(4) [OF assms(1,2)] out_name_facts(4) [OF assms(2,1)] assms(3)
  by (intro Join_distinct) auto

lemma out_path_not_temp:
  assumes "n \<in> set out_names"
  shows "Clean (Join [d, n]) \<noteq> Clean (temp_name path k)"
proof
  assume eq: "Clean (Join [d, n]) = Clean (temp_name path k)"
  obtain r where r: "Clean (Join [d, n]) = r @ n" using Clean_Join [OF out_name_facts(1) [OF assms]] by blast
  obtain q where "Clean (temp_name path k) = q @ ''.toml.tmp''"
    unfolding temp_name_def using Clean_in_dir [OF file_name_temp] by (metis append.assoc)
  with eq r have "r @ n = q @ ''.toml.tmp''" by simp
  then have "has_suffix n ''.toml.tmp'' \<or> has_suffix ''.toml.tmp'' n" by (rule common_end)
  with out_name_facts [OF assms] show False by blast
qed

text \<open>What a call on a path finds out: whether something is there.\<close>

definition there :: "world \<Rightarrow> string \<Rightarrow> bool" where
  "there w p \<longleftrightarrow> node_at w p \<noteq> None \<or> is_dir w p"

lemma Stat_healthy: "healthy w \<Longrightarrow> os_Stat p w = ((if there w p then Inr () else Inl (NotExist p)), passed w)"
  by (simp add: os_Stat_def there_def healthy_next)

lemma there_passed [simp]: "there (passed w) = there w"
  by (simp add: there_def fun_eq_iff)

text \<open>The same node at a path in two states of the disk.\<close>

definition keeps_file :: "string \<Rightarrow> world \<Rightarrow> world \<Rightarrow> bool" where
  "keeps_file p w w' \<longleftrightarrow> node_at w' p = node_at w p"

lemma keeps_file_there: "keeps_file p w w' \<Longrightarrow> there w' p = there w p"
  by (simp add: keeps_file_def there_def is_dir_def)

lemma keeps_file_holds: "keeps_file p w w' \<Longrightarrow> holds_data w' p = holds_data w p"
  by (simp add: keeps_file_def holds_data_def fun_eq_iff)

lemma keeps_file_trans: "keeps_file p w1 w2 \<Longrightarrow> keeps_file p w2 w3 \<Longrightarrow> keeps_file p w1 w3"
  by (simp add: keeps_file_def)

lemma Save_keeps_out:
  assumes "n \<in> set out_names" "n \<noteq> ''ubo.toml''"
  shows "keeps_file (Join [d, n]) w (snd (Save c (Join [d, ''ubo.toml'']) w))"
proof -
  have "''ubo.toml'' \<in> set out_names" by (simp add: out_names_def)
  with assms show ?thesis
    unfolding keeps_file_def by (intro Save_frame out_paths_distinct out_path_not_temp)
qed

lemma WriteFile_keeps_out:
  assumes "n \<in> set out_names" "m \<in> set out_names" "n \<noteq> m"
  shows "keeps_file (Join [d, n]) w (snd (os_WriteFile (Join [d, m]) data perm w))"
  unfolding keeps_file_def using WriteFile_frame [OF out_paths_distinct [OF assms]] .

lemma keys_on_disk_cong:
  assumes "\<And>n. n \<in> set key_names \<Longrightarrow> keeps_file (Join [d, n]) w w'" "keys_on_disk w d ks"
  shows "keys_on_disk w' d ks"
proof -
  have h: "holds_data w' (Join [d, n]) = holds_data w (Join [d, n])" if "n \<in> set key_names" for n
    using assms(1) [OF that] by (rule keeps_file_holds)
  have t: "there w' (Join [d, ''client_auth_ed25519'']) = there w (Join [d, ''client_auth_ed25519''])"
    by (rule keeps_file_there [OF assms(1)]) (simp add: key_names_def)
  have names: "''server_wg_private.key'' \<in> set key_names" "''server_wg_public.key'' \<in> set key_names"
    "''client_wg_private.key'' \<in> set key_names" "''client_wg_public.key'' \<in> set key_names"
    "''client_auth_ed25519.pub'' \<in> set key_names"
    by (simp_all add: key_names_def key_files_def)
  show ?thesis
    using assms(2) unfolding keys_on_disk_def h [OF names(1)] h [OF names(2)] h [OF names(3)] h [OF names(4)]
      h [OF names(5)] t [unfolded there_def] .
qed

section \<open>The client\<close>

text \<open>Calls of \<open>ssh\<close> with the arguments of a client, each with one command.\<close>

definition asks :: "Client \<Rightarrow> system \<Rightarrow> system \<Rightarrow> bool" where
  "asks c s s' \<longleftrightarrow> (\<exists>qs. calls s' = calls s @ qs \<and> (\<forall>q\<in>set qs. \<exists>cmd. fst q = sshArgs c @ [cmd]))"

lemma asks_refl: "calls s' = calls s \<Longrightarrow> asks c s s'"
  by (simp add: asks_def)

lemma asks_trans: "asks c s s1 \<Longrightarrow> asks c s1 s2 \<Longrightarrow> asks c s s2"
  unfolding asks_def by (metis UnE append.assoc set_append)

lemma asks_run: "calls s' = calls s @ map (run_call c) cmds \<Longrightarrow> asks c s s'"
  by (auto simp: asks_def run_call_def)

lemma sshArgs_password [simp]: "sshArgs (SetSudoPassword pw c) = sshArgs c"
  by (simp add: sshArgs_def SetSudoPassword_def)

lemma asks_password: "asks (SetSudoPassword pw c) = asks c"
  by (simp add: asks_def fun_eq_iff)

lemma sudoProbe_effect:
  "snd (sudoProbe c s) = s\<lparr>calls := calls s @ [run_call c ''true'']\<rparr>"
  "fst (sudoProbe c s) = None \<longleftrightarrow> p_err (ssh_reply s (length (calls s)) (run_call c ''true'')) = None"
  by (simp_all add: sudoProbe_def RunCommand_def run_call_def Let_def case_prod_beta split: option.split)

text \<open>The last call made sure that the client may use \<open>sudo\<close>.\<close>

definition sudo_checked :: "Client \<Rightarrow> system \<Rightarrow> bool" where
  "sudo_checked c s \<longleftrightarrow>
     (\<exists>qs. calls s = qs @ [run_call c ''true''] \<and>
        p_err (ssh_reply s (length qs) (run_call c ''true'')) = None)"

lemma sudoProbe_checked: "sudoProbe c s = (None, s') \<Longrightarrow> sudo_checked c s'"
  using sudoProbe_effect [of c s] by (auto simp: sudo_checked_def)

lemma ensureSudo_effect:
  assumes "ensureSudo c cfg s = (r, s')"
  shows "disk s' = disk s \<and> asks c s s' \<and>
    (case r of Inl e \<Rightarrow> ssh_Sudo (SSH cfg)
     | Inr c' \<Rightarrow> (c' = c \<or> (\<exists>pw. c' = SetSudoPassword pw c)) \<and> (ssh_Sudo (SSH cfg) \<longrightarrow> sudo_checked c' s'))"
proof (cases "ssh_Sudo (SSH cfg)")
  case False
  with assms show ?thesis by (auto simp: ensureSudo_def asks_refl)
next
  case True
  obtain p1 s1 where p1: "sudoProbe c s = (p1, s1)" by (cases "sudoProbe c s")
  have s1: "disk s1 = disk s" "asks c s s1"
    using sudoProbe_effect(1) [of c s] p1 by (auto intro!: asks_run [of _ _ _ "[''true'']"])
  show ?thesis
  proof (cases p1)
    case None
    with assms True p1 have "r = Inr c" "s' = s1" by (auto simp: ensureSudo_def)
    with s1 sudoProbe_checked p1 None show ?thesis by auto
  next
    case (Some x)
    obtain q s2 where q: "readSudoPasswordTTY s1 = (q, s2)" by (cases "readSudoPasswordTTY s1")
    have s2: "disk s2 = disk s1" "calls s2 = calls s1"
      using q by (auto simp: readSudoPasswordTTY_def ttyLine_def split: prod.splits if_splits)
    show ?thesis
    proof (cases q)
      case (Inl e)
      with assms True p1 Some q s1 s2 show ?thesis
        by (auto simp: ensureSudo_def thenS_def asks_def)
    next
      case (Inr pw)
      let ?c = "SetSudoPassword pw c"
      obtain p3 s3 where p3: "sudoProbe ?c s2 = (p3, s3)" by (cases "sudoProbe ?c s2")
      have s3: "disk s3 = disk s2" "asks c s2 s3"
        using sudoProbe_effect(1) [of ?c s2] p3 asks_run [of s3 s2 ?c "[''true'']"] by (auto simp: asks_password)
      have all: "disk s3 = disk s" "asks c s s3"
        using s1 s2 s3 asks_trans [OF s1(2) asks_trans [OF asks_refl [OF s2(2)] s3(2)]] by simp_all
      show ?thesis
      proof (cases p3)
        case None
        with assms True p1 Some q Inr p3 have "r = Inr ?c" "s' = s3"
          by (auto simp: ensureSudo_def thenS_def)
        with all sudoProbe_checked p3 None show ?thesis by auto
      next
        case (Some y)
        with assms True p1 \<open>p1 = Some x\<close> q Inr p3 have "r = Inl (SudoRefused y)" "s' = s3"
          by (auto simp: ensureSudo_def thenS_def)
        with all True show ?thesis by simp
      qed
    qed
  qed
qed

lemma Connect_run_opts:
  assumes "Connect (Some (run_opts cfg outDir)) w = (r, w')" "Join [outDir, ''ssh_known_hosts''] \<noteq> []"
  shows "w' = w \<and> (\<forall>c. r = Inr c \<longrightarrow> rc_tempKnownHosts c = [] \<and> rc_sudo c = ssh_Sudo (SSH cfg) \<and>
    rc_strictMode c = ''accept-new'' \<and> rc_knownHostsFile c = Join [outDir, ''ssh_known_hosts''])"
proof -
  have kh: "co_KnownHostsPath (run_opts cfg outDir) = Join [outDir, ''ssh_known_hosts'']"
    "co_PinnedKeyPath (run_opts cfg outDir) = []" "co_Sudo (run_opts cfg outDir) = ssh_Sudo (SSH cfg)"
    by (simp_all add: run_opts_def)
  show ?thesis
  proof (cases r)
    case (Inl e)
    with assms(1) kh show ?thesis by (auto simp: Connect_def thenS_def applyHostKeyMode_def split: sum.splits if_splits)
  next
    case (Inr c)
    with assms(1) have c: "Connect (Some (run_opts cfg outDir)) w = (Inr c, w')" by simp
    show ?thesis using Connect_modes [OF c] Connect_parameters [OF c] kh assms(2) Inr by auto
  qed
qed

lemma closeClient_disk: "rc_tempKnownHosts c = [] \<Longrightarrow> disk (closeClient c s) = disk s"
  "calls (closeClient c s) = calls s"
  by (simp_all add: closeClient_def Close_def)

lemma Join_not_Nil: "file_name n \<Longrightarrow> Join [d, n] \<noteq> []"
  using Clean_in_dir [of n d] by (auto simp: Join_dir_name file_name_def)

text \<open>Connecting sends nothing but the questions about \<open>sudo\<close>, and changes no file.\<close>

lemma connectForRun_effect:
  assumes "connectForRun cfg outDir s = (r, s')"
  shows "disk s' = disk s \<and>
    (calls s' = calls s \<or> (\<exists>c. asks c s s' \<and> rc_strictMode c = ''accept-new'' \<and>
       rc_knownHostsFile c = Join [outDir, ''ssh_known_hosts''])) \<and>
    (\<forall>c. r = Inr c \<longrightarrow> asks c s s' \<and> rc_tempKnownHosts c = [] \<and> rc_sudo c = ssh_Sudo (SSH cfg) \<and>
       rc_strictMode c = ''accept-new'' \<and> rc_knownHostsFile c = Join [outDir, ''ssh_known_hosts''] \<and>
       (rc_sudo c \<longrightarrow> sudo_checked c s'))"
proof -
  obtain q w where q: "Connect (Some (run_opts cfg outDir)) (disk s) = (q, w)"
    by (cases "Connect (Some (run_opts cfg outDir)) (disk s)")
  have "file_name ''ssh_known_hosts''" by code_simp
  note conn = Connect_run_opts [OF q Join_not_Nil [OF this]]
  show ?thesis
  proof (cases q)
    case (Inl e)
    with assms q conn show ?thesis
      by (auto simp: connectForRun_def thenS_def wrapS_def onDisk_def wrapE_def)
  next
    case (Inr c)
    have s: "s\<lparr>disk := w\<rparr> = s" using conn by simp
    obtain r1 s1 where e: "ensureSudo c cfg s = (r1, s1)" by (cases "ensureSudo c cfg s")
    note eff = ensureSudo_effect [OF e]
    have run: "r = r1" "s' = (case r1 of Inl x \<Rightarrow> closeClient c s1 | Inr c' \<Rightarrow> s1)"
      using assms q Inr e s
      by (auto simp: connectForRun_def thenS_def wrapS_def onDisk_def undoS_def wrapE_def split: sum.splits)
    have temp: "rc_tempKnownHosts c = []" using conn Inr by simp
    then have disk: "disk s' = disk s" "calls s' = calls s1"
      using eff run(2) closeClient_disk [of c s1] by (auto split: sum.splits)
    then have asks: "asks c s s'" using eff by (simp add: asks_def)
    show ?thesis
    proof (cases r1)
      case (Inl x)
      with disk asks conn Inr run show ?thesis by auto
    next
      case (Inr c')
      have "c' = c \<or> (\<exists>pw. c' = SetSudoPassword pw c)" "ssh_Sudo (SSH cfg) \<longrightarrow> sudo_checked c' s1"
        using eff Inr by simp_all
      moreover have "s' = s1" using run(2) Inr by simp
      ultimately show ?thesis
        using disk asks conn \<open>q = Inr c\<close> run(1) Inr by (auto simp: asks_password) (auto simp: SetSudoPassword_def)
    qed
  qed
qed

section \<open>The parts of a run\<close>

lemma prepareRun_effect:
  assumes "prepareRun cfgPath s = (r, s')"
  shows "calls s' = calls s \<and> ssh_reply s' = ssh_reply s \<and> on_path s' = on_path s \<and>
    (\<forall>cfg outDir. r = Inr (cfg, outDir) \<longrightarrow> Validate cfg = Inr () \<and> outDir = OutputDir cfg \<and> on_path s ''ssh'')"
proof -
  have keeps: "calls s' = calls s \<and> ssh_reply s' = ssh_reply s \<and> on_path s' = on_path s"
    if "loadOrBootstrap p s = (r, s')" for p s and r :: "cli_error + config" and s'
    using that
    by (auto simp: loadOrBootstrap_def loadConfig_def wrapS_def onDisk_def onTTY_def case_prod_beta Let_def
        split: if_splits sum.splits)
  obtain r1 s1 where l: "loadOrBootstrap cfgPath s = (r1, s1)" by (cases "loadOrBootstrap cfgPath s")
  note k = keeps [OF l]
  show ?thesis
  proof (cases r1)
    case (Inl e)
    with assms l k show ?thesis by (auto simp: prepareRun_def thenS_def)
  next
    case (Inr cfg)
    have "Validate c = Inr () \<and> d = OutputDir c \<and> on_path s ''ssh''" if "r = Inr (c, d)" for c d
    proof -
      from assms l Inr that have v: "Validate c = Inr ()" "d = OutputDir c" "CheckTools ''run'' s1 = Inr ()"
        by (auto simp: prepareRun_def res_simps Let_def)
      then have "on_path s1 ''ssh''" by (simp add: CheckTools_iff)
      with v k show ?thesis by simp
    qed
    moreover have "calls s' = calls s1 \<and> ssh_reply s' = ssh_reply s1 \<and> on_path s' = on_path s1"
      using assms l Inr
      by (auto simp: prepareRun_def thenS_def wrapS_def onDisk_def case_prod_beta Let_def split: sum.splits)
    ultimately show ?thesis using k by simp
  qed
qed

lemma Configure_asks:
  assumes "Configure c cfg keys dir s = (r, s')"
  shows "asks c s s'"
proof (cases r)
  case (Inr u)
  with assms obtain info s1 script where det: "detectNetwork c cfg s = (Inr info, s1)"
    and calls: "calls s' = calls s1 @ [write_call c (scriptPath, script, 0x1C0), run_call c (''sh '' @ scriptPath)]"
    using Configure_ok [of c cfg keys dir s s'] by auto
  have "asks c s s1" using detectNetwork_runs [of c s cfg] det by (auto simp: runs_def intro: asks_run)
  moreover have "asks c s1 s'" using calls by (auto simp: asks_def write_call_def run_call_def)
  ultimately show ?thesis by (rule asks_trans)
next
  case (Inl e)
  with assms Configure_err [of c cfg keys dir s e s'] obtain s1 where det: "detection_only c s s1"
    and calls: "calls s' = calls s1 \<or>
      (\<exists>script. calls s' = calls s1 @ [write_call c (scriptPath, script, 0x1C0)] \<or>
         calls s' = calls s1 @ [write_call c (scriptPath, script, 0x1C0), run_call c (''sh '' @ scriptPath)])"
    by blast
  have "asks c s s1" using det by (auto simp: detection_only_def runs_def intro: asks_run)
  moreover have "asks c s1 s'" using calls by (auto simp: asks_def write_call_def run_call_def)
  ultimately show ?thesis by (rule asks_trans)
qed

lemma Configure_keeps_out:
  assumes "Configure c cfg keys d s = (Inr (), s')" "n \<in> set out_names" "n \<noteq> ''dropbear_host_key.pub''"
  shows "keeps_file (Join [d, n]) (disk s) (disk s')"
proof -
  have "''dropbear_host_key.pub'' \<in> set out_names" by (simp add: out_names_def)
  with assms(2,3) have "Clean (Join [d, n]) \<noteq> Clean (Join [d, ''dropbear_host_key.pub''])"
    by (intro out_paths_distinct)
  with Configure_ok [OF assms(1)] show ?thesis unfolding keeps_file_def by blast
qed

lemma Configure_pin:
  assumes "Configure c cfg keys d s = (Inr (), s')"
  shows "\<exists>key. key \<noteq> [] \<and> holds_data (disk s') (Join [d, ''dropbear_host_key.pub'']) (key @ [nl])"
proof -
  from Configure_ok [OF assms] obtain out key m where "parseSetupResult out = Inr key"
    "node_at (disk s') (Join [d, ''dropbear_host_key.pub'']) = Some (File (key @ [nl]) m)" by blast
  moreover from this(1) have "key \<noteq> []" by (auto simp: parseSetupResult_def split: if_splits option.splits)
  ultimately show ?thesis by (auto simp: holds_data_def)
qed

lemma writeRunArtifacts_effect:
  assumes "writeRunArtifacts cfg keys d p s = (Inr q, s')"
  shows "calls s' = calls s \<and>
    holds_data (disk s') (Join [d, ''client_wg.conf'']) (unlines (client_lines (run_client cfg keys))) \<and>
    (\<forall>n\<in>set out_names. n \<noteq> ''client_wg.conf'' \<and> n \<noteq> ''README.txt'' \<longrightarrow> keeps_file (Join [d, n]) (disk s) (disk s'))"
proof -
  let ?conf = "Join [d, ''client_wg.conf'']" and ?readme = "Join [d, ''README.txt'']"
  from assms obtain ini w1 rdme w2 where
    ini: "client_MarshalINI (run_client cfg keys) = Inr ini"
    and w1: "os_WriteFile ?conf ini 0x180 (disk s) = (Inr (), w1)"
    and w2: "os_WriteFile ?readme rdme 0x1A4 w1 = (Inr (), w2)" and s': "s' = s\<lparr>disk := w2\<rparr>"
    by (auto simp: writeRunArtifacts_def res_simps Let_def)
  have lines: "ini = unlines (client_lines (run_client cfg keys))"
    using ini by (auto simp: client_MarshalINI_def res_simps split: if_splits)
  have names: "''client_wg.conf'' \<in> set out_names" "''README.txt'' \<in> set out_names"
    by (simp_all add: out_names_def)
  have w: "w1 = snd (os_WriteFile ?conf ini 0x180 (disk s))" "disk s' = snd (os_WriteFile ?readme rdme 0x1A4 w1)"
    using w1 w2 s' by simp_all
  have "keeps_file (Join [d, n]) (disk s) (disk s')"
    if "n \<in> set out_names" "n \<noteq> ''client_wg.conf''" "n \<noteq> ''README.txt''" for n
    using WriteFile_keeps_out [OF that(1) names(1) that(2)] WriteFile_keeps_out [OF that(1) names(2) that(3)]
    unfolding w by (rule keeps_file_trans)
  moreover have "keeps_file ?conf w1 (disk s')"
    unfolding w(2) by (rule WriteFile_keeps_out [OF names]) simp
  then have "holds_data (disk s') ?conf = holds_data w1 ?conf" by (rule keeps_file_holds)
  moreover have "holds_data w1 ?conf ini" using WriteFile_Inr [OF w1] by (simp add: holds_data_set)
  ultimately show ?thesis using s' lines by simp
qed

text \<open>A run that succeeds, step by step.\<close>

lemma cmdRun_parts:
  assumes "cmdRun cr cfgPath s = (Inr (), s')"
  shows "\<exists>cfg s1 keys w2 c s3 s4 s5 p s6.
    prepareRun cfgPath s = (Inr (cfg, OutputDir cfg), s1) \<and> GenerateAll cr (OutputDir cfg) (disk s1) = (Inr keys, w2) \<and>
    connectForRun cfg (OutputDir cfg) (s1\<lparr>disk := w2\<rparr>) = (Inr c, s3) \<and>
    Configure c cfg keys (OutputDir cfg) s3 = (Inr (), s4) \<and>
    saveCopy cfg (Join [OutputDir cfg, ''ubo.toml'']) s4 = (Inr (), s5) \<and>
    writeRunArtifacts cfg keys (OutputDir cfg) (Join [OutputDir cfg, ''ubo.toml'']) s5 = (Inr p, s6) \<and>
    s' = closeClient c s6"
proof -
  from assms obtain cfg d s1 keys w2 c s3 s4 s5 p s6 where p: "prepareRun cfgPath s = (Inr (cfg, d), s1)"
    and rest: "GenerateAll cr d (disk s1) = (Inr keys, w2)" "connectForRun cfg d (s1\<lparr>disk := w2\<rparr>) = (Inr c, s3)"
    "Configure c cfg keys d s3 = (Inr (), s4)" "saveCopy cfg (Join [d, ''ubo.toml'']) s4 = (Inr (), s5)"
    "writeRunArtifacts cfg keys d (Join [d, ''ubo.toml'']) s5 = (Inr p, s6)" "s' = closeClient c s6"
    by (auto simp: cmdRun_def res_simps finallyS_eq Let_def split: prod.splits)
  have "d = OutputDir cfg" using prepareRun_effect [OF p] by simp
  with p rest show ?thesis by blast
qed

lemma saveCopy_effect:
  assumes "saveCopy cfg (Join [d, ''ubo.toml'']) s = (r, s')"
  shows "calls s' = calls s \<and>
    (\<forall>n\<in>set out_names. n \<noteq> ''ubo.toml'' \<longrightarrow> keeps_file (Join [d, n]) (disk s) (disk s'))"
  using assms Save_keeps_out by (auto simp: saveCopy_def onDisk_def case_prod_beta)

text \<open>What a run leaves in the output directory.\<close>

definition unlockable :: "config \<Rightarrow> Keys \<Rightarrow> world \<Rightarrow> bool" where
  "unlockable cfg keys w \<longleftrightarrow>
     (let d = OutputDir cfg
      in keys_on_disk w d keys \<and>
         holds_data w (Join [d, ''client_wg.conf'']) (unlines (client_lines (run_client cfg keys))) \<and>
         (\<exists>key. key \<noteq> [] \<and> holds_data w (Join [d, ''dropbear_host_key.pub'']) (key @ [nl])))"

lemma holds_there: "holds_data w p x \<Longrightarrow> there w p"
  by (auto simp: holds_data_def there_def)

lemma unlockable_there: "unlockable cfg keys w \<Longrightarrow> p \<in> set (unlockFiles (OutputDir cfg)) \<Longrightarrow> there w p"
  by (auto simp: unlockable_def unlockFiles_def Let_def keys_on_disk_def there_def holds_data_def)

lemma cmdRun_unlockable:
  assumes "cmdRun cr cfgPath s = (Inr (), s')" "crypto_ok cr"
  shows "\<exists>cfg s1 keys w2. prepareRun cfgPath s = (Inr (cfg, OutputDir cfg), s1) \<and>
    GenerateAll cr (OutputDir cfg) (disk s1) = (Inr keys, w2) \<and>
    Validate cfg = Inr () \<and> unlockable cfg keys (disk s')"
proof -
  from cmdRun_parts [OF assms(1)] obtain cfg s1 keys w2 c s3 s4 s5 p s6 where
    prep: "prepareRun cfgPath s = (Inr (cfg, OutputDir cfg), s1)"
    and gen: "GenerateAll cr (OutputDir cfg) (disk s1) = (Inr keys, w2)"
    and conn: "connectForRun cfg (OutputDir cfg) (s1\<lparr>disk := w2\<rparr>) = (Inr c, s3)"
    and conf: "Configure c cfg keys (OutputDir cfg) s3 = (Inr (), s4)"
    and save: "saveCopy cfg (Join [OutputDir cfg, ''ubo.toml'']) s4 = (Inr (), s5)"
    and art: "writeRunArtifacts cfg keys (OutputDir cfg) (Join [OutputDir cfg, ''ubo.toml'']) s5 = (Inr p, s6)"
    and s': "s' = closeClient c s6"
    by blast
  let ?d = "OutputDir cfg"
  have s3: "disk s3 = w2" "rc_tempKnownHosts c = []" using connectForRun_effect [OF conn] by simp_all
  have s6: "disk s' = disk s6" unfolding s' by (rule closeClient_disk) (rule s3)
  have late: "keeps_file (Join [?d, n]) (disk s4) (disk s')"
    if "n \<in> set out_names" "n \<noteq> ''ubo.toml''" "n \<noteq> ''client_wg.conf''" "n \<noteq> ''README.txt''" for n
  proof (rule keeps_file_trans)
    show "keeps_file (Join [?d, n]) (disk s4) (disk s5)" using saveCopy_effect [OF save] that by blast
    show "keeps_file (Join [?d, n]) (disk s5) (disk s')"
      unfolding s6 using writeRunArtifacts_effect [OF art] that by blast
  qed
  have key_name: "n \<in> set out_names" "n \<noteq> ''ubo.toml''" "n \<noteq> ''client_wg.conf''" "n \<noteq> ''README.txt''"
    "n \<noteq> ''dropbear_host_key.pub''" if "n \<in> set key_names" for n
    using that by (auto simp: out_names_def key_names_def key_files_def)
  have "keys_on_disk w2 ?d keys" using gen assms(2) by (rule GenerateAll_on_disk)
  moreover have "keeps_file (Join [?d, n]) w2 (disk s')" if "n \<in> set key_names" for n
    using keeps_file_trans [OF Configure_keeps_out [OF conf] late] key_name [OF that] s3(1) by simp
  ultimately have "keys_on_disk (disk s') ?d keys" using keys_on_disk_cong by blast
  moreover have "holds_data (disk s') (Join [?d, ''client_wg.conf'']) (unlines (client_lines (run_client cfg keys)))"
    unfolding s6 using writeRunArtifacts_effect [OF art] by blast
  moreover have "\<exists>key. key \<noteq> [] \<and> holds_data (disk s') (Join [?d, ''dropbear_host_key.pub'']) (key @ [nl])"
  proof -
    have "keeps_file (Join [?d, ''dropbear_host_key.pub'']) (disk s4) (disk s')"
      by (rule late) (simp_all add: out_names_def)
    from keeps_file_holds [OF this] Configure_pin [OF conf] show ?thesis by simp
  qed
  ultimately have "unlockable cfg keys (disk s')" by (simp add: unlockable_def)
  moreover have "Validate cfg = Inr ()" using prepareRun_effect [OF prep] by simp
  ultimately show ?thesis using prep gen by blast
qed

lemma requireUnlockFiles_healthy:
  "healthy w \<Longrightarrow> isOk (fst (requireUnlockFiles ps w)) \<longleftrightarrow> (\<forall>p\<in>set ps. there w p)"
  by (induction ps arbitrary: w) (auto simp: Stat_healthy)

lemma statusLoop_ready:
  "healthy w \<Longrightarrow> fst (fst (statusLoop d as (ready, present) w)) \<longleftrightarrow>
      ready \<and> (\<forall>(n, required)\<in>set as. required \<longrightarrow> there w (Join [d, n]))"
  by (induction as arbitrary: ready present w) (auto simp: Stat_healthy Let_def split: if_splits)

lemma statusLoop_present:
  "healthy w \<Longrightarrow> snd (fst (statusLoop d as (ready, present) w)) n =
      (if n \<in> set (map fst as) then Some (there w (Join [d, n])) else present n)"
proof (induction as arbitrary: ready present w)
  case (Cons a as)
  obtain m req where a: "a = (m, req)" by (cases a)
  have "healthy (passed w)" using Cons.prems by simp
  from Cons.IH [OF this] Cons.prems show ?case by (simp add: a Stat_healthy Let_def del: set_map)
qed simp

text \<open>The rest of a run after the client exists, and how a run that sends anything got there.\<close>

definition configureAndSave :: "Client \<Rightarrow> config \<Rightarrow> Keys \<Rightarrow> string \<Rightarrow> (system, cli_error, unit) step" where
  "configureAndSave c cfg keys d =
     finallyS
       (thenS (wrapS ConfigureFailed (Configure c cfg keys d)) (\<lambda>_.
        thenS (saveCopy cfg (Join [d, ''ubo.toml''])) (\<lambda>_.
        thenS (writeRunArtifacts cfg keys d (Join [d, ''ubo.toml''])) (\<lambda>_. returnS ()))))
       (closeClient c)"

lemma cmdRun_stages:
  "cmdRun cr cfgPath =
     thenS (prepareRun cfgPath) (\<lambda>(cfg, d).
     thenS (wrapS KeysFailed (onDisk (GenerateAll cr d))) (\<lambda>keys.
     thenS (connectForRun cfg d) (\<lambda>c. configureAndSave c cfg keys d)))"
  by (simp add: cmdRun_def configureAndSave_def Let_def)

lemma writeRunArtifacts_calls: "calls (snd (writeRunArtifacts cfg keys d p s)) = calls s"
  by (simp add: writeRunArtifacts_def thenS_def wrapS_def onDisk_def case_prod_beta Let_def split: sum.split)

lemma configureAndSave_asks:
  assumes "configureAndSave c cfg keys d s = (r, s')"
  shows "asks c s s'"
proof -
  obtain r1 s1 where conf: "Configure c cfg keys d s = (r1, s1)" by (cases "Configure c cfg keys d s")
  have save: "saveCopy cfg p t = (Inr (), snd (saveCopy cfg p t))" "calls (snd (saveCopy cfg p t)) = calls t" for p t
    by (simp_all add: saveCopy_def)
  have "calls s' = calls s1"
    using assms conf save writeRunArtifacts_calls
    by (cases r1) (auto simp: configureAndSave_def finallyS_def thenS_def wrapS_def closeClient_disk case_prod_beta
      Let_def split: sum.splits prod.splits)
  then show ?thesis using asks_trans [OF Configure_asks [OF conf] asks_refl] by simp
qed

lemma cmdRun_sends:
  assumes "cmdRun cr cfgPath s = (r, s')" "calls s' \<noteq> calls s"
  shows "\<exists>cfg s1 keys w2 k s3. prepareRun cfgPath s = (Inr (cfg, OutputDir cfg), s1) \<and>
    GenerateAll cr (OutputDir cfg) (disk s1) = (Inr keys, w2) \<and>
    connectForRun cfg (OutputDir cfg) (s1\<lparr>disk := w2\<rparr>) = (k, s3) \<and>
    (case k of Inl e \<Rightarrow> s' = s3 | Inr c \<Rightarrow> asks c s3 s')"
proof -
  obtain q s1 where p: "prepareRun cfgPath s = (q, s1)" by (cases "prepareRun cfgPath s")
  note prep = prepareRun_effect [OF p]
  from assms p prep obtain cfg d where q: "q = Inr (cfg, d)" by (cases q) (auto simp: cmdRun_stages thenS_def)
  with prep have d: "d = OutputDir cfg" "calls s1 = calls s" by simp_all
  obtain g w2 where g: "GenerateAll cr d (disk s1) = (g, w2)" by (cases "GenerateAll cr d (disk s1)")
  from assms p q g d(2) obtain keys where keys: "g = Inr keys"
    by (cases g) (auto simp: cmdRun_stages thenS_def wrapS_def onDisk_def wrapE_def)
  obtain k s3 where k: "connectForRun cfg d (s1\<lparr>disk := w2\<rparr>) = (k, s3)" by (cases "connectForRun cfg d (s1\<lparr>disk := w2\<rparr>)")
  have "case k of Inl e \<Rightarrow> s' = s3 | Inr c \<Rightarrow> configureAndSave c cfg keys d s3 = (r, s')"
    using assms(1) p q g keys k
    by (simp add: cmdRun_stages thenS_def wrapS_def onDisk_def wrapE_def split: sum.splits)
  then have "case k of Inl e \<Rightarrow> s' = s3 | Inr c \<Rightarrow> asks c s3 s'"
    using configureAndSave_asks by (cases k) auto
  with p q g keys k d(1) show ?thesis by blast
qed

section \<open>Properties\<close>

text \<open>C4: A run that succeeds leaves everything that unlocking needs: the configuration it used passes
  the checks; its output directory holds the keys the setup was made with, a client configuration
  with the private key of the client, the public key of the server and its address, and the pinned
  key of the boot-time server; and so the check of \<open>unlock\<close> for its files passes on that disk, whatever
  copy of the configuration could be saved.\<close>

theorem run_leaves_unlockable:
  assumes "cmdRun cr cfgPath s = (Inr (), s')" "crypto_ok cr"
  shows "\<exists>cfg s1 keys w2. prepareRun cfgPath s = (Inr (cfg, OutputDir cfg), s1) \<and>
    GenerateAll cr (OutputDir cfg) (disk s1) = (Inr keys, w2) \<and>
    Validate cfg = Inr () \<and> unlockable cfg keys (disk s') \<and>
    (healthy (disk s') \<longrightarrow> isOk (fst (requireUnlockFiles (unlockFiles (OutputDir cfg)) (disk s'))))"
proof -
  from cmdRun_unlockable [OF assms] obtain cfg s1 keys w2 where
    run: "prepareRun cfgPath s = (Inr (cfg, OutputDir cfg), s1)" "GenerateAll cr (OutputDir cfg) (disk s1) = (Inr keys, w2)"
      "Validate cfg = Inr ()" and u: "unlockable cfg keys (disk s')"
    by blast
  with requireUnlockFiles_healthy unlockable_there [OF u] show ?thesis by blast
qed

text \<open>C16: \<open>status\<close> and \<open>unlock\<close> agree: when the disk answers, \<open>status\<close> reports that the directory is
  ready exactly when the check of \<open>unlock\<close> for its files passes, and it marks an artifact as present
  exactly when it is there.\<close>

theorem status_means_unlockable:
  assumes "healthy w"
  shows "(fst (fst (statusReport d w)) \<longleftrightarrow> isOk (fst (requireUnlockFiles (unlockFiles d) w))) \<and>
    printArtifactList (snd (fst (statusReport d w))) =
      map (\<lambda>(n, required). (n, there w (Join [d, n]), required)) statusArtifacts"
proof -
  have "(\<forall>(n, required)\<in>set statusArtifacts. required \<longrightarrow> there w (Join [d, n])) \<longleftrightarrow>
      (\<forall>p\<in>set (unlockFiles d). there w p)"
    by (auto simp: statusArtifacts_def unlockFiles_def)
  then have "fst (fst (statusReport d w)) \<longleftrightarrow> isOk (fst (requireUnlockFiles (unlockFiles d) w))"
    unfolding statusReport_def statusLoop_ready [OF assms] requireUnlockFiles_healthy [OF assms] by simp
  moreover have "n \<in> set (map fst statusArtifacts)" if "(n, r) \<in> set statusArtifacts" for n r
    using that by force
  then have "(\<lambda>(n, required). (n, snd (fst (statusReport d w)) n = Some True, required)) x =
      (\<lambda>(n, required). (n, there w (Join [d, n]), required)) x" if "x \<in> set statusArtifacts" for x
    using that unfolding statusReport_def statusLoop_present [OF assms] by (cases x) (simp del: set_map)
  then have "printArtifactList (snd (fst (statusReport d w))) =
      map (\<lambda>(n, required). (n, there w (Join [d, n]), required)) statusArtifacts"
    unfolding printArtifactList_def by (intro map_cong refl)
  ultimately show ?thesis by blast
qed

lemma status_means_unlockable_witness:
  "fst (fst (statusReport ''out'' demo_disk)) \<longleftrightarrow> isOk (fst (requireUnlockFiles (unlockFiles ''out'') demo_disk))"
  using status_means_unlockable [OF demo_healthy] by blast

text \<open>C13: Nothing is sent to the remote host before everything on this side is in order: if a run has
  started any \<open>ssh\<close> at all, the configuration had passed its checks, \<open>ssh\<close> was on the path and the
  keys were made or loaded; and every call is one command of a client that checks the host key
  against the file in the output directory.\<close>

theorem run_checks_before_ssh:
  assumes "cmdRun cr cfgPath s = (r, s')" "calls s' \<noteq> calls s"
  shows "\<exists>cfg s1 keys w2 c. prepareRun cfgPath s = (Inr (cfg, OutputDir cfg), s1) \<and> Validate cfg = Inr () \<and>
    on_path s ''ssh'' \<and> calls s1 = calls s \<and> GenerateAll cr (OutputDir cfg) (disk s1) = (Inr keys, w2) \<and>
    asks c s s' \<and> rc_strictMode c = ''accept-new'' \<and> rc_knownHostsFile c = Join [OutputDir cfg, ''ssh_known_hosts'']"
proof -
  from cmdRun_sends [OF assms] obtain cfg s1 keys w2 k s3 where
    p: "prepareRun cfgPath s = (Inr (cfg, OutputDir cfg), s1)"
    and g: "GenerateAll cr (OutputDir cfg) (disk s1) = (Inr keys, w2)"
    and k: "connectForRun cfg (OutputDir cfg) (s1\<lparr>disk := w2\<rparr>) = (k, s3)"
    and rest: "case k of Inl e \<Rightarrow> s' = s3 | Inr c \<Rightarrow> asks c s3 s'"
    by blast
  have prep: "Validate cfg = Inr ()" "on_path s ''ssh''" "calls s1 = calls s" using prepareRun_effect [OF p] by auto
  then have before: "asks c s (s1\<lparr>disk := w2\<rparr>)" for c by (intro asks_refl) simp
  have "\<exists>c. asks c (s1\<lparr>disk := w2\<rparr>) s' \<and> rc_strictMode c = ''accept-new'' \<and>
      rc_knownHostsFile c = Join [OutputDir cfg, ''ssh_known_hosts'']"
  proof (cases k)
    case (Inl e)
    with rest connectForRun_effect [OF k] assms(2) prep(3) show ?thesis by auto
  next
    case (Inr c)
    with connectForRun_effect [OF k] have c: "asks c (s1\<lparr>disk := w2\<rparr>) s3" "rc_strictMode c = ''accept-new''"
      "rc_knownHostsFile c = Join [OutputDir cfg, ''ssh_known_hosts'']" by blast+
    from rest Inr have "asks c s3 s'" by simp
    with c asks_trans show ?thesis by blast
  qed
  with asks_trans [OF before] p g prep show ?thesis by blast
qed

text \<open>C14: With \<open>ssh.sudo\<close>, a run that succeeds configures the host only through a client whose right to
  use \<open>sudo\<close> was tried out first, with the password it then uses: the last call before the setup is
  \<open>true\<close> under \<open>sudo\<close>, it was answered without an error, and every command and upload of the setup is
  a call of that same client; without \<open>ssh.sudo\<close> the client does not use \<open>sudo\<close> at all.\<close>

theorem run_tries_sudo_first:
  assumes "cmdRun cr cfgPath s = (Inr (), s')"
  shows "\<exists>cfg s1 keys w2 c s3 script cmds.
    prepareRun cfgPath s = (Inr (cfg, OutputDir cfg), s1) \<and> GenerateAll cr (OutputDir cfg) (disk s1) = (Inr keys, w2) \<and>
    connectForRun cfg (OutputDir cfg) (s1\<lparr>disk := w2\<rparr>) = (Inr c, s3) \<and>
    rc_sudo c = ssh_Sudo (SSH cfg) \<and> (ssh_Sudo (SSH cfg) \<longrightarrow> sudo_checked c s3) \<and>
    calls s' = calls s3 @ map (run_call c) cmds @ [write_call c (scriptPath, script, 0x1C0), run_call c (''sh '' @ scriptPath)]"
proof -
  from cmdRun_parts [OF assms] obtain cfg s1 keys w2 c s3 s4 s5 p s6 where
    prep: "prepareRun cfgPath s = (Inr (cfg, OutputDir cfg), s1)"
    and gen: "GenerateAll cr (OutputDir cfg) (disk s1) = (Inr keys, w2)"
    and conn: "connectForRun cfg (OutputDir cfg) (s1\<lparr>disk := w2\<rparr>) = (Inr c, s3)"
    and conf: "Configure c cfg keys (OutputDir cfg) s3 = (Inr (), s4)"
    and save: "saveCopy cfg (Join [OutputDir cfg, ''ubo.toml'']) s4 = (Inr (), s5)"
    and art: "writeRunArtifacts cfg keys (OutputDir cfg) (Join [OutputDir cfg, ''ubo.toml'']) s5 = (Inr p, s6)"
    and s': "s' = closeClient c s6"
    by blast
  from Configure_ok [OF conf] obtain info t script where det: "detectNetwork c cfg s3 = (Inr info, t)"
    and calls: "calls s4 = calls t @ [write_call c (scriptPath, script, 0x1C0), run_call c (''sh '' @ scriptPath)]"
    by blast
  obtain cmds where "calls t = calls s3 @ map (run_call c) cmds"
    using detectNetwork_runs [of c s3 cfg] det by (auto simp: runs_def)
  moreover have "calls s' = calls s4"
    using writeRunArtifacts_effect [OF art] saveCopy_effect [OF save] by (simp add: s' closeClient_disk)
  ultimately have "calls s' = calls s3 @ map (run_call c) cmds @
      [write_call c (scriptPath, script, 0x1C0), run_call c (''sh '' @ scriptPath)]"
    using calls by simp
  moreover have "rc_sudo c = ssh_Sudo (SSH cfg)" "ssh_Sudo (SSH cfg) \<longrightarrow> sudo_checked c s3"
    using connectForRun_effect [OF conn] by auto
  ultimately show ?thesis using prep gen conn by blast
qed

section \<open>A run from start to end\<close>

text \<open>
  The host \<open>vlan_host\<close>, the working directory with six key files as output directory, and the
  configuration in a file beside them.
\<close>

definition run_config :: config where
  "run_config = put_out_Dir ''.'' (put_Host ''h'' Default)"

definition run_disk :: world where
  "run_disk = set_node ''c'' (Some (File (Marshal run_config) 0x1A4)) sample_disk"

definition run_system :: system where
  "run_system = vlan_system\<lparr>disk := run_disk\<rparr>"

definition demo_ssh :: Client where
  "demo_ssh = (newClient (run_opts run_config ''.''))
     \<lparr>rc_knownHostsFile := Join [''.'', ''ssh_known_hosts''], rc_strictMode := ''accept-new''\<rparr>"

lemma run_config_ok: "Validate run_config = Inr ()" "OutputDir run_config = ''.''" "storable run_config"
proof -
  show "Validate run_config = Inr ()" by code_simp
  show "OutputDir run_config = ''.''" by (simp add: OutputDir_def run_config_def put_out_Dir_def)
  show "storable run_config" unfolding run_config_def by (intro storable_put) simp_all
qed

lemma never_fails: "faults w = (\<lambda>_. NoFault) \<Longrightarrow> healthy w"
  by (simp add: healthy_def)

lemma run_disk_ok: "faults run_disk = (\<lambda>_. NoFault)" "keys_on_disk run_disk ''.'' sample_keys"
proof -
  show "faults run_disk = (\<lambda>_. NoFault)"
    by (simp add: run_disk_def sample_disk_def key_names_def key_files_def)
  have "list_all (\<lambda>n. \<not> has_suffix n ''c'' \<and> \<not> has_suffix ''c'' n) key_names" by code_simp
  moreover have c: "file_name ''c''" "Join [''.'', ''c''] = ''c''" by code_simp+
  ultimately have "Clean (Join [''.'', n]) \<noteq> Clean ''c''" if "n \<in> set key_names" for n
    using Join_distinct [of n "''c''" "''.''"] out_name_facts(1) [of n] that
    unfolding list_all_iff out_names_def by auto
  then have "keeps_file (Join [''.'', n]) sample_disk run_disk" if "n \<in> set key_names" for n
    using that by (simp add: keeps_file_def run_disk_def)
  from keys_on_disk_cong [OF this sample_on_disk(2)] show "keys_on_disk run_disk ''.'' sample_keys" .
qed

lemma run_prepared: "prepareRun ''c'' run_system = (Inr (run_config, ''.''), run_system\<lparr>disk := passed run_disk\<rparr>)"
proof -
  have "node_at run_disk ''c'' = Some (File (Marshal run_config) 0x1A4)" by (simp add: run_disk_def)
  then have "Load ''c'' run_disk = (Inr run_config, passed run_disk)"
    using run_disk_ok(1) toml.dec_enc [OF run_config_ok(3), of Default]
    by (simp add: Load_def os_ReadFile_def next_fault_def)
  then have "loadOrBootstrap ''c'' run_system = (Inr run_config, run_system\<lparr>disk := passed run_disk\<rparr>)"
    by (simp add: loadOrBootstrap_def loadConfig_def wrapS_def onDisk_def run_system_def)
  moreover have "CheckTools ''run'' s = Inr ()" if "on_path s ''ssh''" for s using that by (simp add: CheckTools_iff)
  moreover have "path_prefixes ''.'' = [''.'']" "Clean ''.'' = ''.''" by code_simp+
  then have "os_MkdirAll ''.'' perm w = (Inr (), w)" for perm w
    by (simp add: os_MkdirAll_def is_dir_def always_there_def)
  ultimately show ?thesis
    using run_config_ok(1,2)
    by (simp add: prepareRun_def thenS_def wrapS_def onDisk_def Let_def run_system_def vlan_system_def)
qed

lemma run_connected: "connectForRun run_config ''.'' s = (Inr demo_ssh, s)"
proof -
  have opts: "co_Host (run_opts run_config ''.'') = ''h''" "co_User (run_opts run_config ''.'') = ''root''"
    "co_Port (run_opts run_config ''.'') = 22" "co_PinnedKeyPath (run_opts run_config ''.'') = []"
    "co_KnownHostsPath (run_opts run_config ''.'') = Join [''.'', ''ssh_known_hosts'']" "\<not> ssh_Sudo (SSH run_config)"
    by (simp_all add: run_opts_def run_config_def put_out_Dir_def put_Host_def Default_def)
  have "file_name ''ssh_known_hosts''" by code_simp
  note kh = Join_not_Nil [OF this, of "''.''"]
  have "Connect (Some (run_opts run_config ''.'')) w = (Inr demo_ssh, w)" for w
    using kh by (simp add: Connect_def thenS_def validateConnectOptions_def validateHostKeyModeExclusive_def
        applyHostKeyMode_def opts demo_ssh_def)
  then show ?thesis
    by (simp add: connectForRun_def thenS_def wrapS_def onDisk_def undoS_def ensureSudo_def opts)
qed

lemma vlan_run_any:
  "case detectNetwork c Default (vlan_system\<lparr>disk := w\<rparr>) of
     (Inl e, s') \<Rightarrow> False
   | (Inr info, s') \<Rightarrow> info = vlan_info \<and> length (calls s') = 8"
  by code_simp

lemma Configure_run_config: "Configure c run_config = Configure c Default"
proof -
  have "WireGuard run_config = WireGuard Default" "Dropbear run_config = Dropbear Default"
    "Network run_config = Network Default"
    by (simp_all add: run_config_def put_out_Dir_def put_Host_def)
  then show ?thesis
    by (simp add: Configure_def stepDetectNetwork_def detectNetwork_def buildSetupScriptData_def renderWGConfig_def
        initramfsData_def WGServerTunnelIP_def WGClientTunnelIP_def fun_eq_iff)
qed

text \<open>Writing a file that is not there yet, in the working directory.\<close>

lemma WriteFile_new:
  assumes "faults w = (\<lambda>_. NoFault)" "node_at w p = None" "Clean (Dir p) = ''.''" "\<not> always_there (Clean p)"
  shows "os_WriteFile p data perm w = (Inr (), set_node p (Some (File data perm)) (passed w))"
  using assms by (simp add: os_WriteFile_def Let_def next_fault_def is_dir_def always_there_def written_part_def)

lemma out_paths_here:
  "list_all (\<lambda>n. Clean (Dir (Join [''.'', n])) = ''.'' \<and> \<not> always_there (Clean (Join [''.'', n])) \<and>
     Clean (Join [''.'', n]) \<noteq> Clean ''c'')
     [''dropbear_host_key.pub'', ''client_wg.conf'', ''README.txt'']"
  by code_simp

lemma run_new_files:
  assumes "n \<in> set [''dropbear_host_key.pub'', ''client_wg.conf'', ''README.txt'']"
  shows "node_at run_disk (Join [''.'', n]) = None"
proof -
  have "n \<in> set out_names" "n \<notin> set key_names" using assms by (auto simp: out_names_def key_names_def key_files_def)
  then have "Clean (Join [''.'', n]) \<noteq> Clean (Join [''.'', m])" if "m \<in> set key_names" for m
    using that by (intro out_paths_distinct) (auto simp: out_names_def)
  moreover have "node_at (fold (\<lambda>n. set_node (Join [d, n]) (x n)) ns w) p = node_at w p"
    if "\<And>m. m \<in> set ns \<Longrightarrow> Clean p \<noteq> Clean (Join [d, m])" for ns d x w p
    using that by (induction ns arbitrary: w) simp_all
  ultimately have "node_at sample_disk (Join [''.'', n]) = None" by (simp add: sample_disk_def)
  moreover have "Clean (Join [''.'', n]) \<noteq> Clean ''c''"
    using out_paths_here assms unfolding list_all_iff by auto
  ultimately show ?thesis by (simp add: run_disk_def)
qed

lemma paths_here:
  assumes "n \<in> set [''dropbear_host_key.pub'', ''client_wg.conf'', ''README.txt'']"
  shows "Clean (Dir (Join [''.'', n])) = ''.''" "\<not> always_there (Clean (Join [''.'', n]))" "n \<in> set out_names"
  using out_paths_here assms unfolding list_all_iff by (auto simp: out_names_def)

lemma sample_keys_filled: "keys_filled sample_keys"
  unfolding keys_filled_def sample_keys_def by code_simp

text \<open>The setup, then the two files, on a disk where nothing fails.\<close>

lemma run_configured:
  assumes "faults w = (\<lambda>_. NoFault)" "node_at w (Join [''.'', ''dropbear_host_key.pub'']) = None"
  shows "\<exists>s'. Configure demo_ssh run_config sample_keys ''.'' (vlan_system\<lparr>disk := w\<rparr>) = (Inr (), s') \<and>
    disk s' = set_node (Join [''.'', ''dropbear_host_key.pub'']) (Some (File (''ssh-ed25519 A'' @ [nl]) 0x1A4)) (passed w)"
proof -
  obtain s1 where det: "detectNetwork demo_ssh Default (vlan_system\<lparr>disk := w\<rparr>) = (Inr vlan_info, s1)"
    and s1: "length (calls s1) = 8" "disk s1 = w" "ssh_reply s1 = vlan_host"
    using vlan_run_any [of demo_ssh w] detectNetwork_runs [of demo_ssh "vlan_system\<lparr>disk := w\<rparr>" Default]
    by (auto simp: runs_def vlan_system_def split: prod.splits sum.splits)
  have "os_WriteFile (Join [''.'', ''dropbear_host_key.pub'']) (''ssh-ed25519 A'' @ [nl]) 0x1A4 (disk s1) = (Inr (),
      set_node (Join [''.'', ''dropbear_host_key.pub'']) (Some (File (''ssh-ed25519 A'' @ [nl]) 0x1A4)) (passed w))"
    unfolding s1(2) by (rule WriteFile_new) (use assms paths_here in auto)
  from vlan_setup_run [OF det s1(1,3) sample_keys_filled this] show ?thesis unfolding Configure_run_config .
qed

lemma run_written:
  assumes "faults w = (\<lambda>_. NoFault)" "node_at w (Join [''.'', ''client_wg.conf'']) = None"
    "node_at w (Join [''.'', ''README.txt'']) = None"
  shows "\<exists>q s'. writeRunArtifacts run_config sample_keys ''.'' p (s\<lparr>disk := w\<rparr>) = (Inr q, s') \<and>
    faults (disk s') = (\<lambda>_. NoFault)"
proof -
  let ?conf = "Join [''.'', ''client_wg.conf'']" and ?readme = "Join [''.'', ''README.txt'']"
  obtain ini where ini: "client_MarshalINI (run_client run_config sample_keys) = Inr ini"
    using sample_keys_filled by (simp add: client_MarshalINI_def run_client_def keys_filled_def wgEndpoint_def
        run_config_def put_out_Dir_def put_Host_def Default_def)
  define w1 where "w1 = set_node ?conf (Some (File ini 0x180)) (passed w)"
  have c: "os_WriteFile ?conf ini 0x180 w = (Inr (), w1)"
    unfolding w1_def by (rule WriteFile_new) (use paths_here assms in auto)
  have "Clean ?readme \<noteq> Clean ?conf" by (rule out_paths_distinct) (simp_all add: out_names_def)
  then have "os_WriteFile ?readme x 0x1A4 w1 = (Inr (), set_node ?readme (Some (File x 0x1A4)) (passed w1))" for x
    by (intro WriteFile_new) (use paths_here assms in \<open>auto simp: w1_def\<close>)
  with ini c assms(1) show ?thesis
    by (simp add: writeRunArtifacts_def thenS_def wrapS_def onDisk_def Let_def w1_def)
qed

lemma run_succeeds:
  "\<exists>s'. cmdRun sample_crypto ''c'' run_system = (Inr (), s') \<and> faults (disk s') = (\<lambda>_. NoFault) \<and>
     calls s' \<noteq> calls run_system"
proof -
  let ?w = "(passed ^^ 6) (passed run_disk)" and ?ubo = "Join [''.'', ''ubo.toml'']"
  have "faults ((passed ^^ k) w) = faults w" for k w by (induction k) simp_all
  with run_disk_ok(1) have w: "faults ?w = (\<lambda>_. NoFault)" by simp
  have gen: "GenerateAll sample_crypto ''.'' (passed run_disk) = (Inr sample_keys, ?w)"
    by (rule GenerateAll_reuses)
       (use run_disk_ok in \<open>simp_all add: never_fails keys_on_disk_passed [of 1, simplified]\<close>)
  obtain s2 where conf: "Configure demo_ssh run_config sample_keys ''.'' (vlan_system\<lparr>disk := ?w\<rparr>) = (Inr (), s2)"
    and s2: "disk s2 = set_node (Join [''.'', ''dropbear_host_key.pub'']) (Some (File (''ssh-ed25519 A'' @ [nl]) 0x1A4)) (passed ?w)"
    using run_configured [OF w] run_new_files by auto
  define w3 where "w3 = snd (Save run_config ?ubo (disk s2))"
  have save: "saveCopy run_config ?ubo s2 = (Inr (), s2\<lparr>disk := w3\<rparr>)"
    by (simp add: saveCopy_def onDisk_def case_prod_beta w3_def)
  have w3: "faults w3 = (\<lambda>_. NoFault)" unfolding w3_def Save_faults s2 using w by simp
  have "node_at w3 (Join [''.'', n]) = None" if "n \<in> set [''client_wg.conf'', ''README.txt'']" for n
  proof -
    have "n \<in> set out_names" "n \<noteq> ''ubo.toml''" "n \<noteq> ''dropbear_host_key.pub''" "''dropbear_host_key.pub'' \<in> set out_names"
      using that by (auto simp: out_names_def)
    then have "keeps_file (Join [''.'', n]) (disk s2) w3"
      "Clean (Join [''.'', n]) \<noteq> Clean (Join [''.'', ''dropbear_host_key.pub''])"
      unfolding w3_def by (intro Save_keeps_out out_paths_distinct; simp)+
    then show ?thesis using run_new_files [of n] that by (auto simp: keeps_file_def s2)
  qed
  then obtain q s3 where art: "writeRunArtifacts run_config sample_keys ''.'' ?ubo (s2\<lparr>disk := w3\<rparr>) = (Inr q, s3)"
    "faults (disk s3) = (\<lambda>_. NoFault)" using run_written [OF w3] by force
  have "rc_tempKnownHosts demo_ssh = []" by (simp add: demo_ssh_def newClient_def)
  then have "disk (closeClient demo_ssh s3) = disk s3" by (rule closeClient_disk)
  moreover have "cmdRun sample_crypto ''c'' run_system = (Inr (), closeClient demo_ssh s3)"
    using run_prepared gen run_connected conf save art(1)
    by (simp add: cmdRun_def thenS_def wrapS_def onDisk_def finallyS_def Let_def run_system_def)
  moreover have "calls s2 \<noteq> []" using Configure_ok [OF conf] by auto
  then have "calls (closeClient demo_ssh s3) \<noteq> calls run_system"
    using writeRunArtifacts_effect [OF art(1)] by (simp add: closeClient_disk run_system_def vlan_system_def)
  ultimately show ?thesis using art(2) by auto
qed

lemma run_leaves_unlockable_witness:
  "\<exists>s' cfg keys. cmdRun sample_crypto ''c'' run_system = (Inr (), s') \<and> unlockable cfg keys (disk s') \<and>
     isOk (fst (requireUnlockFiles (unlockFiles (OutputDir cfg)) (disk s')))"
proof -
  obtain s' where run: "cmdRun sample_crypto ''c'' run_system = (Inr (), s')" "faults (disk s') = (\<lambda>_. NoFault)"
    using run_succeeds by blast
  from run_leaves_unlockable [OF run(1) sample_crypto_ok] run never_fails [OF run(2)] show ?thesis by blast
qed

lemma run_checks_before_ssh_witness:
  "\<exists>r s' c. cmdRun sample_crypto ''c'' run_system = (r, s') \<and> asks c run_system s' \<and> rc_strictMode c = ''accept-new''"
proof -
  obtain s' where run: "cmdRun sample_crypto ''c'' run_system = (Inr (), s')" "calls s' \<noteq> calls run_system"
    using run_succeeds by blast
  from run_checks_before_ssh [OF run] run(1) show ?thesis by blast
qed

lemma run_tries_sudo_first_witness:
  "\<exists>s' c x y. cmdRun sample_crypto ''c'' run_system = (Inr (), s') \<and> \<not> rc_sudo c \<and>
     calls s' = x @ [write_call c y, run_call c (''sh '' @ scriptPath)]"
proof -
  obtain s' where run: "cmdRun sample_crypto ''c'' run_system = (Inr (), s')" using run_succeeds by blast
  from run_tries_sudo_first [OF run] obtain cfg s1 c script cmds and s3 :: system where
    prep: "prepareRun ''c'' run_system = (Inr (cfg, OutputDir cfg), s1)" and sudo: "rc_sudo c = ssh_Sudo (SSH cfg)"
    and calls: "calls s' = calls s3 @ map (run_call c) cmds @
      [write_call c (scriptPath, script, 0x1C0), run_call c (''sh '' @ scriptPath)]"
    by blast
  have "cfg = run_config" using prep run_prepared by simp
  then have "\<not> rc_sudo c" using sudo by (simp add: run_config_def put_out_Dir_def put_Host_def Default_def)
  moreover have "calls s' = (calls s3 @ map (run_call c) cmds) @
      [write_call c (scriptPath, script, 0x1C0), run_call c (''sh '' @ scriptPath)]" using calls by simp
  ultimately show ?thesis using run by blast
qed

end
