(* ===== verification/Unlock_After_Run.thy ===== *)
theory Unlock_After_Run
  imports Cli_Facts
begin

text \<open>
  The two halves of the program together: what \<open>ubo run\<close> left on the disk is enough for
  \<open>ubo unlock\<close> to get to the end of the unlock, and what it needs of the world for that.
\<close>

section \<open>Steps of the disk\<close>

lemma calmly_onDisk:
  assumes "\<And>w. healthy w \<Longrightarrow> node_at w = nodes \<Longrightarrow> \<exists>w'. m w = (Inr a, w') \<and> healthy w' \<and> node_at w' = nodes"
  shows "calmly nodes n (onSys (onDisk m)) [] a"
  unfolding calmly_def
proof (intro allI impI)
  fix st assume "sound_disk nodes st" "clients (u_log st) = n"
  then obtain w' where "m (disk (u_sys st)) = (Inr a, w')" "healthy w'" "node_at w' = nodes"
    using assms unfolding sound_disk_def by blast
  then show "\<exists>st'. onSys (onDisk m) st = (Inr a, st') \<and> sound_disk nodes st' \<and>
      u_log st' = u_log st @ map (\<lambda>e. (e, None)) []"
    by (simp add: onSys_def onDisk_def sound_disk_def)
qed

text \<open>A step of the system inside a step of the unlocker.\<close>

lemma onSys_then: "onSys (thenS m f) = thenS (onSys m) (\<lambda>a. onSys (f a))"
  by (simp add: onSys_def thenS_def fun_eq_iff split: prod.splits sum.splits)

lemma onSys_lift: "onSys (liftS r) = liftS r" "onSys (returnS a) = returnS a" "onSys (wrapS g m) = wrapS g (onSys m)"
  by (simp_all add: onSys_def wrapS_def fun_eq_iff split: prod.splits)

lemma calmly_loadUnlockConfig:
  assumes "nodes path = Some (File (Marshal cfg) m)" "storable cfg" "Validate cfg = Inr ()"
  shows "calmly nodes n (onSys (loadUnlockConfig path)) [] cfg"
proof -
  have load: "calmly nodes n (onSys (loadConfig path)) [] cfg"
    unfolding loadConfig_def onSys_lift
  proof (intro calmly_wrap calmly_onDisk)
    fix w assume "healthy w" "node_at w = nodes"
    then show "\<exists>w'. Load path w = (Inr cfg, w') \<and> healthy w' \<and> node_at w' = nodes"
      using assms toml.dec_enc [OF assms(2), of Default]
      by (auto simp: Load_def os_ReadFile_def healthy_next)
  qed
  have "calmly nodes n (onSys (loadUnlockConfig path)) ([] @ [] @ []) cfg"
    unfolding loadUnlockConfig_def onSys_then onSys_lift
    by (rule calmly_then [OF load], rule calmly_then, rule calmly_lift) (simp_all add: assms(3) calmly_return)
  then show ?thesis by simp
qed

lemma requireUnlockFiles_there:
  "healthy w \<Longrightarrow> \<forall>p\<in>set ps. there w p \<Longrightarrow>
     \<exists>w'. requireUnlockFiles ps w = (Inr (), w') \<and> healthy w' \<and> node_at w' = node_at w"
proof (induction ps arbitrary: w)
  case (Cons p ps)
  have "healthy (passed w)" "\<forall>q\<in>set ps. there (passed w) q" using Cons.prems by simp_all
  from Cons.IH [OF this] Cons.prems show ?case by (auto simp: Stat_healthy)
qed simp

section \<open>The client file of a run\<close>

lemma Clean_dir_name:
  assumes "file_name n" "d \<noteq> []"
  shows "Clean (d @ slash # n) = Clean (Join [d, n])"
  using assms by (simp add: Join_dir_name)

lemma node_at_dir_name:
  assumes "file_name n" "d \<noteq> []"
  shows "node_at w (d @ slash # n) = node_at w (Join [d, n])"
  using Clean_dir_name [OF assms] by (simp add: node_at_def)

lemma OutputDir_not_Nil: "OutputDir cfg \<noteq> []"
  by (simp add: OutputDir_def)

text \<open>A configuration with a tunnel in IPv4 and a host name that fits on a line.\<close>

definition tunnel4 :: "config \<Rightarrow> IP \<Rightarrow> IP \<Rightarrow> bool" where
  "tunnel4 cfg a b \<longleftrightarrow>
     length a = 4 \<and> length b = 4 \<and>
     (\<exists>n\<le>32. wg_ServerIP (WireGuard cfg) = cidr4 a n) \<and> (\<exists>m\<le>32. wg_ClientIP (WireGuard cfg) = cidr4 b m) \<and>
     (\<forall>c\<in>set (Host cfg). plain c) \<and> length (Host cfg) < 60000"

lemma run_client_values:
  assumes "tunnel4 cfg a b" "1 \<le> wg_Port (WireGuard cfg)" "wg_Port (WireGuard cfg) \<le> 65535"
    and "ClientWGPrivate keys = b64_encode ck" "length ck = 32" "ServerWGPublic keys = b64_encode sk" "length sk = 32"
  shows "list_all ini_value (client_values (run_client cfg keys))"
proof -
  from assms(1) obtain n m where t: "length a = 4" "length b = 4" "n \<le> 32" "wg_ServerIP (WireGuard cfg) = cidr4 a n"
    "m \<le> 32" "wg_ClientIP (WireGuard cfg) = cidr4 b m" "\<forall>c\<in>set (Host cfg). plain c" "length (Host cfg) < 60000"
    by (auto simp: tunnel4_def)
  have digits: "list_all plain (show_nat k)" for k
    using show_nat_digits [of k] is_digit_plain by (auto simp: list_all_iff)
  have seps: "plain CHR ''/''" "plain CHR '':''" "plain CHR ''[''" "plain CHR '']''"
    by (simp_all add: plain_def ascii_spaces_def)
  have "length (show_nat m) \<le> 2" using length_show_nat_bound [of m 1] t(5) by simp
  then have "list_all plain (CHR ''/'' # show_nat m) \<and> length (CHR ''/'' # show_nat m) \<le> 100"
    using digits seps by simp
  with ini_value_dotted [OF t(2)] have addr: "ini_value (cidr4 b m)" unfolding cidr4_def by blast
  have "list_all plain ''/32''" by code_simp
  then have allowed: "ini_value (dotted a @ ''/32'')" by (intro ini_value_dotted t(1)) simp_all
  have keys: "ini_value (b64_encode ck)" "ini_value (b64_encode sk)"
    by (rule ini_value_b64; use assms(5,7) in auto)+
  let ?p = "itoa (wg_Port (WireGuard cfg))"
  have "length (show_nat (nat (wg_Port (WireGuard cfg)))) \<le> 5"
    using length_show_nat_bound [of "nat (wg_Port (WireGuard cfg))" 4] assms(3) by simp
  then have "length ?p \<le> 5" using assms(2) by (simp add: itoa_nat)
  moreover have "\<forall>c\<in>set ?p. plain c" by (rule itoa_plain)
  ultimately have "ini_value (wgEndpoint (Host cfg) (wg_Port (WireGuard cfg)))"
    using t(7,8) seps by (auto simp: wgEndpoint_def ini_value_def)
  with addr allowed keys show ?thesis
    using WGServerTunnelIP_IPv4 [OF t(4,1,3)]
    by (simp add: client_values_def run_client_def assms(4,6) t(6))
qed

text \<open>
  Keys the libraries accept: two WireGuard keys of 32 bytes, a file with a private key for the
  login, and a pinned key that parses.
\<close>

definition usable_keys ::
  "net_env \<Rightarrow> config \<Rightarrow> Keys \<Rightarrow> world \<Rightarrow> byte list \<Rightarrow> byte list \<Rightarrow> string \<Rightarrow> string \<Rightarrow> bool" where
  "usable_keys env cfg keys w ck sk signer hostKey \<longleftrightarrow>
     ClientWGPrivate keys = b64_encode ck \<and> length ck = 32 \<and> ServerWGPublic keys = b64_encode sk \<and> length sk = 32 \<and>
     (\<exists>pem. holds_data w (Join [OutputDir cfg, ''client_auth_ed25519'']) pem \<and>
        ne_ParsePrivateKey env pem = Some signer) \<and>
     (\<forall>pin. holds_data w (Join [OutputDir cfg, ''dropbear_host_key.pub'']) pin \<longrightarrow>
        ne_ParseAuthorizedKey env pin = Some hostKey)"

lemma unlock_names: "file_name ''client_wg.conf''" "file_name ''client_auth_ed25519''" "file_name ''dropbear_host_key.pub''"
  by code_simp+

lemma Unlock_unlockable:
  assumes "unlockable cfg keys w" "Validate cfg = Inr ()" "calm env" "tunnel4 cfg a b"
    and "usable_keys env cfg keys w ck sk signer hostKey"
  shows "calmly (node_at w) k (Unlock env cfg (OutputDir cfg) False)
    (unlock_events env k (Addr4 b) (unlines (ipc_lines (hex_encode ck) (hex_encode sk) (client_read (run_client cfg keys))))
       (Addr4 a, nat (db_Port (Dropbear cfg))) hostKey signer) ()"
proof -
  let ?d = "OutputDir cfg" and ?c = "run_client cfg keys"
  have path_of: "node_at w (?d @ slash # n) = node_at w (Join [?d, n])" if "file_name n" for n
    using that OutputDir_not_Nil by (rule node_at_dir_name)
  from assms(4) obtain n m where t: "length a = 4" "length b = 4" "n \<le> 32" "wg_ServerIP (WireGuard cfg) = cidr4 a n"
    "m \<le> 32" "wg_ClientIP (WireGuard cfg) = cidr4 b m"
    by (auto simp: tunnel4_def)
  have k: "ClientWGPrivate keys = b64_encode ck" "length ck = 32" "ServerWGPublic keys = b64_encode sk" "length sk = 32"
    using assms(5) by (simp_all add: usable_keys_def)
  have ports: "port_ok (wg_Port (WireGuard cfg))" "port_ok (db_Port (Dropbear cfg))"
    using assms(2) by (simp_all add: Validate_iff)
  obtain mo where conf: "node_at w (?d @ ''/client_wg.conf'') = Some (File (unlines (client_lines ?c)) mo)"
    using assms(1) path_of [OF unlock_names(1)] by (auto simp: unlockable_def Let_def holds_data_def)
  obtain pin mp where pin: "node_at w (?d @ ''/dropbear_host_key.pub'') = Some (File pin mp)"
    "holds_data w (Join [?d, ''dropbear_host_key.pub'']) pin"
    using assms(1) path_of [OF unlock_names(3)] by (auto simp: unlockable_def Let_def holds_data_def)
  obtain pem ms where pem: "node_at w (?d @ ''/client_auth_ed25519'') = Some (File pem ms)"
    "ne_ParsePrivateKey env pem = Some signer"
    using assms(5) path_of [OF unlock_names(2)] by (auto simp: usable_keys_def holds_data_def)
  have login: "login_files env (node_at w) ?d signer hostKey"
    unfolding login_files_def using pin pem assms(5) unfolding usable_keys_def by blast
  have vals: "list_all ini_value (client_values ?c)"
    by (rule run_client_values [OF assms(4) _ _ k]) (use ports in \<open>simp_all add: port_ok_def\<close>)
  have ip: "parseFirstAddr (wc_Address (client_read ?c)) = Inr (Addr4 b)"
    using parseFirstAddr_cidr4 [OF t(2,5)] by (simp add: client_read_def run_client_def t(6))
  have ipc: "buildIPC (client_read ?c) = Inr (unlines (ipc_lines (hex_encode ck) (hex_encode sk) (client_read ?c)))"
    using k by (simp add: buildIPC_ok b64ToHex_encode) (simp add: client_read_def run_client_def k b64ToHex_encode)
  have "ParseAddrPort (server_addr cfg) = Some (Addr4 a, nat (db_Port (Dropbear cfg)))"
    unfolding server_addr_def WGServerTunnelIP_IPv4 [OF t(4,1,3)]
    using ports(2) by (intro ParseAddrPort_dotted t(1)) (simp_all add: port_ok_def)
  then show ?thesis
    by (rule calmly_Unlock [OF assms(3) login conf parseWGText_client [OF vals] ip ipc])
qed

section \<open>Properties\<close>

text \<open>C5: What a run leaves behind is enough: when the files of \<open>run_leaves_unlockable\<close> and the copy of
  the configuration are on a disk that works, the tunnel is in IPv4, the keys are keys and nothing
  outside fails, then \<open>ubo unlock\<close> succeeds. It reads its configuration, brings the device up with the
  address of the client and the two keys in hexadecimal, waits for the server, opens the session with
  the pinned key and the login key, runs the unlock command, and takes all of it down again.\<close>

theorem unlock_after_run:
  assumes "unlockable cfg keys (disk (u_sys st))" "holds_data (disk (u_sys st)) path (Marshal cfg)"
    and "Validate cfg = Inr ()" "storable cfg" "tunnel4 cfg a b"
    and "usable_keys env cfg keys (disk (u_sys st)) ck sk signer hostKey"
    and "healthy (disk (u_sys st))" "calm env"
  shows "\<exists>st'. cmdUnlock env path False st = (Inr (), st') \<and>
    u_log st' = u_log st @ map (\<lambda>e. (e, None))
      (unlock_events env (clients (u_log st)) (Addr4 b)
        (unlines (ipc_lines (hex_encode ck) (hex_encode sk) (client_read (run_client cfg keys))))
        (Addr4 a, nat (db_Port (Dropbear cfg))) hostKey signer)"
proof -
  let ?w = "disk (u_sys st)" and ?d = "OutputDir cfg" and ?n = "clients (u_log st)"
  obtain m where path_of: "node_at ?w path = Some (File (Marshal cfg) m)" using assms(2) by (auto simp: holds_data_def)
  have files: "calmly (node_at ?w) ?n (onSys (onDisk (requireUnlockFiles (unlockFiles ?d)))) [] ()"
  proof (rule calmly_onDisk)
    fix w assume w: "healthy w" "node_at w = node_at ?w"
    then have "there w = there ?w" by (simp add: there_def is_dir_def fun_eq_iff)
    with unlockable_there [OF assms(1)] have "\<forall>p\<in>set (unlockFiles ?d). there w p" by simp
    from requireUnlockFiles_there [OF w(1) this] w(2)
    show "\<exists>w'. requireUnlockFiles (unlockFiles ?d) w = (Inr (), w') \<and> healthy w' \<and> node_at w' = node_at ?w" by simp
  qed
  have "calmly (node_at ?w) ?n (cmdUnlock env path False)
      ([] @ [] @ unlock_events env ?n (Addr4 b)
        (unlines (ipc_lines (hex_encode ck) (hex_encode sk) (client_read (run_client cfg keys))))
        (Addr4 a, nat (db_Port (Dropbear cfg))) hostKey signer) ()"
    unfolding cmdUnlock_def
    by (rule calmly_then, rule calmly_loadUnlockConfig, rule path_of, rule assms(4), rule assms(3), unfold Let_def,
      rule calmly_then [OF files], rule calmly_wrap, rule Unlock_unlockable [OF assms(1,3,8,5,6)]) simp_all
  moreover have "sound_disk (node_at ?w) st" using assms(7) by (simp add: sound_disk_def)
  ultimately show ?thesis unfolding calmly_def append_Nil by blast
qed

section \<open>A directory as a run leaves it\<close>

definition out_files :: "(string \<times> string) list \<Rightarrow> world" where
  "out_files ps = foldr (\<lambda>(n, data). set_node (Join [''.'', n]) (Some (File data 0x180))) ps clean_world"

lemma out_files_node:
  assumes "distinct (map fst ps)" "set (map fst ps) \<subseteq> set out_names" "(n, data) \<in> set ps"
  shows "node_at (out_files ps) (Join [''.'', n]) = Some (File data 0x180)"
  using assms
proof (induction ps)
  case (Cons p ps)
  obtain m x where p: "p = (m, x)" by (cases p)
  show ?case
  proof (cases "(n, data) = p")
    case True
    then show ?thesis by (simp add: out_files_def p node_at_set_node)
  next
    case False
    with Cons.prems(3) have later: "(n, data) \<in> set ps" by simp
    then have "n \<noteq> m" using Cons.prems(1) p by force
    moreover have "n \<in> set out_names" "m \<in> set out_names" using Cons.prems(2) later p by force+
    ultimately have "Clean (Join [''.'', n]) \<noteq> Clean (Join [''.'', m])" by (intro out_paths_distinct)
    moreover have "node_at (out_files ps) (Join [''.'', n]) = Some (File data 0x180)"
      using Cons.IH Cons.prems later by simp
    ultimately show ?thesis by (simp add: out_files_def p node_at_set_node)
  qed
qed simp

lemma out_files_faults [simp]: "faults (out_files ps) = (\<lambda>_. NoFault)"
  by (induction ps) (auto simp: out_files_def)

definition left_keys :: Keys where
  "left_keys =
     \<lparr>ServerWGPrivate = ''k'', ServerWGPublic = b64_encode (replicate 32 2), ClientWGPrivate = b64_encode (replicate 32 1),
      ClientWGPublic = ''k'', ClientSSHKeyPath = Join [''.'', ''client_auth_ed25519''], ClientSSHPubKey = ''k''\<rparr>"

definition left_files :: "(string \<times> string) list" where
  "left_files =
     [(''server_wg_private.key'', ''k''), (''server_wg_public.key'', b64_encode (replicate 32 2)),
      (''client_wg_private.key'', b64_encode (replicate 32 1)), (''client_wg_public.key'', ''k''),
      (''client_auth_ed25519'', ''login''), (''client_auth_ed25519.pub'', ''k''),
      (''dropbear_host_key.pub'', ''pin'' @ [nl]),
      (''client_wg.conf'', unlines (client_lines (run_client run_config left_keys))),
      (''ubo.toml'', Marshal run_config)]"

lemma left_holds:
  assumes "(n, data) \<in> set left_files"
  shows "holds_data (out_files left_files) (Join [''.'', n]) data"
proof -
  have names: "map fst left_files =
      [''server_wg_private.key'', ''server_wg_public.key'', ''client_wg_private.key'', ''client_wg_public.key'',
       ''client_auth_ed25519'', ''client_auth_ed25519.pub'', ''dropbear_host_key.pub'', ''client_wg.conf'', ''ubo.toml'']"
    by (simp add: left_files_def)
  have "distinct (map fst left_files)" unfolding names by simp
  moreover have "set (map fst left_files) \<subseteq> set out_names"
    unfolding names by (simp add: out_names_def key_names_def key_files_def)
  ultimately show ?thesis using out_files_node assms by (auto simp: holds_data_def)
qed

lemma left_unlockable: "unlockable run_config left_keys (out_files left_files)"
proof -
  have k: "trim_space ''k'' = ''k''" by code_simp
  have b: "trim_space (b64_encode (replicate 32 x)) = b64_encode (replicate 32 x)" for x
    by (rule trim_space_id) (rule trimmed_b64)
  have h: "holds_data (out_files left_files) (Join [''.'', ''server_wg_private.key'']) ''k''"
    "holds_data (out_files left_files) (Join [''.'', ''server_wg_public.key'']) (b64_encode (replicate 32 2))"
    "holds_data (out_files left_files) (Join [''.'', ''client_wg_private.key'']) (b64_encode (replicate 32 1))"
    "holds_data (out_files left_files) (Join [''.'', ''client_wg_public.key'']) ''k''"
    "holds_data (out_files left_files) (Join [''.'', ''client_auth_ed25519'']) ''login''"
    "holds_data (out_files left_files) (Join [''.'', ''client_auth_ed25519.pub'']) ''k''"
    "holds_data (out_files left_files) (Join [''.'', ''dropbear_host_key.pub'']) (''pin'' @ [nl])"
    "holds_data (out_files left_files) (Join [''.'', ''client_wg.conf'']) (unlines (client_lines (run_client run_config left_keys)))"
    by (rule left_holds; simp add: left_files_def)+
  have "keys_on_disk (out_files left_files) ''.'' left_keys"
    unfolding keys_on_disk_def left_keys_def
    using h(1-4,6) k b holds_there [OF h(5), unfolded there_def] by (simp del: replicate.simps) metis
  then show ?thesis
    unfolding unlockable_def Let_def run_config_ok(2) using h(7,8) by blast
qed

lemma unlock_after_run_witness:
  "\<exists>st'. cmdUnlock quiet_env (Join [''.'', ''ubo.toml'']) False
       (quiet_start\<lparr>u_sys := quiet_system\<lparr>disk := out_files left_files\<rparr>\<rparr>) = (Inr (), st') \<and>
     (StartCmd unlock_cmd, None) \<in> set (u_log st')"
proof -
  let ?st = "quiet_start\<lparr>u_sys := quiet_system\<lparr>disk := out_files left_files\<rparr>\<rparr>" and ?w = "out_files left_files"
  have w: "disk (u_sys ?st) = ?w" and n: "clients (u_log ?st) = 0" by (simp_all add: quiet_start_def)
  have toml: "holds_data ?w (Join [''.'', ''ubo.toml'']) (Marshal run_config)"
    and login: "holds_data ?w (Join [''.'', ''client_auth_ed25519'']) ''login''"
    and pin: "holds_data ?w (Join [''.'', ''dropbear_host_key.pub'']) (''pin'' @ [nl])"
    by (rule left_holds; simp add: left_files_def)+
  have "plain CHR ''h''" by (simp add: plain_def ascii_spaces_def)
  moreover have "wg_ServerIP (WireGuard run_config) = cidr4 [10, 42, 0, 1] 24"
    "wg_ClientIP (WireGuard run_config) = cidr4 [10, 42, 0, 2] 32" "Host run_config = ''h''"
    by (simp_all add: run_config_def put_out_Dir_def put_Host_def Default_def default_tunnel)
  ultimately have tunnel: "tunnel4 run_config [10, 42, 0, 1] [10, 42, 0, 2]"
    unfolding tunnel4_def by (simp; intro conjI exI [of _ 24] exI [of _ 32]; simp)
  have keys: "usable_keys quiet_env run_config left_keys ?w (replicate 32 1) (replicate 32 2) ''login'' (''pin'' @ [nl])"
    unfolding usable_keys_def run_config_ok(2) using login pin
    by (auto simp: left_keys_def quiet_env_def holds_data_def)
  have healthy: "healthy ?w" by (rule never_fails) simp
  have calm: "calm quiet_env" by (simp add: calm_def quiet_env_def)
  from unlock_after_run [of run_config left_keys ?st, unfolded w n, OF left_unlockable toml run_config_ok(1,3) tunnel keys healthy calm]
  obtain st' where "cmdUnlock quiet_env (Join [''.'', ''ubo.toml'']) False ?st = (Inr (), st')"
    "\<exists>a b. u_log st' = a @ map (\<lambda>e. (e, None)) (pty_events quiet_env (Suc 0) unlock_cmd) @ b"
    unfolding unlock_events_def map_append by (metis append.assoc)
  moreover have "StartCmd unlock_cmd \<in> set (pty_events quiet_env (Suc 0) unlock_cmd)" by (simp add: pty_events_def)
  ultimately show ?thesis by (intro exI [of _ st']) auto
qed

section \<open>Which directory\<close>

definition host_special :: string where "host_special = '':[]''"

lemma OutputDir_no_special:
  assumes "out_Dir (Output cfg) = []"
  shows "set (OutputDir cfg) \<inter> set host_special = {}" "has_prefix (OutputDir cfg) ''ubo-''"
  using assms by (auto simp: OutputDir_cases host_special_def has_prefix_def)

lemma host_directory:
  assumes "out_Dir (Output cfg) = []"
  shows "''ubo-'' @ Host cfg = OutputDir cfg \<longleftrightarrow> set (Host cfg) \<inter> set host_special = {}"
proof
  assume "''ubo-'' @ Host cfg = OutputDir cfg"
  with OutputDir_no_special(1) [OF assms] have "set (''ubo-'' @ Host cfg) \<inter> set host_special = {}" by simp
  then show "set (Host cfg) \<inter> set host_special = {}" by auto
next
  assume "set (Host cfg) \<inter> set host_special = {}"
  then have plain: "\<forall>c\<in>set (Host cfg). c \<noteq> CHR '':'' \<and> c \<noteq> CHR ''['' \<and> c \<noteq> CHR '']''"
    by (auto simp: host_special_def)
  then have "filter (\<lambda>b. b \<noteq> CHR ''['' \<and> b \<noteq> CHR '']'') (Host cfg) = Host cfg" by simp
  moreover have "map (\<lambda>b. if b = CHR '':'' then CHR ''-'' else b) (Host cfg) = Host cfg"
    using plain by (intro map_idI) auto
  ultimately show "''ubo-'' @ Host cfg = OutputDir cfg" using assms by (simp add: OutputDir_cases)
qed

lemma globConfigs_healthy:
  "healthy w \<Longrightarrow> fst (globConfigs names w) =
     map (\<lambda>n. Join [n, ''ubo.toml'']) (filter (\<lambda>n. has_prefix n ''ubo-'' \<and> there w (Join [n, ''ubo.toml''])) names)"
  by (induction names arbitrary: w) (simp_all add: Stat_healthy case_prod_beta Let_def)

text \<open>C15: \<open>unlock\<close> finds the directory of a run that had no directory configured: with \<open>unlock HOST\<close>
  when the host has no colon or bracket, in which case the name \<open>unlock\<close> makes from the host is the
  name the run made; with any host, an IPv6 address too, when the directory is in the listing of the
  working directory; and without a question when it is the only one there.\<close>

theorem unlock_finds_directory:
  assumes "out_Dir (Output cfg) = []" "healthy (disk s)" "there (disk s) (Join [OutputDir cfg, ''ubo.toml''])"
  shows "(set (Host cfg) \<inter> set host_special = {} \<longleftrightarrow> ''ubo-'' @ Host cfg = OutputDir cfg) \<and>
    (set (Host cfg) \<inter> set host_special = {} \<longrightarrow>
       fst (findConfigByHost (Host cfg) s) = Inr (Join [OutputDir cfg, ''ubo.toml''])) \<and>
    (OutputDir cfg \<in> set names \<longrightarrow> Join [OutputDir cfg, ''ubo.toml''] \<in> set (fst (globConfigs names (disk s)))) \<and>
    (filter (\<lambda>n. has_prefix n ''ubo-'' \<and> there (disk s) (Join [n, ''ubo.toml''])) names = [OutputDir cfg] \<longrightarrow>
       fst (resolveUnlockConfig names [] s) = Inr (Join [OutputDir cfg, ''ubo.toml'']))"
proof (intro conjI impI)
  show "set (Host cfg) \<inter> set host_special = {} \<longleftrightarrow> ''ubo-'' @ Host cfg = OutputDir cfg"
    using host_directory [OF assms(1)] by blast
next
  assume "set (Host cfg) \<inter> set host_special = {}"
  then have "''ubo-'' @ Host cfg = OutputDir cfg" using host_directory [OF assms(1)] by blast
  then show "fst (findConfigByHost (Host cfg) s) = Inr (Join [OutputDir cfg, ''ubo.toml''])"
    unfolding findConfigByHost_def Let_def using assms(2,3)
    by (simp del: append_Cons add: onDisk_def Stat_healthy)
next
  assume "OutputDir cfg \<in> set names"
  then show "Join [OutputDir cfg, ''ubo.toml''] \<in> set (fst (globConfigs names (disk s)))"
    using OutputDir_no_special(2) [OF assms(1)] assms(3) by (simp add: globConfigs_healthy [OF assms(2)])
next
  assume "filter (\<lambda>n. has_prefix n ''ubo-'' \<and> there (disk s) (Join [n, ''ubo.toml''])) names = [OutputDir cfg]"
  then have "fst (globConfigs names (disk s)) = [Join [OutputDir cfg, ''ubo.toml'']]"
    by (simp add: globConfigs_healthy [OF assms(2)])
  then show "fst (resolveUnlockConfig names [] s) = Inr (Join [OutputDir cfg, ''ubo.toml''])"
    by (simp add: resolveUnlockConfig_def pickUnlockConfig_def case_prod_beta Let_def)
qed

definition host_config :: config where
  "host_config = put_Host ''h'' Default"

lemma unlock_finds_directory_witness:
  "fst (findConfigByHost ''h'' (quiet_system\<lparr>disk := set_node ''ubo-h/ubo.toml'' (Some (File [] 0x1A4)) clean_world\<rparr>)) =
     Inr ''ubo-h/ubo.toml''"
proof -
  let ?s = "quiet_system\<lparr>disk := set_node ''ubo-h/ubo.toml'' (Some (File [] 0x1A4)) clean_world\<rparr>"
  have cfg: "out_Dir (Output host_config) = []" "Host host_config = ''h''"
    by (simp_all add: host_config_def put_Host_def Default_def)
  have p: "OutputDir host_config = ''ubo-h''" "Join [''ubo-h'', ''ubo.toml''] = ''ubo-h/ubo.toml''" by code_simp+
  have s: "healthy (disk ?s)" "there (disk ?s) (Join [OutputDir host_config, ''ubo.toml''])"
    by (simp_all only: p) (simp_all add: there_def)
  have "set (Host host_config) \<inter> set host_special = {}" by (simp add: cfg host_special_def)
  with unlock_finds_directory [OF cfg(1) s] have "fst (findConfigByHost (Host host_config) ?s) = Inr (Join [OutputDir host_config, ''ubo.toml''])"
    by blast
  then show ?thesis unfolding p cfg .
qed

text \<open>
  The host of an IPv6 address: the directory of the run is not the one \<open>unlock HOST\<close> looks at.
\<close>

lemma IPv6_host_directory: "OutputDir (put_Host ''::1'' Default) = ''ubo---1''"
  "''ubo-'' @ ''::1'' \<noteq> OutputDir (put_Host ''::1'' Default)"
  by code_simp+

text \<open>
  A flag before the command's name: the command is \<open>run\<close>, and the word that names a command is an
  argument that \<open>run\<close> does not look at.
\<close>

lemma flag_before_command: "isFlag f \<Longrightarrow> dispatch env (f # args) = dispatch env (''run'' # f # args)"
  by (simp add: dispatch_def parseSubcommand_def) (simp add: isFlag_def)

lemma config_flag_runs:
  "dispatch env [''--config'', f, ''unlock''] = finished (onSys (cmdRun (ce_crypto env) f))"
proof -
  have "parseSubcommand [''--config'', f, ''unlock''] = (''run'', [''--config'', f, ''unlock''])"
    "parseFlags [] [''--config'', f, ''unlock''] = Inr (f, [''unlock''])" "\<not> isHelpSubcommand ''run''"
    by code_simp+
  then show ?thesis by (simp add: dispatch_def subcommands_def)
qed

text \<open>
  A server address in IPv6 does not parse without brackets, so with such a tunnel every unlock ends
  there; the allowed addresses of the peer are 32 bits long whatever the address is. A host that is given
  in brackets gets a second pair.
\<close>

lemma ipv4Loop_v4_chars: "ipv4Loop op v d fs s = Some b \<Longrightarrow> \<forall>c\<in>set s. is_digit c \<or> c = CHR ''.''"
  by (induction op v d fs s rule: ipv4Loop.induct) (auto simp: Let_def split: if_splits)

lemma ParseAddr_colon:
  assumes "ParseAddr s = Some (Addr4 b)"
  shows "CHR '':'' \<notin> set s"
proof -
  have "parseIPv6 t \<noteq> Some (Addr4 b)" for t using parseIPv6_length by blast
  with assms have "parseIPv4Fields s = Some b" by (auto simp: ParseAddr_def split: option.splits if_splits)
  then have "\<forall>c\<in>set s. is_digit c \<or> c = CHR ''.''"
    by (auto simp: parseIPv4Fields_def split: if_splits dest: ipv4Loop_v4_chars)
  then show ?thesis by (auto simp: is_digit_def)
qed

lemma ParseAddrPort_colons:
  assumes "CHR '':'' \<in> set ip" "hd ip \<noteq> CHR ''[''" "CHR '':'' \<notin> set port"
  shows "ParseAddrPort (ip @ CHR '':'' # port) = None"
proof -
  have "ParseAddr ip \<noteq> Some (Addr4 b)" for b using ParseAddr_colon assms(1) by blast
  then have "ParseAddr ip = Some a \<Longrightarrow> \<not> Is4 a" for a by (cases a) (auto simp: Is4_def)
  with assms show ?thesis by (auto simp: ParseAddrPort_def cut_last_append split: option.splits)
qed

lemma IPv6_tunnel_unlock:
  assumes "CHR '':'' \<in> set (WGServerTunnelIP cfg)" "hd (WGServerTunnelIP cfg) \<noteq> CHR ''[''"
    "0 \<le> db_Port (Dropbear cfg)"
  shows "unlockOverTunnel env cfg d changeKey st = (Inl (BadServerAddr (server_addr cfg)), st)"
proof -
  have "CHR '':'' \<notin> set (itoa (db_Port (Dropbear cfg)))" using assms(3) show_nat_no_dot by (simp add: itoa_nat)
  then show ?thesis
    using ParseAddrPort_colons [OF assms(1,2)] by (simp add: unlockOverTunnel_def server_addr_def)
qed

lemma peer_allowed: "cl_AllowedIPs (run_client cfg keys) = WGServerTunnelIP cfg @ ''/32''"
  "wgEndpoint ''[::1]'' 51820 = ''[[::1]]:'' @ itoa 51820"
  by (simp_all add: run_client_def wgEndpoint_def)

end
