(* ===== verification/Spec2Isabelle.thy ===== *)
theory Spec2Isabelle
  imports Config_Template Unlock_After_Run
begin

text \<open>
  A verification library for ubo, the command line tool that prepares a Debian host for unlocking its
  encrypted disk over the network and then unlocks it.

  \<^bold>\<open>The program.\<close> \<open>ubo run\<close> loads or asks for a configuration, checks it, makes or reloads the keys,
  connects to the host with \<open>ssh\<close>, detects the host's network, renders one shell script that installs
  WireGuard, Dropbear and the boot scripts, runs it there, and saves the host key that the script reports
  together with the client's files in an output directory. \<open>ubo unlock\<close> reads that directory, brings up a
  WireGuard device in user space, waits for the boot-time server, opens an SSH session with the pinned
  key, runs \<open>cryptroot-unlock\<close>, and takes everything down again; \<open>unlock change\<close> first changes the
  passphrase. \<open>configure\<close>, \<open>init\<close> and \<open>status\<close> edit, create and inspect files on this side only.

  \<^bold>\<open>How it is modelled.\<close> A Go function is a HOL function of the same name. One that can fail returns a sum,
  \<open>Inl\<close> the error; one that uses the world is a \<open>step\<close> from a state to a result and a state, composed with
  \<open>thenS\<close> (the early returns), \<open>wrapS\<close> (the wrapped errors), \<open>finallyS\<close> and \<open>undoS\<close> (the deferred calls).
  There are three layers of state: a \<open>world\<close> is the disk, in which every call may fail or, when it writes,
  stop half way, as an arbitrary function decides; a \<open>system\<close> adds the \<open>ssh\<close> program, an arbitrary function from
  the calls so far to an answer, with the log of those calls, the terminal and the search path; an
  \<open>unlocker\<close> adds the network and the SSH library, an arbitrary function from the events so far to an
  error or none, with the log of those events and a clock. Claims hold for every such function
  unless they say otherwise. Integers of Go are \<open>int\<close> with the bounds of \<open>strconv\<close>, bytes of addresses and
  keys are words of 8 bits, strings are lists of bytes.

  \<^bold>\<open>The theories.\<close>
  \<^item> \<^theory_text>\<open>Ubo_Prelude\<close>: results, steps and their laws. \<^theory_text>\<open>Go_Strings\<close>, \<^theory_text>\<open>Go_Numbers\<close>, \<^theory_text>\<open>Go_Path\<close>, \<^theory_text>\<open>Go_FS\<close>,
    \<^theory_text>\<open>Go_Net\<close>, \<^theory_text>\<open>Go_Net_Text\<close>, \<^theory_text>\<open>Go_Encoding\<close>, \<^theory_text>\<open>Go_JSON\<close>, \<^theory_text>\<open>Shell\<close>, \<^theory_text>\<open>System\<close>: what the source uses of
    Go's standard library, the POSIX shell's reading of words, and the state of the system.
  \<^item> \<^theory_text>\<open>Config_Data\<close>, \<^theory_text>\<open>Toml\<close>, \<^theory_text>\<open>Config\<close>, \<^theory_text>\<open>Config_Store\<close>, \<^theory_text>\<open>Config_Template\<close>: \<open>internal/config\<close>. The reader and the
    writer of the file agree on the storable values, a parse error names the first bad line, \<open>Validate\<close> is what
    the addresses mean, \<open>Save\<close> is all or nothing whatever fails, and \<open>init\<close> (of
    \<open>main.go\<close>) leaves a file that loads and is valid, and touches no file that it finds.
  \<^item> \<^theory_text>\<open>Keygen\<close>: \<open>internal/keygen\<close>. Clamped keys, no half of a key pair left behind, a second call loads
    what the first one made. The cryptographic libraries are a parameter with the law \<open>crypto_ok\<close>.
  \<^item> \<^theory_text>\<open>Templates\<close>, \<^theory_text>\<open>WG_Conf\<close>: \<open>internal/templates\<close> and \<open>contrib/rootless/parse.go\<close>. The addresses in the boot
    script have no character that means something to the shell; its other fields are not checked. The
    setup script's lines that decode a payload or set a mode, read as a shell splits them into words,
    leave the six files with their contents and modes. The client's file is read back as it was
    written exactly when its values have no white space at their ends.
  \<^item> \<^theory_text>\<open>Remote\<close>: \<open>internal/remote\<close>. A command under \<open>sudo\<close> is one word of the shell, the password goes to standard
    input only, and a client exists only with host key checking on.
  \<^item> \<^theory_text>\<open>Setup_Text\<close>, \<^theory_text>\<open>Net_Detect\<close>, \<^theory_text>\<open>Grub\<close>, \<^theory_text>\<open>Setup\<close>: \<open>internal/setup\<close>. What detection asks (one fixed list of
    commands about one interface) and finds, the edit of
    the boot loader's file line by line, the data of the script, and the whole setup with its failures.
  \<^item> \<^theory_text>\<open>Checker\<close>, \<^theory_text>\<open>Tui\<close>, \<^theory_text>\<open>Cli_Input\<close>: \<open>internal/checker\<close>, \<open>internal/tui\<close> and the prompts and flags of \<open>main.go\<close>.
    What the editor saves and what the prompts give are functions of the typed lines.
  \<^item> \<^theory_text>\<open>Tunnel\<close>, \<^theory_text>\<open>Rootless\<close>: \<open>contrib/rootless/rootless.go\<close>. \<^theory_text>\<open>Unlock_Run\<close> follows an unlock on which nothing
    fails. \<^theory_text>\<open>Protocol\<close> is the abstract protocol, a step relation over how far an unlock is (the interface
    created, configured, up, down, closed; on it a connection, a client, a session, the raw terminal, a
    running command), which does not mention the program, with one composition rule per construct of
    the program. \<^theory_text>\<open>Unlock_Protocol\<close> shows that \<open>Unlock\<close> refines it in every environment. After success, and
    after any error once the device is up, the run ends with the device down and closed, and on the
    way each connection, each session and each client was closed, the client by its own close. An
    error of the setup before ends where the code ends, which can be an interface that stays. A command
    reaches a server over a client made with the pinned key, or by the one call of \<open>ssh\<close> that the
    change of the passphrase falls back to when there is no tunnel; that call accepts a new host key.
  \<^item> \<^theory_text>\<open>Cli\<close>, \<^theory_text>\<open>Cli_Facts\<close>, \<^theory_text>\<open>Unlock_After_Run\<close>: the commands of \<open>main.go\<close> and what they guarantee together: nothing is
    sent to the host before the checks, a run that succeeds leaves what unlocking needs, \<open>status\<close> says so
    exactly then, and \<open>unlock\<close> on such a directory gets to its end when nothing outside fails.

  \<^bold>\<open>Interfaces.\<close> The locales state what one part relies on and are interpreted where the model provides it: the
  fields of the configuration in \<^theory_text>\<open>Config_Data\<close>, reading back what was written in \<^theory_text>\<open>Toml\<close>, the stored
  configuration in \<^theory_text>\<open>Config_Store\<close>, a question of the detection in \<^theory_text>\<open>Net_Detect\<close>, among others.

  \<^bold>\<open>Termination and bounds.\<close> Every function is total. The loops of the program end by a measure: the wait for
  the tunnel by the time to its deadline, because a sleep follows each attempt, so it asks at most 15 times;
  the prompts by the lines that are left on the terminal. The JSON reader carries fuel, the length of its
  text, and the limit on nesting of Go's package; \<open>CreateTemp\<close> tries 10000 names, as Go does.

  \<^bold>\<open>Not modelled.\<close> What is only printed (progress, prompts, the usage text; the report of \<open>status\<close> is a value);
  the calls of \<open>stty\<close>; symbolic links, the umask and other processes that change the disk meanwhile; the
  listing of the working directory, which is a parameter; the WireGuard, SSH and cryptographic libraries and
  the \<open>ssh\<close> program, which are parameters; what the rendered script does when the host runs it, beyond the
  words and files that the shell gets from its text; the unit tests, the integration tests and the documents.
\<close>

end
